(* ===== verification/Prelude.thy ===== *)
theory Prelude
  imports Main "HOL-Library.Multiset"
begin

text \<open>
  Shared vocabulary of the development.

  A C++ member function is modelled as a program \<open>'s \<Rightarrow> ('e, 'a) outcome \<times> 's\<close>: it runs on
  a state and ends in one of four ways.  \<open>Ret\<close> is a normal return, \<open>Throw\<close> an exception
  that leaves the function, \<open>Undef\<close> behaviour the C++ standard leaves undefined (an
  out-of-range \<open>operator[]\<close>, a signed overflow, an \<open>unlock\<close> of a mutex that is not held),
  and \<open>Hang\<close> a call that never returns (a \<open>lock\<close> of a mutex nobody will release, a loop
  that does not end).  The state reached is kept in every case, because an exception or an
  undefined step does not undo the statements executed before it.

  \<open>refines\<close> relates a program on concrete states to a program on abstract states; its
  rules are collected in \<open>refine_intros\<close>, so that an operation is refined by following its
  text.
\<close>

named_theorems refine_intros
  "introduction rules that relate a program to its abstract counterpart"
named_theorems prog_simps
  "equations that run a program one statement further"

section \<open>Outcomes and programs\<close>

datatype ('e, 'a) outcome = Ret 'a | Throw 'e | Undef | Hang

type_synonym ('e, 's, 'a) prog = "'s \<Rightarrow> ('e, 'a) outcome \<times> 's"

definition ret :: "'a \<Rightarrow> ('e, 's, 'a) prog" where
  "ret a = (\<lambda>s. (Ret a, s))"

definition throw :: "'e \<Rightarrow> ('e, 's, 'a) prog" where
  "throw e = (\<lambda>s. (Throw e, s))"

definition undef :: "('e, 's, 'a) prog" where
  "undef = (\<lambda>s. (Undef, s))"

definition hang :: "('e, 's, 'a) prog" where
  "hang = (\<lambda>s. (Hang, s))"

definition gets :: "('s \<Rightarrow> 'a) \<Rightarrow> ('e, 's, 'a) prog" where
  "gets f = (\<lambda>s. (Ret (f s), s))"

definition modify :: "('s \<Rightarrow> 's) \<Rightarrow> ('e, 's, unit) prog" where
  "modify f = (\<lambda>s. (Ret (), f s))"

definition bnd :: "('e, 's, 'a) prog \<Rightarrow> ('a \<Rightarrow> ('e, 's, 'b) prog) \<Rightarrow> ('e, 's, 'b) prog" where
  "bnd m f = (\<lambda>s. case m s of
     (Ret a, s') \<Rightarrow> f a s'
   | (Throw e, s') \<Rightarrow> (Throw e, s')
   | (Undef, s') \<Rightarrow> (Undef, s')
   | (Hang, s') \<Rightarrow> (Hang, s'))"

text \<open>Statement sequencing: the value of the first statement is dropped.\<close>

definition thn :: "('e, 's, 'a) prog \<Rightarrow> ('e, 's, 'b) prog \<Rightarrow> ('e, 's, 'b) prog" where
  "thn m n = bnd m (\<lambda>_. n)"

text \<open>A library call that may throw, used as an expression.\<close>

fun of_sum :: "'e + 'a \<Rightarrow> ('e, 's, 'a) prog" where
  "of_sum (Inl e) = throw e"
| "of_sum (Inr a) = ret a"

text \<open>A range-based loop over a vector.\<close>

fun for_each :: "('x \<Rightarrow> ('e, 's, unit) prog) \<Rightarrow> 'x list \<Rightarrow> ('e, 's, unit) prog" where
  "for_each f [] = ret ()"
| "for_each f (x # xs) = thn (f x) (for_each f xs)"

lemma run_simps [prog_simps]:
  "ret a s = (Ret a, s)"
  "throw e s = (Throw e, s)"
  "undef s = (Undef, s)"
  "hang s = (Hang, s)"
  "gets g s = (Ret (g s), s)"
  "modify h s = (Ret (), h s)"
  by (simp_all add: ret_def throw_def undef_def hang_def gets_def modify_def)

lemma run_bnd [prog_simps]:
  "m s = (Ret a, s') \<Longrightarrow> bnd m f s = f a s'"
  "m s = (Throw e, s') \<Longrightarrow> bnd m f s = (Throw e, s')"
  "m s = (Undef, s') \<Longrightarrow> bnd m f s = (Undef, s')"
  "m s = (Hang, s') \<Longrightarrow> bnd m f s = (Hang, s')"
  by (simp_all add: bnd_def)

lemma run_thn [prog_simps]:
  "m s = (Ret a, s') \<Longrightarrow> thn m n s = n s'"
  "m s = (Throw e, s') \<Longrightarrow> thn m n s = (Throw e, s')"
  "m s = (Undef, s') \<Longrightarrow> thn m n s = (Undef, s')"
  "m s = (Hang, s') \<Longrightarrow> thn m n s = (Hang, s')"
  by (simp_all add: thn_def bnd_def)

text \<open>Run through a chain whose first statement is closed under the equations above.\<close>

lemma run_prims [prog_simps]:
  "bnd (ret a) f s = f a s"
  "bnd (throw e) f s = (Throw e, s)"
  "bnd undef f s = (Undef, s)"
  "bnd (gets g) f s = f (g s) s"
  "thn (ret a) n s = n s"
  "thn (throw e) n s = (Throw e, s)"
  "thn undef n s = (Undef, s)"
  "thn (modify h) n s = n (h s)"
  by (simp_all add: prog_simps)

lemma bnd_assoc: "bnd (bnd m f) g = bnd m (\<lambda>a. bnd (f a) g)"
  by (rule ext) (simp add: bnd_def split: prod.split outcome.split)

lemma bnd_if: "bnd (if b then m else n) f = (if b then bnd m f else bnd n f)"
  by simp

section \<open>Refinement of programs\<close>

text \<open>
  \<open>refines ok \<alpha> m M\<close>: from every state that satisfies \<open>ok\<close>, the program \<open>m\<close> ends as \<open>M\<close>
  ends on the abstract state, in a state that satisfies \<open>ok\<close> again and abstracts to the one
  \<open>M\<close> reaches.
\<close>

definition refines ::
  "('c \<Rightarrow> bool) \<Rightarrow> ('c \<Rightarrow> 'a) \<Rightarrow> ('e, 'c, 'r) prog \<Rightarrow> ('e, 'a, 'r) prog \<Rightarrow> bool" where
  "refines ok \<alpha> m M \<longleftrightarrow>
     (\<forall>s. ok s \<longrightarrow> (\<exists>s'. m s = (fst (M (\<alpha> s)), s') \<and> ok s' \<and> \<alpha> s' = snd (M (\<alpha> s))))"

lemma refinesI:
  "(\<And>s. ok s \<Longrightarrow> \<exists>s'. m s = (fst (M (\<alpha> s)), s') \<and> ok s' \<and> \<alpha> s' = snd (M (\<alpha> s))) \<Longrightarrow>
   refines ok \<alpha> m M"
  by (simp add: refines_def)

lemma refinesE:
  assumes "refines ok \<alpha> m M" and "ok s"
  obtains s' where "m s = (fst (M (\<alpha> s)), s')" and "ok s'" and "\<alpha> s' = snd (M (\<alpha> s))"
  using assms by (auto simp: refines_def)

lemma refines_pure [refine_intros]:
  "refines ok \<alpha> (ret a) (ret a)"
  "refines ok \<alpha> (throw e) (throw e)"
  "refines ok \<alpha> undef undef"
  "refines ok \<alpha> hang hang"
  by (auto simp: refines_def prog_simps)

lemma refines_of_sum [refine_intros]: "refines ok \<alpha> (of_sum x) (of_sum x)"
  by (cases x) (simp_all add: refine_intros)

lemma refines_bnd [refine_intros]:
  assumes m: "refines ok \<alpha> m M" and f: "\<And>a. refines ok \<alpha> (f a) (F a)"
  shows "refines ok \<alpha> (bnd m f) (bnd M F)"
proof (rule refinesI)
  fix s assume "ok s"
  with m obtain s1 where m1: "m s = (fst (M (\<alpha> s)), s1)" "ok s1" "\<alpha> s1 = snd (M (\<alpha> s))"
    by (rule refinesE)
  show "\<exists>s'. bnd m f s = (fst (bnd M F (\<alpha> s)), s') \<and> ok s' \<and> \<alpha> s' = snd (bnd M F (\<alpha> s))"
  proof (cases "M (\<alpha> s)")
    case (Pair r t)
    show ?thesis
    proof (cases r)
      case (Ret a)
      from f [of a] \<open>ok s1\<close> show ?thesis
        by (rule refinesE) (use m1 Pair Ret in \<open>auto simp: bnd_def\<close>)
    qed (use m1 Pair in \<open>auto simp: bnd_def\<close>)
  qed
qed

lemma refines_thn [refine_intros]:
  "refines ok \<alpha> m M \<Longrightarrow> refines ok \<alpha> n N \<Longrightarrow> refines ok \<alpha> (thn m n) (thn M N)"
  unfolding thn_def by (rule refines_bnd)

lemma refines_if [refine_intros]:
  "(b \<Longrightarrow> refines ok \<alpha> m M) \<Longrightarrow> (\<not> b \<Longrightarrow> refines ok \<alpha> n N) \<Longrightarrow>
   refines ok \<alpha> (if b then m else n) (if b then M else N)"
  by simp

lemma refines_run:
  assumes "refines ok \<alpha> m M" and "ok s" and "M (\<alpha> s) = (r, t)"
  shows "\<exists>s'. m s = (r, s') \<and> ok s' \<and> \<alpha> s' = t"
  using assms by (auto elim!: refinesE)

section \<open>Lists\<close>

lemma length_dropWhile_less: "length (dropWhile p xs) < Suc (length xs)"
  by (simp add: length_dropWhile_le less_Suc_eq_le)

lemma takeWhile_all [simp]: "\<forall>x \<in> set xs. p x \<Longrightarrow> takeWhile p xs = xs"
  by simp

lemma takeWhile_stop [simp]: "\<forall>x \<in> set xs. p x \<Longrightarrow> \<not> p y \<Longrightarrow> takeWhile p (xs @ y # ys) = xs"
  by (induction xs) auto

lemma dropWhile_stop [simp]: "\<forall>x \<in> set xs. p x \<Longrightarrow> \<not> p y \<Longrightarrow> dropWhile p (xs @ y # ys) = y # ys"
  by (induction xs) auto

lemma takeWhile_neq [simp]: "y \<notin> set xs \<Longrightarrow> takeWhile (\<lambda>x. x \<noteq> y) (xs @ y # ys) = xs"
  by (rule takeWhile_stop) auto

lemma dropWhile_neq [simp]: "y \<notin> set xs \<Longrightarrow> dropWhile (\<lambda>x. x \<noteq> y) (xs @ y # ys) = y # ys"
  by (rule dropWhile_stop) auto

lemma mset_single_list: "mset xs = {#x#} \<longleftrightarrow> xs = [x]"
  by (cases xs) auto

lemma mset_map_singleton: "mset xs = mset [x] \<Longrightarrow> xs = [x]"
  by (simp add: mset_single_list)

lemma distinct_map_filter_eq:
  assumes "distinct (map k xs)" and "x \<in> set xs" and "k x = v"
  shows "filter (\<lambda>y. k y = v) xs = [x]"
  using assms
proof (induction xs)
  case Nil
  then show ?case by simp
next
  case (Cons y ys)
  show ?case
  proof (cases "y = x")
    case True
    then have "filter (\<lambda>y. k y = v) ys = []"
      using Cons.prems by (auto simp: filter_empty_conv image_iff)
    with True Cons.prems show ?thesis by simp
  next
    case False
    then have "x \<in> set ys" using Cons.prems by simp
    then have "k y \<noteq> v" using Cons.prems by auto
    with False Cons \<open>x \<in> set ys\<close> show ?thesis by simp
  qed
qed

end
