(* ===== verification/CxxStrings.thy ===== *)
theory CxxStrings
  imports Prelude
begin

text \<open>
  The parts of the C++ standard library the sources use on strings: \<open>std::stoi\<close>,
  \<open>std::to_string\<close>, \<open>string::find\<close>, \<open>std::getline\<close> with a delimiter, \<open>c_str\<close>.  A
  \<open>std::string\<close> is the list of its bytes.  \<open>int\<close> is the 32-bit signed integer of the
  Windows ABI the project is built for.
\<close>

section \<open>Machine integers\<close>

definition INT_MIN :: int where "INT_MIN = - 2147483648"
definition INT_MAX :: int where "INT_MAX = 2147483647"

definition fits_int :: "int \<Rightarrow> bool" where
  "fits_int n \<longleftrightarrow> INT_MIN \<le> n \<and> n \<le> INT_MAX"

text \<open>Signed overflow of \<open>+\<close> is undefined behaviour.\<close>

definition int_add :: "int \<Rightarrow> int \<Rightarrow> ('e, 's, int) prog" where
  "int_add a b = (if fits_int (a + b) then ret (a + b) else undef)"

section \<open>Characters\<close>

definition is_digit :: "char \<Rightarrow> bool" where
  "is_digit c \<longleftrightarrow> 48 \<le> (of_char c :: nat) \<and> (of_char c :: nat) \<le> 57"

definition is_space :: "char \<Rightarrow> bool" where
  "is_space c \<longleftrightarrow> c = CHR '' '' \<or> 9 \<le> (of_char c :: nat) \<and> (of_char c :: nat) \<le> 13"

definition digit_val :: "char \<Rightarrow> nat" where
  "digit_val c = of_char c - 48"

definition digit_char :: "nat \<Rightarrow> char" where
  "digit_char d = char_of (48 + d)"

abbreviation quote :: char where
  "quote \<equiv> CHR 0x27"

lemma is_digit_digit_char [simp]: "d < 10 \<Longrightarrow> is_digit (digit_char d)"
  by (simp add: is_digit_def digit_char_def take_bit_eq_mod)

lemma digit_val_digit_char [simp]: "d < 10 \<Longrightarrow> digit_val (digit_char d) = d"
  by (simp add: digit_val_def digit_char_def take_bit_eq_mod)

lemma digit_char_inject: "a < 10 \<Longrightarrow> b < 10 \<Longrightarrow> digit_char a = digit_char b \<longleftrightarrow> a = b"
  by (metis digit_val_digit_char)

lemma not_digit [simp]:
  "\<not> is_digit (CHR ''-'')" "\<not> is_digit (CHR ''+'')" "\<not> is_digit (CHR '' '')"
  "\<not> is_digit quote" "\<not> is_digit (CHR '';'')" "\<not> is_digit (CHR '','')"
  "\<not> is_digit (CHR '')'')" "\<not> is_digit (CHR ''|'')" "\<not> is_digit (CHR ''@'')"
  "\<not> is_digit (CHR 0x00)"
  by (simp_all add: is_digit_def)

section \<open>Decimal numerals\<close>

definition dec_val :: "string \<Rightarrow> nat" where
  "dec_val ds = foldl (\<lambda>v d. 10 * v + digit_val d) 0 ds"

fun dec_digits :: "nat \<Rightarrow> string" where
  "dec_digits n = (if n < 10 then [digit_char n] else dec_digits (n div 10) @ [digit_char (n mod 10)])"

declare dec_digits.simps [simp del]

lemma dec_val_snoc: "dec_val (ds @ [d]) = 10 * dec_val ds + digit_val d"
  by (simp add: dec_val_def)

lemma dec_digits_nonempty [simp]: "dec_digits n \<noteq> []"
  by (subst dec_digits.simps) simp

lemma dec_digits_all: "\<forall>c \<in> set (dec_digits n). is_digit c"
proof (induction n rule: dec_digits.induct)
  case (1 n)
  then show ?case
    by (cases "n < 10") (auto simp: dec_digits.simps [of n])
qed

lemma dec_val_dec_digits [simp]: "dec_val (dec_digits n) = n"
proof (induction n rule: dec_digits.induct)
  case (1 n)
  show ?case
  proof (cases "n < 10")
    case True
    then show ?thesis by (subst dec_digits.simps) (simp add: dec_val_def)
  next
    case False
    with 1 show ?thesis by (subst dec_digits.simps) (simp add: dec_val_snoc)
  qed
qed

text \<open>\<open>std::to_string(int)\<close>.\<close>

definition to_string :: "int \<Rightarrow> string" where
  "to_string n = (if n < 0 then CHR ''-'' # dec_digits (nat (- n)) else dec_digits (nat n))"

lemma to_string_nonempty [simp]: "to_string n \<noteq> []"
  by (simp add: to_string_def)

lemma to_string_chars: "c \<in> set (to_string n) \<Longrightarrow> is_digit c \<or> c = CHR ''-''"
  using dec_digits_all by (auto simp: to_string_def split: if_splits)

lemma to_string_inject [simp]: "to_string m = to_string n \<longleftrightarrow> m = n"
proof
  have neg: "to_string a \<noteq> to_string b" if "a < 0" "0 \<le> b" for a b
  proof
    assume "to_string a = to_string b"
    with that have "CHR ''-'' \<in> set (dec_digits (nat b))"
      by (metis list.set_intros(1) not_less to_string_def)
    with dec_digits_all [of "nat b"] show False by auto
  qed
  assume eq: "to_string m = to_string n"
  have dig: "dec_digits a = dec_digits b \<Longrightarrow> a = b" for a b
    by (metis dec_val_dec_digits)
  from eq neg [of m n] neg [of n m] show "m = n"
    by (auto simp: to_string_def dest!: dig split: if_splits)
qed simp

text \<open>
  \<open>std::stoi\<close> (base 10): leading white space, an optional sign, the longest run of digits;
  what follows the digits is ignored.  No digit is \<open>std::invalid_argument\<close>, a value that
  \<open>int\<close> cannot hold is \<open>std::out_of_range\<close>.
\<close>

datatype std_exn = Invalid_argument | Out_of_range

definition stoi :: "string \<Rightarrow> std_exn + int" where
  "stoi str =
    (let s = dropWhile is_space str;
         neg = (take 1 s = ''-'');
         t = (if take 1 s = ''-'' \<or> take 1 s = ''+'' then drop 1 s else s);
         ds = takeWhile is_digit t;
         v = (if neg then - int (dec_val ds) else int (dec_val ds))
     in if ds = [] then Inl Invalid_argument
        else if fits_int v then Inr v else Inl Out_of_range)"

lemma digit_not_space [simp]: "is_digit c \<Longrightarrow> \<not> is_space c"
  by (auto simp: is_digit_def is_space_def)

lemma digit_not_sign: "is_digit c \<Longrightarrow> c \<noteq> CHR ''-'' \<and> c \<noteq> CHR ''+''"
  by auto

lemma stoi_digits:
  assumes "ds \<noteq> []" and "\<forall>c \<in> set ds. is_digit c"
  shows "stoi ds = (if int (dec_val ds) \<le> INT_MAX then Inr (int (dec_val ds)) else Inl Out_of_range)"
proof -
  obtain c cs where ds: "ds = c # cs" using assms(1) by (cases ds) auto
  have "dropWhile is_space ds = ds" "take 1 ds \<noteq> ''-''" "take 1 ds \<noteq> ''+''"
    using assms(2) by (auto simp: ds)
  then show ?thesis
    using assms by (simp add: stoi_def fits_int_def INT_MIN_def Let_def)
qed

theorem stoi_to_string:
  assumes "fits_int n"
  shows "stoi (to_string n) = Inr n"
proof (cases "n < 0")
  case True
  with assms show ?thesis
    by (simp add: stoi_def to_string_def Let_def is_space_def dec_digits_all)
next
  case False
  with assms show ?thesis
    by (simp add: stoi_digits to_string_def dec_digits_all fits_int_def)
qed

section \<open>Searching and splitting\<close>

text \<open>\<open>s.find(p) != string::npos\<close>.\<close>

fun contains :: "string \<Rightarrow> string \<Rightarrow> bool" where
  "contains p [] \<longleftrightarrow> p = []"
| "contains p (c # s) \<longleftrightarrow> take (length p) (c # s) = p \<or> contains p s"

lemma contains_iff: "contains p s \<longleftrightarrow> (\<exists>a b. s = a @ p @ b)"
proof (induction s)
  case Nil
  then show ?case by simp
next
  case (Cons c s)
  have "take (length p) (c # s) = p \<longleftrightarrow> (\<exists>b. c # s = p @ b)"
    by (metis append_eq_conv_conj append_take_drop_id)
  moreover have "(\<exists>a b. c # s = a @ p @ b) \<longleftrightarrow> (\<exists>b. c # s = p @ b) \<or> (\<exists>a b. s = a @ p @ b)"
    by (metis append.left_neutral append_Cons list.sel(3) neq_Nil_conv)
  ultimately show ?case using Cons by simp
qed

lemma contains_char [simp]: "contains [c] s \<longleftrightarrow> c \<in> set s"
  by (auto simp: contains_iff in_set_conv_decomp)

lemma contains_set: "contains p s \<Longrightarrow> set p \<subseteq> set s"
  by (auto simp: contains_iff)

lemma contains_append_left: "contains p t \<Longrightarrow> contains p (s @ t)"
  by (metis append_assoc contains_iff)

lemma contains_append_right: "contains p s \<Longrightarrow> contains p (s @ t)"
  unfolding contains_iff by (metis append.assoc)

text \<open>
  The loop \<open>while (getline(ss, item, ch)) args.push_back(item)\<close>: an item ends at the
  delimiter or at the end of the stream; a stream that is exhausted gives no further item.
\<close>

function getline_all :: "string \<Rightarrow> char \<Rightarrow> string list" where
  "getline_all [] ch = []"
| "getline_all (c # s) ch =
     takeWhile (\<lambda>x. x \<noteq> ch) (c # s) # getline_all (drop 1 (dropWhile (\<lambda>x. x \<noteq> ch) (c # s))) ch"
  by pat_completeness auto
termination
  by (relation "measure (\<lambda>(s, ch). length s)")
     (auto simp: length_dropWhile_le less_Suc_eq_le le_SucI diff_le_self intro: le_trans [OF diff_le_self])

declare getline_all.simps(2) [simp del]

lemma getline_all_item:
  "ch \<notin> set a \<Longrightarrow> getline_all (a @ ch # s) ch = a # getline_all s ch"
proof -
  assume a: "ch \<notin> set a"
  obtain c t where ct: "a @ ch # s = c # t" by (cases a) auto
  show ?thesis
    unfolding ct getline_all.simps(2) unfolding ct [symmetric]
    using a by simp
qed

lemma getline_all_items:
  "\<forall>a \<in> set as. ch \<notin> set a \<Longrightarrow> getline_all (concat (map (\<lambda>a. a @ [ch]) as) @ s) ch = as @ getline_all s ch"
  by (induction as) (auto simp: getline_all_item)

lemma getline_all_no_delim: "a \<in> set (getline_all s ch) \<Longrightarrow> ch \<notin> set a"
proof (induction s ch rule: getline_all.induct)
  case (1 ch)
  then show ?case by simp
next
  case (2 c s ch)
  then show ?case by (auto simp: getline_all.simps(2) dest: set_takeWhileD)
qed

lemma getline_all_infix: "a \<in> set (getline_all s ch) \<Longrightarrow> \<exists>p q. s = p @ a @ q"
proof (induction s ch rule: getline_all.induct)
  case (1 ch)
  then show ?case by simp
next
  case (2 c s ch)
  let ?r = "dropWhile (\<lambda>x. x \<noteq> ch) (c # s)"
  consider (now) "a = takeWhile (\<lambda>x. x \<noteq> ch) (c # s)" | (later) "a \<in> set (getline_all (drop 1 ?r) ch)"
    using "2.prems" by (auto simp: getline_all.simps(2))
  then show ?case
  proof cases
    case now
    then have "c # s = [] @ a @ ?r" by simp
    then show ?thesis by blast
  next
    case later
    with "2.IH" obtain p q where pq: "drop 1 ?r = p @ a @ q" by blast
    have "c # s = (takeWhile (\<lambda>x. x \<noteq> ch) (c # s) @ take 1 ?r) @ drop 1 ?r"
      by (metis append.assoc append_take_drop_id takeWhile_dropWhile_id)
    then show ?thesis unfolding pq by (metis append.assoc)
  qed
qed

text \<open>\<open>c_str()\<close> read as a C string ends at the first zero byte.\<close>

definition c_str :: "string \<Rightarrow> string" where
  "c_str s = takeWhile (\<lambda>c. c \<noteq> CHR 0x00) s"

lemma c_str_id: "CHR 0x00 \<notin> set s \<Longrightarrow> c_str s = s"
  unfolding c_str_def by (auto intro: takeWhile_all)

end
