(* ===== verification/Sql.thy ===== *)
theory Sql
  imports CxxStrings
begin

text \<open>
  The SQL the sources speak.  Every component of the server builds the text of a statement
  and hands it to SQLite, whose code is not part of the repository.  This theory fixes the
  fragment of the SQL language the sources use, from the text of a statement to its effect on
  the tables: a lexer and a parser (\<open>parse_sql\<close>) and the meaning of a parsed statement
  (\<open>exec\<close>) on a store of typed rows.  Both are partial: a text outside the fragment (an
  unknown name, a comment, a doubled quote, an ill-typed comparison) gives \<open>None\<close>, and
  nothing is assumed of it later.

  The tables, their column types and keys are those of the \<open>CREATE TABLE\<close> texts of
  \<open>Database.h\<close>.  Foreign keys are declared there but not enforced, as is the default of
  SQLite.
\<close>

section \<open>Schema and store\<close>

datatype table = Users | PublicGroups | Users_In_Groups | Lists | UsersPackets

datatype column =
    C_username | C_password | C_code | C_name | C_admin | C_creation_date | C_number_of_users
  | C_group_code | C_status | C_item_name | C_quantity | C_remarks | C_message

datatype ty = T_INTEGER | T_TEXT

datatype sql_value = VInt int | VText string

type_synonym row = "sql_value list"

fun columns :: "table \<Rightarrow> (column \<times> ty) list" where
  "columns Users = [(C_username, T_TEXT), (C_password, T_TEXT)]"
| "columns PublicGroups =
     [(C_code, T_INTEGER), (C_name, T_TEXT), (C_admin, T_TEXT), (C_creation_date, T_TEXT),
      (C_number_of_users, T_INTEGER)]"
| "columns Users_In_Groups = [(C_group_code, T_INTEGER), (C_username, T_TEXT), (C_status, T_TEXT)]"
| "columns Lists =
     [(C_group_code, T_INTEGER), (C_item_name, T_TEXT), (C_quantity, T_INTEGER), (C_remarks, T_TEXT)]"
| "columns UsersPackets = [(C_code, T_INTEGER), (C_username, T_TEXT), (C_message, T_TEXT)]"

fun primary_key :: "table \<Rightarrow> column list" where
  "primary_key Users = [C_username]"
| "primary_key PublicGroups = [C_code]"
| "primary_key Users_In_Groups = [C_group_code, C_username]"
| "primary_key Lists = [C_group_code, C_item_name]"
| "primary_key UsersPackets = [C_code]"

fun autoincrement :: "table \<Rightarrow> bool" where
  "autoincrement PublicGroups = True"
| "autoincrement UsersPackets = True"
| "autoincrement _ = False"

text \<open>\<open>rows\<close> holds a table's rows in the order of their row ids; \<open>seq\<close> is the largest code an
  \<open>AUTOINCREMENT\<close> table has ever given out.\<close>

record store =
  created :: "table \<Rightarrow> bool"
  rows :: "table \<Rightarrow> row list"
  seq :: "table \<Rightarrow> int"

fun val_ty :: "sql_value \<Rightarrow> ty" where
  "val_ty (VInt _) = T_INTEGER"
| "val_ty (VText _) = T_TEXT"

definition cell :: "table \<Rightarrow> row \<Rightarrow> column \<Rightarrow> sql_value option" where
  "cell t r c = map_of (zip (map fst (columns t)) r) c"

definition key_of :: "table \<Rightarrow> row \<Rightarrow> sql_value option list" where
  "key_of t r = map (cell t r) (primary_key t)"

text \<open>A text SQLite reads from a C string holds no zero byte.\<close>

fun nul_free :: "sql_value \<Rightarrow> bool" where
  "nul_free (VInt _) = True"
| "nul_free (VText s) = (CHR 0x00 \<notin> set s)"

definition wt_row :: "table \<Rightarrow> row \<Rightarrow> bool" where
  "wt_row t r \<longleftrightarrow> map val_ty r = map snd (columns t) \<and> list_all nul_free r"

definition wf_table :: "table \<Rightarrow> row list \<Rightarrow> bool" where
  "wf_table t rs \<longleftrightarrow> (\<forall>r \<in> set rs. wt_row t r) \<and> distinct (map (key_of t) rs)"

definition int_cell :: "table \<Rightarrow> column \<Rightarrow> row \<Rightarrow> int" where
  "int_cell t c r = (case cell t r c of Some (VInt n) \<Rightarrow> n | _ \<Rightarrow> 0)"

definition wf_store :: "store \<Rightarrow> bool" where
  "wf_store st \<longleftrightarrow> (\<forall>t. wf_table t (rows st t)) \<and>
     (\<forall>t. 0 \<le> seq st t \<and> seq st t < 2 ^ 63) \<and>
     (\<forall>t. autoincrement t \<longrightarrow>
       (\<forall>r \<in> set (rows st t). 0 < int_cell t C_code r \<and> int_cell t C_code r \<le> seq st t))"

definition set_rows :: "table \<Rightarrow> row list \<Rightarrow> store \<Rightarrow> store" where
  "set_rows t rs st = st\<lparr>rows := (rows st)(t := rs)\<rparr>"

section \<open>Lexer\<close>

datatype keyword =
    K_SELECT | K_FROM | K_WHERE | K_AND | K_OR | K_ORDER | K_BY | K_DESC | K_LIMIT | K_INSERT
  | K_INTO | K_VALUES | K_UPDATE | K_SET | K_DELETE | K_CREATE | K_TABLE | K_IF | K_NOT
  | K_EXISTS | K_INTEGER | K_TEXT | K_PRIMARY | K_KEY | K_AUTOINCREMENT | K_NULL | K_FOREIGN
  | K_REFERENCES | K_DROP

datatype token =
    Kw keyword | Tab table | Col column | Str string | Num int
  | Star | Equals | Comma | LPar | RPar | Semi

text \<open>Keywords and names are compared without regard to case; they are kept in lower case.\<close>

definition vocabulary :: "(string \<times> token) list" where
  "vocabulary =
     [(''select'', Kw K_SELECT), (''from'', Kw K_FROM), (''where'', Kw K_WHERE), (''and'', Kw K_AND),
      (''or'', Kw K_OR), (''order'', Kw K_ORDER), (''by'', Kw K_BY), (''desc'', Kw K_DESC),
      (''limit'', Kw K_LIMIT), (''insert'', Kw K_INSERT), (''into'', Kw K_INTO),
      (''values'', Kw K_VALUES), (''update'', Kw K_UPDATE), (''set'', Kw K_SET),
      (''delete'', Kw K_DELETE), (''create'', Kw K_CREATE), (''table'', Kw K_TABLE),
      (''if'', Kw K_IF), (''not'', Kw K_NOT), (''exists'', Kw K_EXISTS),
      (''integer'', Kw K_INTEGER), (''text'', Kw K_TEXT), (''primary'', Kw K_PRIMARY),
      (''key'', Kw K_KEY), (''autoincrement'', Kw K_AUTOINCREMENT), (''null'', Kw K_NULL),
      (''foreign'', Kw K_FOREIGN), (''references'', Kw K_REFERENCES), (''drop'', Kw K_DROP),
      (''users'', Tab Users), (''publicgroups'', Tab PublicGroups),
      (''users_in_groups'', Tab Users_In_Groups), (''lists'', Tab Lists),
      (''userspackets'', Tab UsersPackets),
      (''username'', Col C_username), (''password'', Col C_password), (''code'', Col C_code),
      (''name'', Col C_name), (''admin'', Col C_admin), (''creation_date'', Col C_creation_date),
      (''number_of_users'', Col C_number_of_users), (''group_code'', Col C_group_code),
      (''status'', Col C_status), (''item_name'', Col C_item_name),
      (''quantity'', Col C_quantity), (''remarks'', Col C_remarks), (''message'', Col C_message)]"

definition punctuation :: "(char \<times> token) list" where
  "punctuation =
     [(CHR ''*'', Star), (CHR ''='', Equals), (CHR '','', Comma), (CHR ''('', LPar),
      (CHR '')'', RPar), (CHR '';'', Semi)]"

definition to_lower :: "char \<Rightarrow> char" where
  "to_lower c = (if 65 \<le> (of_char c :: nat) \<and> (of_char c :: nat) \<le> 90
                 then char_of (of_char c + 32 :: nat) else c)"

definition sql_space :: "char \<Rightarrow> bool" where
  "sql_space c \<longleftrightarrow> c \<in> {CHR '' '', CHR 0x09, CHR 0x0A, CHR 0x0C, CHR 0x0D}"

text \<open>The bytes that may start a name, and those that may continue a name or a number.\<close>

definition id_start :: "char \<Rightarrow> bool" where
  "id_start c \<longleftrightarrow> (65 \<le> (of_char c :: nat) \<and> (of_char c :: nat) \<le> 90) \<or>
     (97 \<le> (of_char c :: nat) \<and> (of_char c :: nat) \<le> 122) \<or> c = CHR ''_''"

definition id_char :: "char \<Rightarrow> bool" where
  "id_char c \<longleftrightarrow> id_start c \<or> is_digit c \<or> c = CHR ''$'' \<or> 128 \<le> (of_char c :: nat)"

text \<open>A run of digits is an integer literal if no name character and no point follows and
  the value fits SQLite's 64-bit integer.\<close>

definition num_ok :: "string \<Rightarrow> string \<Rightarrow> bool" where
  "num_ok ds rest \<longleftrightarrow>
     (case rest of [] \<Rightarrow> True | c # _ \<Rightarrow> \<not> id_char c \<and> c \<noteq> CHR ''.'') \<and> dec_val ds < 2 ^ 63"

definition cons_tok :: "token option \<Rightarrow> token list option \<Rightarrow> token list option" where
  "cons_tok t ts = (case t of None \<Rightarrow> None | Some x \<Rightarrow> map_option ((#) x) ts)"

function lex :: "string \<Rightarrow> token list option" where
  "lex [] = Some []"
| "lex (c # s) =
    (if sql_space c then lex s
     else if c = quote then
       (let u = takeWhile (\<lambda>x. x \<noteq> quote) s; r = dropWhile (\<lambda>x. x \<noteq> quote) s in
        if r = [] \<or> take 1 (drop 1 r) = [quote] then None else cons_tok (Some (Str u)) (lex (drop 1 r)))
     else if is_digit c then
       (let ds = takeWhile is_digit (c # s); r = dropWhile is_digit s in
        if num_ok ds r then cons_tok (Some (Num (int (dec_val ds)))) (lex r) else None)
     else if c = CHR ''-'' then
       (let ds = takeWhile is_digit s; r = dropWhile is_digit s in
        if ds \<noteq> [] \<and> num_ok ds r then cons_tok (Some (Num (- int (dec_val ds)))) (lex r) else None)
     else if id_start c then
       cons_tok (map_of vocabulary (map to_lower (takeWhile id_char (c # s))))
         (lex (dropWhile id_char s))
     else cons_tok (map_of punctuation c) (lex s))"
  by pat_completeness auto
termination
  by (relation "measure length")
     (auto simp: length_dropWhile_less intro: le_less_trans [OF diff_le_self])

declare lex.simps(2) [simp del]

section \<open>Parser\<close>

datatype operand = OCol column | OLit sql_value

text \<open>A condition is a disjunction of conjunctions of equations.\<close>

type_synonym condition = "(operand \<times> operand) list list"

definition always :: condition where
  "always = [[]]"

datatype stmt =
    Select "column list option" table condition
  | SelectMax column table
  | InsertRow table "sql_value list"
  | InsertAuto table "column list" "sql_value list"
  | Update table "(column \<times> sql_value) list" condition
  | Delete table condition
  | Create table
  | Drop table

fun literal :: "token \<Rightarrow> sql_value option" where
  "literal (Str s) = Some (VText s)"
| "literal (Num n) = Some (VInt n)"
| "literal _ = None"

fun parse_operand :: "token \<Rightarrow> operand option" where
  "parse_operand (Col c) = Some (OCol c)"
| "parse_operand (Str s) = Some (OLit (VText s))"
| "parse_operand (Num n) = Some (OLit (VInt n))"
| "parse_operand _ = None"

definition expect :: "token list \<Rightarrow> token list \<Rightarrow> token list option" where
  "expect pre ts = (if take (length pre) ts = pre then Some (drop (length pre) ts) else None)"

definition at_end :: "token list \<Rightarrow> bool" where
  "at_end ts \<longleftrightarrow> ts = [] \<or> ts = [Semi]"

text \<open>\<open>AND\<close> binds more tightly than \<open>OR\<close>.\<close>

fun parse_cond :: "token list \<Rightarrow> (condition \<times> token list) option" where
  "parse_cond (x # e # y # ts) =
    (case (parse_operand x, parse_operand y) of
       (Some a, Some b) \<Rightarrow>
         (if e \<noteq> Equals then None
          else
            (case ts of
               [] \<Rightarrow> Some ([[(a, b)]], [])
             | t # us \<Rightarrow>
                 (if t = Kw K_AND then
                    (case parse_cond us of
                       Some (c # cs, r) \<Rightarrow> Some (((a, b) # c) # cs, r)
                     | _ \<Rightarrow> None)
                  else if t = Kw K_OR then map_option (\<lambda>(cs, r). ([(a, b)] # cs, r)) (parse_cond us)
                  else Some ([[(a, b)]], ts))))
     | _ \<Rightarrow> None)"
| "parse_cond _ = None"

definition parse_where :: "token list \<Rightarrow> (condition \<times> token list) option" where
  "parse_where ts =
    (case ts of
       [] \<Rightarrow> Some (always, [])
     | t # us \<Rightarrow> (if t = Kw K_WHERE then parse_cond us else Some (always, ts)))"

fun parse_cols :: "token list \<Rightarrow> (column list \<times> token list) option" where
  "parse_cols [] = None"
| "parse_cols (t # ts) =
    (case t of
       Col c \<Rightarrow>
         (case ts of
            [] \<Rightarrow> Some ([c], [])
          | u # us \<Rightarrow>
              (if u = Comma then map_option (\<lambda>(cs, r). (c # cs, r)) (parse_cols us)
               else Some ([c], ts)))
     | _ \<Rightarrow> None)"

fun parse_values :: "token list \<Rightarrow> (sql_value list \<times> token list) option" where
  "parse_values [] = None"
| "parse_values (t # ts) =
    (case literal t of
       Some v \<Rightarrow>
         (case ts of
            [] \<Rightarrow> Some ([v], [])
          | u # us \<Rightarrow>
              (if u = Comma then map_option (\<lambda>(vs, r). (v # vs, r)) (parse_values us)
               else Some ([v], ts)))
     | None \<Rightarrow> None)"

fun parse_sets :: "token list \<Rightarrow> ((column \<times> sql_value) list \<times> token list) option" where
  "parse_sets (t # e # x # ts) =
    (case (t, literal x) of
       (Col c, Some v) \<Rightarrow>
         (if e \<noteq> Equals then None
          else
            (case ts of
               [] \<Rightarrow> Some ([(c, v)], [])
             | u # us \<Rightarrow>
                 (if u = Comma then map_option (\<lambda>(cs, r). ((c, v) # cs, r)) (parse_sets us)
                  else Some ([(c, v)], ts))))
     | _ \<Rightarrow> None)"
| "parse_sets _ = None"

definition parse_tab :: "token list \<Rightarrow> (table \<times> token list) option" where
  "parse_tab ts = (case ts of [] \<Rightarrow> None | x # us \<Rightarrow> (case x of Tab t \<Rightarrow> Some (t, us) | _ \<Rightarrow> None))"

definition parse_select :: "token list \<Rightarrow> stmt option" where
  "parse_select ts =
     Option.bind (if take 1 ts = [Star] then Some (None, drop 1 ts)
                  else map_option (\<lambda>(cs, r). (Some cs, r)) (parse_cols ts)) (\<lambda>(cs, r).
     Option.bind (expect [Kw K_FROM] r) (\<lambda>r.
     Option.bind (parse_tab r) (\<lambda>(t, r).
       if r \<noteq> [] \<and> hd r = Kw K_ORDER then
         (case cs of
            Some [c] \<Rightarrow>
              Option.bind (expect [Kw K_ORDER, Kw K_BY, Col c, Kw K_DESC, Kw K_LIMIT, Num 1] r) (\<lambda>r.
                if at_end r then Some (SelectMax c t) else None)
          | _ \<Rightarrow> None)
       else
         Option.bind (parse_where r) (\<lambda>(w, r).
           if at_end r then Some (Select cs t w) else None))))"

definition parse_insert :: "token list \<Rightarrow> stmt option" where
  "parse_insert ts =
     Option.bind (expect [Kw K_INTO] ts) (\<lambda>r.
     Option.bind (parse_tab r) (\<lambda>(t, r).
       if r \<noteq> [] \<and> hd r = LPar then
         Option.bind (parse_cols (tl r)) (\<lambda>(cs, r).
         Option.bind (expect [RPar, Kw K_VALUES, LPar] r) (\<lambda>r.
         Option.bind (parse_values r) (\<lambda>(vs, r).
         Option.bind (expect [RPar] r) (\<lambda>r.
           if at_end r then Some (InsertAuto t cs vs) else None))))
       else
         Option.bind (expect [Kw K_VALUES, LPar] r) (\<lambda>r.
         Option.bind (parse_values r) (\<lambda>(vs, r).
         Option.bind (expect [RPar] r) (\<lambda>r.
           if at_end r then Some (InsertRow t vs) else None)))))"

definition parse_update :: "token list \<Rightarrow> stmt option" where
  "parse_update ts =
     Option.bind (parse_tab ts) (\<lambda>(t, r).
     Option.bind (expect [Kw K_SET] r) (\<lambda>r.
     Option.bind (parse_sets r) (\<lambda>(sets, r).
     Option.bind (parse_where r) (\<lambda>(w, r).
       if at_end r then Some (Update t sets w) else None))))"

definition parse_delete :: "token list \<Rightarrow> stmt option" where
  "parse_delete ts =
     Option.bind (expect [Kw K_FROM] ts) (\<lambda>r.
     Option.bind (parse_tab r) (\<lambda>(t, r).
     Option.bind (parse_where r) (\<lambda>(w, r).
       if at_end r then Some (Delete t w) else None)))"

text \<open>The body of a \<open>CREATE TABLE\<close> is compared with the declaration of the schema, token by
  token.\<close>

fun schema_body :: "table \<Rightarrow> token list" where
  "schema_body Users =
     [Col C_username, Kw K_TEXT, Kw K_PRIMARY, Kw K_KEY, Kw K_NOT, Kw K_NULL, Comma,
      Col C_password, Kw K_TEXT, Kw K_NOT, Kw K_NULL]"
| "schema_body PublicGroups =
     [Col C_code, Kw K_INTEGER, Kw K_PRIMARY, Kw K_KEY, Kw K_AUTOINCREMENT, Comma,
      Col C_name, Kw K_TEXT, Kw K_NOT, Kw K_NULL, Comma,
      Col C_admin, Kw K_TEXT, Comma,
      Col C_creation_date, Kw K_TEXT, Kw K_NOT, Kw K_NULL, Comma,
      Col C_number_of_users, Kw K_INTEGER, Kw K_NOT, Kw K_NULL, Comma,
      Kw K_FOREIGN, Kw K_KEY, LPar, Col C_admin, RPar, Kw K_REFERENCES, Tab Users, LPar,
      Col C_username, RPar]"
| "schema_body Users_In_Groups =
     [Col C_group_code, Kw K_INTEGER, Kw K_NOT, Kw K_NULL, Comma,
      Col C_username, Kw K_TEXT, Kw K_NOT, Kw K_NULL, Comma,
      Col C_status, Kw K_TEXT, Kw K_NOT, Kw K_NULL, Comma,
      Kw K_PRIMARY, Kw K_KEY, LPar, Col C_group_code, Comma, Col C_username, RPar, Comma,
      Kw K_FOREIGN, Kw K_KEY, LPar, Col C_group_code, RPar, Kw K_REFERENCES, Tab PublicGroups,
      LPar, Col C_code, RPar, Comma,
      Kw K_FOREIGN, Kw K_KEY, LPar, Col C_username, RPar, Kw K_REFERENCES, Tab Users, LPar,
      Col C_username, RPar]"
| "schema_body Lists =
     [Col C_group_code, Kw K_INTEGER, Kw K_NOT, Kw K_NULL, Comma,
      Col C_item_name, Kw K_TEXT, Kw K_NOT, Kw K_NULL, Comma,
      Col C_quantity, Kw K_INTEGER, Comma,
      Col C_remarks, Kw K_TEXT, Comma,
      Kw K_PRIMARY, Kw K_KEY, LPar, Col C_group_code, Comma, Col C_item_name, RPar, Comma,
      Kw K_FOREIGN, Kw K_KEY, LPar, Col C_group_code, RPar, Kw K_REFERENCES, Tab PublicGroups,
      LPar, Col C_code, RPar]"
| "schema_body UsersPackets =
     [Col C_code, Kw K_INTEGER, Kw K_PRIMARY, Kw K_KEY, Kw K_AUTOINCREMENT, Comma,
      Col C_username, Kw K_TEXT, Kw K_NOT, Kw K_NULL, Comma,
      Col C_message, Kw K_TEXT, Kw K_NOT, Kw K_NULL, Comma,
      Kw K_FOREIGN, Kw K_KEY, LPar, Col C_username, RPar, Kw K_REFERENCES, Tab Users, LPar,
      Col C_username, RPar]"

definition parse_create :: "token list \<Rightarrow> stmt option" where
  "parse_create ts =
     Option.bind (expect [Kw K_TABLE, Kw K_IF, Kw K_NOT, Kw K_EXISTS] ts) (\<lambda>r.
     Option.bind (parse_tab r) (\<lambda>(t, r).
     Option.bind (expect ([LPar] @ schema_body t @ [RPar]) r) (\<lambda>r.
       if at_end r then Some (Create t) else None)))"

definition parse_drop :: "token list \<Rightarrow> stmt option" where
  "parse_drop ts =
     Option.bind (expect [Kw K_TABLE] ts) (\<lambda>r.
     Option.bind (parse_tab r) (\<lambda>(t, r).
       if at_end r then Some (Drop t) else None))"

definition parse_stmt :: "token list \<Rightarrow> stmt option" where
  "parse_stmt ts =
    (case ts of
       [] \<Rightarrow> None
     | t # us \<Rightarrow>
         (if t = Kw K_SELECT then parse_select us
          else if t = Kw K_INSERT then parse_insert us
          else if t = Kw K_UPDATE then parse_update us
          else if t = Kw K_DELETE then parse_delete us
          else if t = Kw K_CREATE then parse_create us
          else if t = Kw K_DROP then parse_drop us
          else None))"

definition parse_sql :: "string \<Rightarrow> stmt option" where
  "parse_sql txt = Option.bind (lex txt) parse_stmt"

section \<open>Meaning of a statement\<close>

fun operand_ty :: "table \<Rightarrow> operand \<Rightarrow> ty option" where
  "operand_ty t (OCol c) = map_of (columns t) c"
| "operand_ty t (OLit v) = Some (val_ty v)"

fun operand_val :: "table \<Rightarrow> row \<Rightarrow> operand \<Rightarrow> sql_value option" where
  "operand_val t r (OCol c) = cell t r c"
| "operand_val t r (OLit v) = Some v"

definition cond_ok :: "table \<Rightarrow> condition \<Rightarrow> bool" where
  "cond_ok t w \<longleftrightarrow>
     list_all (list_all (\<lambda>(a, b). operand_ty t a \<noteq> None \<and> operand_ty t a = operand_ty t b)) w"

definition holds :: "table \<Rightarrow> condition \<Rightarrow> row \<Rightarrow> bool" where
  "holds t w r \<longleftrightarrow> list_ex (list_all (\<lambda>(a, b). operand_val t r a = operand_val t r b)) w"

definition known_cols :: "table \<Rightarrow> column list \<Rightarrow> bool" where
  "known_cols t cs \<longleftrightarrow> set cs \<subseteq> set (map fst (columns t))"

definition project :: "table \<Rightarrow> column list option \<Rightarrow> row \<Rightarrow> row" where
  "project t cs r = (case cs of None \<Rightarrow> r | Some cs \<Rightarrow> map (\<lambda>c. the (cell t r c)) cs)"

definition assign :: "table \<Rightarrow> (column \<times> sql_value) list \<Rightarrow> row \<Rightarrow> row" where
  "assign t sets r =
     map (\<lambda>(c, v). case map_of sets c of None \<Rightarrow> v | Some w \<Rightarrow> w) (zip (map fst (columns t)) r)"

definition sets_ok :: "table \<Rightarrow> (column \<times> sql_value) list \<Rightarrow> bool" where
  "sets_ok t sets \<longleftrightarrow> distinct (map fst sets) \<and>
     list_all (\<lambda>(c, v). map_of (columns t) c = Some (val_ty v) \<and> nul_free v) sets \<and>
     \<not> (autoincrement t \<and> C_code \<in> fst ` set sets)"

text \<open>The next code of an \<open>AUTOINCREMENT\<close> key: one more than the largest ever used.\<close>

definition next_code :: "store \<Rightarrow> table \<Rightarrow> int" where
  "next_code st t = seq st t + 1"

definition add_row :: "table \<Rightarrow> row \<Rightarrow> store \<Rightarrow> store" where
  "add_row t r st = set_rows t (rows st t @ [r]) st"

text \<open>
  \<open>exec s st\<close>: the result rows and the new store, or \<open>None\<close> for a statement outside the
  fragment.  A statement that violates a key leaves the store as it is and has no rows, and so
  does an insertion when the largest code is used up.
\<close>

fun exec :: "stmt \<Rightarrow> store \<Rightarrow> (row list \<times> store) option" where
  "exec (Select cs t w) st =
    (if created st t \<and> cond_ok t w \<and> (case cs of None \<Rightarrow> True | Some cs \<Rightarrow> known_cols t cs)
     then Some (map (project t cs) (filter (holds t w) (rows st t)), st) else None)"
| "exec (SelectMax c t) st =
    (if created st t \<and> map_of (columns t) c = Some T_INTEGER
     then Some (if rows st t = [] then [] else [[VInt (Max (set (map (int_cell t c) (rows st t))))]], st)
     else None)"
| "exec (InsertRow t vs) st =
    (if created st t \<and> \<not> autoincrement t \<and> wt_row t vs
     then Some ([], if key_of t vs \<in> set (map (key_of t) (rows st t)) then st else add_row t vs st)
     else None)"
| "exec (InsertAuto t cs vs) st =
    (if created st t \<and> autoincrement t \<and> cs = tl (map fst (columns t)) \<and>
        wt_row t (VInt (next_code st t) # vs)
     then Some ([],
       if next_code st t < 2 ^ 63
       then (add_row t (VInt (next_code st t) # vs) st)\<lparr>seq := (seq st)(t := next_code st t)\<rparr>
       else st)
     else None)"
| "exec (Update t sets w) st =
    (if created st t \<and> cond_ok t w \<and> sets_ok t sets
     then
       (let rs = map (\<lambda>r. if holds t w r then assign t sets r else r) (rows st t)
        in Some ([], if distinct (map (key_of t) rs) then set_rows t rs st else st))
     else None)"
| "exec (Delete t w) st =
    (if created st t \<and> cond_ok t w
     then Some ([], set_rows t (filter (\<lambda>r. \<not> holds t w r) (rows st t)) st) else None)"
| "exec (Create t) st =
     Some ([], if created st t then st
               else (set_rows t [] st)\<lparr>created := (created st)(t := True)\<rparr>)"
| "exec (Drop t) st =
    (if created st t
     then Some ([], (set_rows t [] st)\<lparr>created := (created st)(t := False), seq := (seq st)(t := 0)\<rparr>)
     else None)"

text \<open>The text of a value, as \<open>sqlite3_column_text\<close> gives it.\<close>

fun show_value :: "sql_value \<Rightarrow> string" where
  "show_value (VInt n) = to_string n"
| "show_value (VText s) = s"

definition show_row :: "row \<Rightarrow> string list" where
  "show_row r = map show_value r"

end
