(* ===== verification/SqlFacts.thy ===== *)
theory SqlFacts
  imports Sql
begin

text \<open>
  How the fragment of SQL behaves: every statement keeps the store well formed, and the
  lexer reads the pieces a text is spliced from (a fixed text, a quoted argument, a run of
  digits, a printed number) one by one.  The collection \<open>lex_simps\<close> lets \<open>simp\<close> parse a
  text that holds variables.
\<close>

named_theorems lex_simps "equations that read one piece of a text"

section \<open>Statements keep the store well formed\<close>

lemma rows_set_rows [simp]: "rows (set_rows t rs st) t' = (if t' = t then rs else rows st t')"
  by (simp add: set_rows_def)

lemma created_set_rows [simp]: "created (set_rows t rs st) = created st"
  by (simp add: set_rows_def)

lemma seq_set_rows [simp]: "seq (set_rows t rs st) = seq st"
  by (simp add: set_rows_def)

lemma add_row_simps [simp]:
  "rows (add_row t r st) t' = (if t' = t then rows st t @ [r] else rows st t')"
  "created (add_row t r st) = created st" "seq (add_row t r st) = seq st"
  by (simp_all add: add_row_def)

lemma wt_row_length: "wt_row t r \<Longrightarrow> length r = length (columns t)"
  unfolding wt_row_def by (metis length_map)

lemma wf_table_filter: "wf_table t rs \<Longrightarrow> wf_table t (filter P rs)"
  by (auto simp: wf_table_def distinct_map_filter)

lemma wf_table_add:
  "wf_table t rs \<Longrightarrow> wt_row t r \<Longrightarrow> key_of t r \<notin> set (map (key_of t) rs) \<Longrightarrow> wf_table t (rs @ [r])"
  by (auto simp: wf_table_def)

lemma wt_row_nth:
  "wt_row t r \<longleftrightarrow> length r = length (columns t) \<and>
     (\<forall>i < length r. val_ty (r ! i) = snd (columns t ! i) \<and> nul_free (r ! i))"
  by (auto simp: wt_row_def list_all_length list_eq_iff_nth_eq)

lemma wt_row_assign:
  assumes "sets_ok t sets" and wt: "wt_row t r"
  shows "wt_row t (assign t sets r)"
proof -
  have len: "length r = length (columns t)" using wt by (rule wt_row_length)
  have dist: "distinct (map fst (columns t))" by (cases t) simp_all
  have "val_ty (assign t sets r ! i) = snd (columns t ! i) \<and> nul_free (assign t sets r ! i)"
    if i: "i < length r" for i
  proof -
    obtain c T where ct: "columns t ! i = (c, T)" by force
    then have "map_of (columns t) c = Some T"
      using dist i len by (metis map_of_is_SomeI nth_mem)
    then have "map_of sets c = Some w \<Longrightarrow> val_ty w = T \<and> nul_free w" for w
      using assms(1) map_of_SomeD [of sets c w] by (auto simp: sets_ok_def list_all_iff)
    then show ?thesis
      using i len ct wt by (auto simp: assign_def wt_row_nth split: option.split)
  qed
  then show ?thesis by (simp add: wt_row_nth assign_def len)
qed

lemma auto_key_fresh:
  assumes "autoincrement t" and "wf_store st"
  shows "key_of t (VInt (next_code st t) # vs) \<notin> set (map (key_of t) (rows st t))"
proof
  assume "key_of t (VInt (next_code st t) # vs) \<in> set (map (key_of t) (rows st t))"
  then obtain r where r: "r \<in> set (rows st t)" "key_of t (VInt (next_code st t) # vs) = key_of t r"
    by auto
  have "cell t (VInt (next_code st t) # vs) C_code = Some (VInt (next_code st t))"
    using assms(1) by (cases t) (auto simp: cell_def)
  then have "cell t r C_code = Some (VInt (next_code st t))"
    using r(2) assms(1) by (cases t) (auto simp: key_of_def)
  then have "int_cell t C_code r = seq st t + 1" by (simp add: int_cell_def next_code_def)
  with r(1) assms show False by (fastforce simp: wf_store_def)
qed

lemma int_cell_auto: "autoincrement t \<Longrightarrow> int_cell t C_code (VInt n # vs) = n"
  by (cases t) (auto simp: int_cell_def cell_def)

lemma int_cell_assign:
  assumes "sets_ok t sets" and "autoincrement t" and "wt_row t r"
  shows "int_cell t C_code (assign t sets r) = int_cell t C_code r"
proof -
  have "map_of sets C_code = None"
    using assms(1,2) by (auto simp: sets_ok_def map_of_eq_None_iff)
  moreover obtain v vs where "r = v # vs"
    using wt_row_length [OF assms(3)] assms(2) by (cases r; cases t) auto
  ultimately show ?thesis
    using assms(2) by (cases t) (auto simp: int_cell_def cell_def assign_def)
qed

text \<open>Only \<open>DROP TABLE\<close> lets an \<open>AUTOINCREMENT\<close> counter go back.\<close>

theorem exec_wf_store:
  assumes ex: "exec s st = Some (rs, st')" and wf: "wf_store st"
  shows "wf_store st'"
proof (cases s)
  case (InsertRow t vs)
  with assms show ?thesis
    by (auto simp: wf_store_def intro!: wf_table_add split: if_splits)
next
  case (InsertAuto t cs vs)
  let ?r = "VInt (next_code st t) # vs"
  have st': "autoincrement t" "wt_row t ?r"
    "st' = (if next_code st t < 2 ^ 63
       then (add_row t ?r st)\<lparr>seq := (seq st)(t := next_code st t)\<rparr> else st)"
    using ex InsertAuto by (auto split: if_splits)
  have "wf_table t (rows st t @ [?r])"
    using wf st' auto_key_fresh [OF st'(1) wf] by (intro wf_table_add) (auto simp: wf_store_def)
  moreover have "\<forall>r \<in> set (rows st t @ [?r]). 0 < int_cell t C_code r \<and> int_cell t C_code r \<le> next_code st t"
    using wf st'(1) int_cell_auto [OF st'(1)] by (fastforce simp: wf_store_def next_code_def)
  moreover have "0 \<le> next_code st t" using wf by (simp add: wf_store_def next_code_def)
  ultimately show ?thesis using wf st'(3) by (auto simp: wf_store_def)
next
  case (Update t sets w)
  then have ok: "sets_ok t sets" using ex by (auto split: if_splits)
  let ?rs = "map (\<lambda>r. if holds t w r then assign t sets r else r) (rows st t)"
  have wt: "\<forall>r \<in> set (rows st t). wt_row t r" using wf by (auto simp: wf_store_def wf_table_def)
  have "wf_table t ?rs" if "distinct (map (key_of t) ?rs)"
    using wt that wt_row_assign [OF ok] by (auto simp: wf_table_def)
  moreover have "autoincrement t \<longrightarrow>
      (\<forall>r \<in> set ?rs. 0 < int_cell t C_code r \<and> int_cell t C_code r \<le> seq st t)"
    using wf wt int_cell_assign [OF ok] by (auto simp: wf_store_def)
  ultimately show ?thesis
    using ex wf Update by (auto simp: Let_def wf_store_def split: if_splits)
next
  case (Delete t w)
  with assms show ?thesis
    by (auto simp: wf_store_def wf_table_filter split: if_splits)
qed (use assms in \<open>auto simp: wf_store_def wf_table_def split: if_splits\<close>)

section \<open>The types of the rows\<close>

text \<open>The types of the columns of a result, and the text of a value of a type.\<close>

fun stmt_types :: "stmt \<Rightarrow> ty list" where
  "stmt_types (Select None t w) = map snd (columns t)"
| "stmt_types (Select (Some cs) t w) = map (\<lambda>c. the (map_of (columns t) c)) cs"
| "stmt_types (SelectMax c t) = [T_INTEGER]"
| "stmt_types _ = []"

lemma cell_type:
  assumes "wt_row t r" and "c \<in> set (map fst (columns t))"
  shows "val_ty (the (cell t r c)) = the (map_of (columns t) c) \<and> nul_free (the (cell t r c))"
proof -
  have d: "distinct (map fst (columns t))" by (cases t) simp_all
  obtain i where i: "i < length (columns t)" "c = fst (columns t ! i)"
    using assms(2) by (auto simp: in_set_conv_nth)
  have len: "length r = length (columns t)" using assms(1) by (rule wt_row_length)
  have "cell t r c = Some (r ! i)"
    unfolding cell_def using i d len
    by (intro map_of_is_SomeI) (auto simp: in_set_conv_nth intro!: exI [of _ i])
  moreover have "map_of (columns t) c = Some (snd (columns t ! i))"
    using i d by (intro map_of_is_SomeI) (auto simp: in_set_conv_nth prod_eq_iff intro!: exI [of _ i])
  ultimately show ?thesis using assms(1) i len by (simp add: wt_row_nth)
qed

lemma exec_types:
  assumes ex: "exec s st = Some (rs, st')" and wf: "wf_store st" and r: "r \<in> set rs"
  shows "map val_ty r = stmt_types s \<and> list_all nul_free r"
proof (cases s)
  case (Select cs t w)
  with ex have rs: "rs = map (project t cs) (filter (holds t w) (rows st t))"
    and known: "case cs of None \<Rightarrow> True | Some cs \<Rightarrow> known_cols t cs"
    by (auto split: if_splits)
  then obtain r0 where r0: "r0 \<in> set (rows st t)" "r = project t cs r0" using r by auto
  have wt: "wt_row t r0" using wf r0(1) by (auto simp: wf_store_def wf_table_def)
  show ?thesis
  proof (cases cs)
    case None
    with Select r0 wt show ?thesis by (simp add: project_def wt_row_def)
  next
    case (Some cs')
    then have "c \<in> set cs' \<Longrightarrow> c \<in> set (map fst (columns t))" for c using known by (auto simp: known_cols_def)
    with Some Select r0 cell_type [OF wt] show ?thesis by (simp add: project_def list_all_iff)
  qed
qed (use ex r in \<open>auto simp: Let_def split: if_splits\<close>)

section \<open>Reading a text piece by piece\<close>

definition safe_text :: "string \<Rightarrow> bool" where
  "safe_text u \<longleftrightarrow> quote \<notin> set u \<and> CHR 0x00 \<notin> set u"

definition is_code :: "string \<Rightarrow> bool" where
  "is_code g \<longleftrightarrow> g \<noteq> [] \<and> (\<forall>c \<in> set g. is_digit c) \<and> dec_val g < 2 ^ 63"

definition code_val :: "string \<Rightarrow> int" where
  "code_val g = int (dec_val g)"

text \<open>What may follow a number.\<close>

definition ends_num :: "string \<Rightarrow> bool" where
  "ends_num r \<longleftrightarrow> (case r of [] \<Rightarrow> True | c # _ \<Rightarrow> \<not> id_char c \<and> c \<noteq> CHR ''.'')"

lemma digit_id_char: "is_digit c \<Longrightarrow> id_char c"
  by (simp add: id_char_def)

lemma digits_then:
  assumes "\<forall>c \<in> set ds. is_digit c" and "ends_num r"
  shows "takeWhile is_digit (ds @ r) = ds" and "dropWhile is_digit (ds @ r) = r"
proof -
  have "r = [] \<or> \<not> is_digit (hd r)"
    using assms(2) digit_id_char by (cases r) (auto simp: ends_num_def)
  then show "takeWhile is_digit (ds @ r) = ds" "dropWhile is_digit (ds @ r) = r"
    using assms(1) by (cases r; simp)+
qed

lemma digit_class:
  assumes "is_digit c"
  shows "\<not> sql_space c" "c \<noteq> quote" "c \<noteq> CHR ''-''"
  using assms by (auto simp: sql_space_def is_digit_def)

lemma lex_digits:
  assumes "ds \<noteq> []" and "\<forall>c \<in> set ds. is_digit c" and "dec_val ds < 2 ^ 63" and "ends_num r"
  shows "lex (ds @ r) = cons_tok (Some (Num (int (dec_val ds)))) (lex r)"
proof -
  obtain c cs where ds: "ds = c # cs" using assms(1) by (cases ds) auto
  have "takeWhile is_digit (c # cs @ r) = ds" "dropWhile is_digit (cs @ r) = r"
    using digits_then [of ds r] digits_then [of cs r] assms ds by auto
  moreover have "num_ok ds r" using assms by (simp add: num_ok_def ends_num_def)
  ultimately show ?thesis
    using assms(2) ds digit_class [of c] by (simp add: lex.simps(2) Let_def)
qed

lemma lex_code [lex_simps]:
  "is_code g \<Longrightarrow> ends_num r \<Longrightarrow> lex (g @ r) = cons_tok (Some (Num (code_val g))) (lex r)"
  using lex_digits [of g r] by (simp add: is_code_def code_val_def)

lemma lex_code_end: "is_code g \<Longrightarrow> lex g = Some [Num (code_val g)]"
  using lex_code [of g "[]"] by (simp add: ends_num_def cons_tok_def)

lemma lex_digit [lex_simps]:
  assumes "is_digit c" and "ends_num r"
  shows "lex (c # r) = cons_tok (Some (Num (int (digit_val c)))) (lex r)"
proof -
  have "digit_val c < 2 ^ 63" by (rule order.strict_trans [of _ 256]) (simp_all add: digit_val_def less_imp_diff_less)
  then show ?thesis
    using lex_digits [of "[c]" r] assms by (simp add: dec_val_def)
qed

lemma lex_to_string [lex_simps]:
  assumes "\<bar>n\<bar> < 2 ^ 63" and "ends_num r"
  shows "lex (to_string n @ r) = cons_tok (Some (Num n)) (lex r)"
proof (cases "n < 0")
  case True
  let ?ds = "dec_digits (nat (- n))"
  have "takeWhile is_digit (?ds @ r) = ?ds" "dropWhile is_digit (?ds @ r) = r"
    using digits_then [OF dec_digits_all assms(2)] by auto
  moreover have "num_ok ?ds r" using assms True by (simp add: num_ok_def ends_num_def nat_less_iff)
  ultimately show ?thesis
    using True by (simp add: to_string_def lex.simps(2) Let_def sql_space_def)
next
  case False
  then show ?thesis
    using assms lex_digits [of "dec_digits (nat n)" r] dec_digits_all
    by (simp add: to_string_def nat_less_iff)
qed

lemma lex_int [lex_simps]:
  "fits_int n \<Longrightarrow> ends_num r \<Longrightarrow> lex (to_string n @ r) = cons_tok (Some (Num n)) (lex r)"
  by (rule lex_to_string) (auto simp: fits_int_def INT_MIN_def INT_MAX_def abs_if)

lemma lex_quoted [lex_simps]:
  assumes "safe_text u" and "take 1 r \<noteq> [quote]"
  shows "lex (quote # u @ quote # r) = cons_tok (Some (Str u)) (lex r)"
  using assms by (simp add: lex.simps(2) safe_text_def Let_def sql_space_def)

lemma lex_space [lex_simps]: "sql_space c \<Longrightarrow> lex (c # s) = lex s"
  by (simp add: lex.simps(2))

lemma id_start_class:
  assumes "id_start c"
  shows "\<not> sql_space c" "c \<noteq> quote" "\<not> is_digit c" "c \<noteq> CHR ''-''"
  using assms by (auto simp: id_start_def sql_space_def is_digit_def)

lemma lex_name [lex_simps]:
  "id_start c \<Longrightarrow> lex (c # s) =
     cons_tok (map_of vocabulary (map to_lower (c # takeWhile id_char s))) (lex (dropWhile id_char s))"
  using id_start_class [of c] by (simp add: lex.simps(2) id_char_def)

lemma lex_punct [lex_simps]:
  "map_of punctuation c = Some t \<Longrightarrow> lex (c # s) = cons_tok (Some t) (lex s)"
  by (auto simp: lex.simps(2) punctuation_def sql_space_def is_digit_def id_start_def split: if_splits)

lemmas char_class = char_of_def bit_Suc_0_iff id_start_def id_char_def is_digit_def sql_space_def to_lower_def

lemmas parse_defs =
  parse_sql_def parse_stmt_def parse_select_def parse_insert_def parse_update_def
  parse_delete_def parse_create_def parse_drop_def parse_tab_def parse_where_def expect_def
  at_end_def cons_tok_def

lemmas text_simps = lex_simps char_class ends_num_def vocabulary_def punctuation_def

lemma safe_text_appendI: "safe_text u \<Longrightarrow> safe_text v \<Longrightarrow> safe_text (u @ v)"
  by (auto simp: safe_text_def)

lemma safe_no_nul: "safe_text u \<Longrightarrow> CHR 0x00 \<notin> set u"
  by (simp add: safe_text_def)

lemma is_code_safe: "is_code g \<Longrightarrow> CHR 0x00 \<notin> set g"
  by (auto simp: is_code_def)

lemma to_string_no_nul: "CHR 0x00 \<notin> set (to_string n)"
  by (auto dest: to_string_chars)

end
