(* ===== verification/Exceptions.thy ===== *)
theory Exceptions
  imports CxxStrings
begin

text \<open>
  The exception classes of \<open>Exception.h\<close>.  Each subclass of \<open>Exception\<close> is a constructor of
  \<open>exn\<close>; those whose constructor takes the throwing place carry it, with the empty string
  where the default constructor is used.  \<open>cxx_exn\<close> adds the exceptions of the standard
  library, which the sources do not catch as \<open>Exception\<close>.
\<close>

datatype exn =
    SystemException
  | SyntaxErrorException
  | SqlInjectionException string
  | InvalidCodeNumberException
  | WrongArgumentsNumberException
  | InvalidUsernameOrPasswordException
  | WrongUsernameOrPasswordException
  | UserNotAvilableException
  | WrongUsernameException
  | FailedCreateGroupException
  | UserIsOfflineException
  | NoSuchUserInTheGroupException string
  | PermissionIsDeniedException string
  | FullGroupException string

datatype cxx_exn = Own exn | Std std_exn

fun getErrorCode :: "exn \<Rightarrow> int" where
  "getErrorCode SystemException = 0"
| "getErrorCode SyntaxErrorException = 1"
| "getErrorCode (SqlInjectionException _) = 2"
| "getErrorCode InvalidCodeNumberException = 3"
| "getErrorCode WrongArgumentsNumberException = 4"
| "getErrorCode InvalidUsernameOrPasswordException = 5"
| "getErrorCode WrongUsernameOrPasswordException = 6"
| "getErrorCode UserNotAvilableException = 7"
| "getErrorCode WrongUsernameException = 8"
| "getErrorCode FailedCreateGroupException = 9"
| "getErrorCode UserIsOfflineException = 10"
| "getErrorCode (NoSuchUserInTheGroupException _) = 11"
| "getErrorCode (PermissionIsDeniedException _) = 12"
| "getErrorCode (FullGroupException _) = 13"

text \<open>\<open>where()\<close>: the path given to the constructor.\<close>

fun where_path :: "exn \<Rightarrow> string" where
  "where_path (SqlInjectionException p) = p"
| "where_path (NoSuchUserInTheGroupException p) = p"
| "where_path (PermissionIsDeniedException p) = p"
| "where_path (FullGroupException p) = p"
| "where_path _ = ''''"

text \<open>\<open>what()\<close>.  \<open>WrongUsernameOrPasswordException\<close> spells its own name without the s.\<close>

fun what_text :: "exn \<Rightarrow> string" where
  "what_text SystemException = ''SystemException''"
| "what_text SyntaxErrorException = ''SyntaxErrorException''"
| "what_text (SqlInjectionException _) = ''SqlInjectionException''"
| "what_text InvalidCodeNumberException = ''InvalidCodeNumberException''"
| "what_text WrongArgumentsNumberException = ''WrongArgumentsNumberException''"
| "what_text InvalidUsernameOrPasswordException = ''InvalidUsernameOrPasswordException''"
| "what_text WrongUsernameOrPasswordException = ''WrongUernameOrPasswordException''"
| "what_text UserNotAvilableException = ''UserNotAvilableException''"
| "what_text WrongUsernameException = ''WrongUsernameException''"
| "what_text FailedCreateGroupException = ''FailedCreateGroupException''"
| "what_text UserIsOfflineException = ''UserIsOfflineException''"
| "what_text (NoSuchUserInTheGroupException _) = ''NoSuchUserInTheGroupException''"
| "what_text (PermissionIsDeniedException _) = ''PermissionIsDeniedException''"
| "what_text (FullGroupException _) = ''FullGroupException''"

abbreviation throw_own :: "exn \<Rightarrow> (cxx_exn, 's, 'a) prog" where
  "throw_own e \<equiv> throw (Own e)"

text \<open>A call of a standard-library function that throws on its own account.\<close>

fun of_std :: "std_exn + 'a \<Rightarrow> (cxx_exn, 's, 'a) prog" where
  "of_std (Inl e) = throw (Std e)"
| "of_std (Inr a) = ret a"

lemma refines_of_std [refine_intros]: "refines ok \<alpha> (of_std x) (of_std x)"
  by (cases x) (simp_all add: refine_intros)

lemma refines_int_add [refine_intros]: "refines ok \<alpha> (int_add a b) (int_add a b)"
  by (simp add: int_add_def refine_intros)

end
