(* ===== verification/SqliteCodes.thy ===== *)
theory SqliteCodes
  imports "HOL-Library.Word"
begin

unbundle bit_operations_syntax

text \<open>
  The integer constants of \<open>sqlite3.h\<close>, the interface of the SQLite library the server is
  compiled against: result codes and extended result codes, flags, opcodes and parameters.
  Codes are C \<open>int\<close>s, sets of flags are 32-bit words.  The values of the groups are collected
  in lists, on which the facts are stated: flags are single bits, opcodes are distinct, an
  extended code keeps its primary code in the low byte.
\<close>

named_theorems code_defs
  "the values of the constants of the header"

section \<open>Version\<close>

definition SQLITE_VERSION :: string where
  "SQLITE_VERSION = ''3.8.10''"

definition SQLITE_VERSION_NUMBER :: int where [code_defs]:
  "SQLITE_VERSION_NUMBER = 3008010"

definition SQLITE_SOURCE_ID :: string where
  "SQLITE_SOURCE_ID = ''2015-04-23 13:37:05 b5e43602833249aa4b73337bf85b7f308450dab6''"

section \<open>Result codes\<close>

text \<open>Primary result codes.\<close>

definition SQLITE_OK :: int where [code_defs]: "SQLITE_OK = 0"
definition SQLITE_ERROR :: int where [code_defs]: "SQLITE_ERROR = 1"
definition SQLITE_INTERNAL :: int where [code_defs]: "SQLITE_INTERNAL = 2"
definition SQLITE_PERM :: int where [code_defs]: "SQLITE_PERM = 3"
definition SQLITE_ABORT :: int where [code_defs]: "SQLITE_ABORT = 4"
definition SQLITE_BUSY :: int where [code_defs]: "SQLITE_BUSY = 5"
definition SQLITE_LOCKED :: int where [code_defs]: "SQLITE_LOCKED = 6"
definition SQLITE_NOMEM :: int where [code_defs]: "SQLITE_NOMEM = 7"
definition SQLITE_READONLY :: int where [code_defs]: "SQLITE_READONLY = 8"
definition SQLITE_INTERRUPT :: int where [code_defs]: "SQLITE_INTERRUPT = 9"
definition SQLITE_IOERR :: int where [code_defs]: "SQLITE_IOERR = 10"
definition SQLITE_CORRUPT :: int where [code_defs]: "SQLITE_CORRUPT = 11"
definition SQLITE_NOTFOUND :: int where [code_defs]: "SQLITE_NOTFOUND = 12"
definition SQLITE_FULL :: int where [code_defs]: "SQLITE_FULL = 13"
definition SQLITE_CANTOPEN :: int where [code_defs]: "SQLITE_CANTOPEN = 14"
definition SQLITE_PROTOCOL :: int where [code_defs]: "SQLITE_PROTOCOL = 15"
definition SQLITE_EMPTY :: int where [code_defs]: "SQLITE_EMPTY = 16"
definition SQLITE_SCHEMA :: int where [code_defs]: "SQLITE_SCHEMA = 17"
definition SQLITE_TOOBIG :: int where [code_defs]: "SQLITE_TOOBIG = 18"
definition SQLITE_CONSTRAINT :: int where [code_defs]: "SQLITE_CONSTRAINT = 19"
definition SQLITE_MISMATCH :: int where [code_defs]: "SQLITE_MISMATCH = 20"
definition SQLITE_MISUSE :: int where [code_defs]: "SQLITE_MISUSE = 21"
definition SQLITE_NOLFS :: int where [code_defs]: "SQLITE_NOLFS = 22"
definition SQLITE_AUTH :: int where [code_defs]: "SQLITE_AUTH = 23"
definition SQLITE_FORMAT :: int where [code_defs]: "SQLITE_FORMAT = 24"
definition SQLITE_RANGE :: int where [code_defs]: "SQLITE_RANGE = 25"
definition SQLITE_NOTADB :: int where [code_defs]: "SQLITE_NOTADB = 26"
definition SQLITE_NOTICE :: int where [code_defs]: "SQLITE_NOTICE = 27"
definition SQLITE_WARNING :: int where [code_defs]: "SQLITE_WARNING = 28"
definition SQLITE_ROW :: int where [code_defs]: "SQLITE_ROW = 100"
definition SQLITE_DONE :: int where [code_defs]: "SQLITE_DONE = 101"

definition result_codes :: "int list" where [code_defs]:
  "result_codes =
     [SQLITE_OK, SQLITE_ERROR, SQLITE_INTERNAL, SQLITE_PERM, SQLITE_ABORT, SQLITE_BUSY,
      SQLITE_LOCKED, SQLITE_NOMEM, SQLITE_READONLY, SQLITE_INTERRUPT, SQLITE_IOERR,
      SQLITE_CORRUPT, SQLITE_NOTFOUND, SQLITE_FULL, SQLITE_CANTOPEN, SQLITE_PROTOCOL,
      SQLITE_EMPTY, SQLITE_SCHEMA, SQLITE_TOOBIG, SQLITE_CONSTRAINT, SQLITE_MISMATCH,
      SQLITE_MISUSE, SQLITE_NOLFS, SQLITE_AUTH, SQLITE_FORMAT, SQLITE_RANGE,
      SQLITE_NOTADB, SQLITE_NOTICE, SQLITE_WARNING, SQLITE_ROW, SQLITE_DONE]"

section \<open>Extended result codes\<close>

text \<open>Extended result codes: a primary code in the low byte and a number above it, \<open>(BASE | (n<<8))\<close>.\<close>

definition SQLITE_IOERR_READ :: int where [code_defs]: "SQLITE_IOERR_READ = SQLITE_IOERR OR push_bit 8 1"
definition SQLITE_IOERR_SHORT_READ :: int where [code_defs]: "SQLITE_IOERR_SHORT_READ = SQLITE_IOERR OR push_bit 8 2"
definition SQLITE_IOERR_WRITE :: int where [code_defs]: "SQLITE_IOERR_WRITE = SQLITE_IOERR OR push_bit 8 3"
definition SQLITE_IOERR_FSYNC :: int where [code_defs]: "SQLITE_IOERR_FSYNC = SQLITE_IOERR OR push_bit 8 4"
definition SQLITE_IOERR_DIR_FSYNC :: int where [code_defs]: "SQLITE_IOERR_DIR_FSYNC = SQLITE_IOERR OR push_bit 8 5"
definition SQLITE_IOERR_TRUNCATE :: int where [code_defs]: "SQLITE_IOERR_TRUNCATE = SQLITE_IOERR OR push_bit 8 6"
definition SQLITE_IOERR_FSTAT :: int where [code_defs]: "SQLITE_IOERR_FSTAT = SQLITE_IOERR OR push_bit 8 7"
definition SQLITE_IOERR_UNLOCK :: int where [code_defs]: "SQLITE_IOERR_UNLOCK = SQLITE_IOERR OR push_bit 8 8"
definition SQLITE_IOERR_RDLOCK :: int where [code_defs]: "SQLITE_IOERR_RDLOCK = SQLITE_IOERR OR push_bit 8 9"
definition SQLITE_IOERR_DELETE :: int where [code_defs]: "SQLITE_IOERR_DELETE = SQLITE_IOERR OR push_bit 8 10"
definition SQLITE_IOERR_BLOCKED :: int where [code_defs]: "SQLITE_IOERR_BLOCKED = SQLITE_IOERR OR push_bit 8 11"
definition SQLITE_IOERR_NOMEM :: int where [code_defs]: "SQLITE_IOERR_NOMEM = SQLITE_IOERR OR push_bit 8 12"
definition SQLITE_IOERR_ACCESS :: int where [code_defs]: "SQLITE_IOERR_ACCESS = SQLITE_IOERR OR push_bit 8 13"
definition SQLITE_IOERR_CHECKRESERVEDLOCK :: int where [code_defs]: "SQLITE_IOERR_CHECKRESERVEDLOCK = SQLITE_IOERR OR push_bit 8 14"
definition SQLITE_IOERR_LOCK :: int where [code_defs]: "SQLITE_IOERR_LOCK = SQLITE_IOERR OR push_bit 8 15"
definition SQLITE_IOERR_CLOSE :: int where [code_defs]: "SQLITE_IOERR_CLOSE = SQLITE_IOERR OR push_bit 8 16"
definition SQLITE_IOERR_DIR_CLOSE :: int where [code_defs]: "SQLITE_IOERR_DIR_CLOSE = SQLITE_IOERR OR push_bit 8 17"
definition SQLITE_IOERR_SHMOPEN :: int where [code_defs]: "SQLITE_IOERR_SHMOPEN = SQLITE_IOERR OR push_bit 8 18"
definition SQLITE_IOERR_SHMSIZE :: int where [code_defs]: "SQLITE_IOERR_SHMSIZE = SQLITE_IOERR OR push_bit 8 19"
definition SQLITE_IOERR_SHMLOCK :: int where [code_defs]: "SQLITE_IOERR_SHMLOCK = SQLITE_IOERR OR push_bit 8 20"
definition SQLITE_IOERR_SHMMAP :: int where [code_defs]: "SQLITE_IOERR_SHMMAP = SQLITE_IOERR OR push_bit 8 21"
definition SQLITE_IOERR_SEEK :: int where [code_defs]: "SQLITE_IOERR_SEEK = SQLITE_IOERR OR push_bit 8 22"
definition SQLITE_IOERR_DELETE_NOENT :: int where [code_defs]: "SQLITE_IOERR_DELETE_NOENT = SQLITE_IOERR OR push_bit 8 23"
definition SQLITE_IOERR_MMAP :: int where [code_defs]: "SQLITE_IOERR_MMAP = SQLITE_IOERR OR push_bit 8 24"
definition SQLITE_IOERR_GETTEMPPATH :: int where [code_defs]: "SQLITE_IOERR_GETTEMPPATH = SQLITE_IOERR OR push_bit 8 25"
definition SQLITE_IOERR_CONVPATH :: int where [code_defs]: "SQLITE_IOERR_CONVPATH = SQLITE_IOERR OR push_bit 8 26"
definition SQLITE_LOCKED_SHAREDCACHE :: int where [code_defs]: "SQLITE_LOCKED_SHAREDCACHE = SQLITE_LOCKED OR push_bit 8 1"
definition SQLITE_BUSY_RECOVERY :: int where [code_defs]: "SQLITE_BUSY_RECOVERY = SQLITE_BUSY OR push_bit 8 1"
definition SQLITE_BUSY_SNAPSHOT :: int where [code_defs]: "SQLITE_BUSY_SNAPSHOT = SQLITE_BUSY OR push_bit 8 2"
definition SQLITE_CANTOPEN_NOTEMPDIR :: int where [code_defs]: "SQLITE_CANTOPEN_NOTEMPDIR = SQLITE_CANTOPEN OR push_bit 8 1"
definition SQLITE_CANTOPEN_ISDIR :: int where [code_defs]: "SQLITE_CANTOPEN_ISDIR = SQLITE_CANTOPEN OR push_bit 8 2"
definition SQLITE_CANTOPEN_FULLPATH :: int where [code_defs]: "SQLITE_CANTOPEN_FULLPATH = SQLITE_CANTOPEN OR push_bit 8 3"
definition SQLITE_CANTOPEN_CONVPATH :: int where [code_defs]: "SQLITE_CANTOPEN_CONVPATH = SQLITE_CANTOPEN OR push_bit 8 4"
definition SQLITE_CORRUPT_VTAB :: int where [code_defs]: "SQLITE_CORRUPT_VTAB = SQLITE_CORRUPT OR push_bit 8 1"
definition SQLITE_READONLY_RECOVERY :: int where [code_defs]: "SQLITE_READONLY_RECOVERY = SQLITE_READONLY OR push_bit 8 1"
definition SQLITE_READONLY_CANTLOCK :: int where [code_defs]: "SQLITE_READONLY_CANTLOCK = SQLITE_READONLY OR push_bit 8 2"
definition SQLITE_READONLY_ROLLBACK :: int where [code_defs]: "SQLITE_READONLY_ROLLBACK = SQLITE_READONLY OR push_bit 8 3"
definition SQLITE_READONLY_DBMOVED :: int where [code_defs]: "SQLITE_READONLY_DBMOVED = SQLITE_READONLY OR push_bit 8 4"
definition SQLITE_ABORT_ROLLBACK :: int where [code_defs]: "SQLITE_ABORT_ROLLBACK = SQLITE_ABORT OR push_bit 8 2"
definition SQLITE_CONSTRAINT_CHECK :: int where [code_defs]: "SQLITE_CONSTRAINT_CHECK = SQLITE_CONSTRAINT OR push_bit 8 1"
definition SQLITE_CONSTRAINT_COMMITHOOK :: int where [code_defs]: "SQLITE_CONSTRAINT_COMMITHOOK = SQLITE_CONSTRAINT OR push_bit 8 2"
definition SQLITE_CONSTRAINT_FOREIGNKEY :: int where [code_defs]: "SQLITE_CONSTRAINT_FOREIGNKEY = SQLITE_CONSTRAINT OR push_bit 8 3"
definition SQLITE_CONSTRAINT_FUNCTION :: int where [code_defs]: "SQLITE_CONSTRAINT_FUNCTION = SQLITE_CONSTRAINT OR push_bit 8 4"
definition SQLITE_CONSTRAINT_NOTNULL :: int where [code_defs]: "SQLITE_CONSTRAINT_NOTNULL = SQLITE_CONSTRAINT OR push_bit 8 5"
definition SQLITE_CONSTRAINT_PRIMARYKEY :: int where [code_defs]: "SQLITE_CONSTRAINT_PRIMARYKEY = SQLITE_CONSTRAINT OR push_bit 8 6"
definition SQLITE_CONSTRAINT_TRIGGER :: int where [code_defs]: "SQLITE_CONSTRAINT_TRIGGER = SQLITE_CONSTRAINT OR push_bit 8 7"
definition SQLITE_CONSTRAINT_UNIQUE :: int where [code_defs]: "SQLITE_CONSTRAINT_UNIQUE = SQLITE_CONSTRAINT OR push_bit 8 8"
definition SQLITE_CONSTRAINT_VTAB :: int where [code_defs]: "SQLITE_CONSTRAINT_VTAB = SQLITE_CONSTRAINT OR push_bit 8 9"
definition SQLITE_CONSTRAINT_ROWID :: int where [code_defs]: "SQLITE_CONSTRAINT_ROWID = SQLITE_CONSTRAINT OR push_bit 8 10"
definition SQLITE_NOTICE_RECOVER_WAL :: int where [code_defs]: "SQLITE_NOTICE_RECOVER_WAL = SQLITE_NOTICE OR push_bit 8 1"
definition SQLITE_NOTICE_RECOVER_ROLLBACK :: int where [code_defs]: "SQLITE_NOTICE_RECOVER_ROLLBACK = SQLITE_NOTICE OR push_bit 8 2"
definition SQLITE_WARNING_AUTOINDEX :: int where [code_defs]: "SQLITE_WARNING_AUTOINDEX = SQLITE_WARNING OR push_bit 8 1"
definition SQLITE_AUTH_USER :: int where [code_defs]: "SQLITE_AUTH_USER = SQLITE_AUTH OR push_bit 8 1"

definition extended_result_codes :: "(int \<times> int) list" where [code_defs]:
  "extended_result_codes =
     [(SQLITE_IOERR_READ, SQLITE_IOERR),
      (SQLITE_IOERR_SHORT_READ, SQLITE_IOERR),
      (SQLITE_IOERR_WRITE, SQLITE_IOERR),
      (SQLITE_IOERR_FSYNC, SQLITE_IOERR),
      (SQLITE_IOERR_DIR_FSYNC, SQLITE_IOERR),
      (SQLITE_IOERR_TRUNCATE, SQLITE_IOERR),
      (SQLITE_IOERR_FSTAT, SQLITE_IOERR),
      (SQLITE_IOERR_UNLOCK, SQLITE_IOERR),
      (SQLITE_IOERR_RDLOCK, SQLITE_IOERR),
      (SQLITE_IOERR_DELETE, SQLITE_IOERR),
      (SQLITE_IOERR_BLOCKED, SQLITE_IOERR),
      (SQLITE_IOERR_NOMEM, SQLITE_IOERR),
      (SQLITE_IOERR_ACCESS, SQLITE_IOERR),
      (SQLITE_IOERR_CHECKRESERVEDLOCK, SQLITE_IOERR),
      (SQLITE_IOERR_LOCK, SQLITE_IOERR),
      (SQLITE_IOERR_CLOSE, SQLITE_IOERR),
      (SQLITE_IOERR_DIR_CLOSE, SQLITE_IOERR),
      (SQLITE_IOERR_SHMOPEN, SQLITE_IOERR),
      (SQLITE_IOERR_SHMSIZE, SQLITE_IOERR),
      (SQLITE_IOERR_SHMLOCK, SQLITE_IOERR),
      (SQLITE_IOERR_SHMMAP, SQLITE_IOERR),
      (SQLITE_IOERR_SEEK, SQLITE_IOERR),
      (SQLITE_IOERR_DELETE_NOENT, SQLITE_IOERR),
      (SQLITE_IOERR_MMAP, SQLITE_IOERR),
      (SQLITE_IOERR_GETTEMPPATH, SQLITE_IOERR),
      (SQLITE_IOERR_CONVPATH, SQLITE_IOERR),
      (SQLITE_LOCKED_SHAREDCACHE, SQLITE_LOCKED),
      (SQLITE_BUSY_RECOVERY, SQLITE_BUSY),
      (SQLITE_BUSY_SNAPSHOT, SQLITE_BUSY),
      (SQLITE_CANTOPEN_NOTEMPDIR, SQLITE_CANTOPEN),
      (SQLITE_CANTOPEN_ISDIR, SQLITE_CANTOPEN),
      (SQLITE_CANTOPEN_FULLPATH, SQLITE_CANTOPEN),
      (SQLITE_CANTOPEN_CONVPATH, SQLITE_CANTOPEN),
      (SQLITE_CORRUPT_VTAB, SQLITE_CORRUPT),
      (SQLITE_READONLY_RECOVERY, SQLITE_READONLY),
      (SQLITE_READONLY_CANTLOCK, SQLITE_READONLY),
      (SQLITE_READONLY_ROLLBACK, SQLITE_READONLY),
      (SQLITE_READONLY_DBMOVED, SQLITE_READONLY),
      (SQLITE_ABORT_ROLLBACK, SQLITE_ABORT),
      (SQLITE_CONSTRAINT_CHECK, SQLITE_CONSTRAINT),
      (SQLITE_CONSTRAINT_COMMITHOOK, SQLITE_CONSTRAINT),
      (SQLITE_CONSTRAINT_FOREIGNKEY, SQLITE_CONSTRAINT),
      (SQLITE_CONSTRAINT_FUNCTION, SQLITE_CONSTRAINT),
      (SQLITE_CONSTRAINT_NOTNULL, SQLITE_CONSTRAINT),
      (SQLITE_CONSTRAINT_PRIMARYKEY, SQLITE_CONSTRAINT),
      (SQLITE_CONSTRAINT_TRIGGER, SQLITE_CONSTRAINT),
      (SQLITE_CONSTRAINT_UNIQUE, SQLITE_CONSTRAINT),
      (SQLITE_CONSTRAINT_VTAB, SQLITE_CONSTRAINT),
      (SQLITE_CONSTRAINT_ROWID, SQLITE_CONSTRAINT),
      (SQLITE_NOTICE_RECOVER_WAL, SQLITE_NOTICE),
      (SQLITE_NOTICE_RECOVER_ROLLBACK, SQLITE_NOTICE),
      (SQLITE_WARNING_AUTOINDEX, SQLITE_WARNING),
      (SQLITE_AUTH_USER, SQLITE_AUTH)]"

section \<open>Flags of file open operations\<close>

text \<open>One bit each.\<close>

definition SQLITE_OPEN_READONLY :: "32 word" where [code_defs]: "SQLITE_OPEN_READONLY = 0x1"
definition SQLITE_OPEN_READWRITE :: "32 word" where [code_defs]: "SQLITE_OPEN_READWRITE = 0x2"
definition SQLITE_OPEN_CREATE :: "32 word" where [code_defs]: "SQLITE_OPEN_CREATE = 0x4"
definition SQLITE_OPEN_DELETEONCLOSE :: "32 word" where [code_defs]: "SQLITE_OPEN_DELETEONCLOSE = 0x8"
definition SQLITE_OPEN_EXCLUSIVE :: "32 word" where [code_defs]: "SQLITE_OPEN_EXCLUSIVE = 0x10"
definition SQLITE_OPEN_AUTOPROXY :: "32 word" where [code_defs]: "SQLITE_OPEN_AUTOPROXY = 0x20"
definition SQLITE_OPEN_URI :: "32 word" where [code_defs]: "SQLITE_OPEN_URI = 0x40"
definition SQLITE_OPEN_MEMORY :: "32 word" where [code_defs]: "SQLITE_OPEN_MEMORY = 0x80"
definition SQLITE_OPEN_MAIN_DB :: "32 word" where [code_defs]: "SQLITE_OPEN_MAIN_DB = 0x100"
definition SQLITE_OPEN_TEMP_DB :: "32 word" where [code_defs]: "SQLITE_OPEN_TEMP_DB = 0x200"
definition SQLITE_OPEN_TRANSIENT_DB :: "32 word" where [code_defs]: "SQLITE_OPEN_TRANSIENT_DB = 0x400"
definition SQLITE_OPEN_MAIN_JOURNAL :: "32 word" where [code_defs]: "SQLITE_OPEN_MAIN_JOURNAL = 0x800"
definition SQLITE_OPEN_TEMP_JOURNAL :: "32 word" where [code_defs]: "SQLITE_OPEN_TEMP_JOURNAL = 0x1000"
definition SQLITE_OPEN_SUBJOURNAL :: "32 word" where [code_defs]: "SQLITE_OPEN_SUBJOURNAL = 0x2000"
definition SQLITE_OPEN_MASTER_JOURNAL :: "32 word" where [code_defs]: "SQLITE_OPEN_MASTER_JOURNAL = 0x4000"
definition SQLITE_OPEN_NOMUTEX :: "32 word" where [code_defs]: "SQLITE_OPEN_NOMUTEX = 0x8000"
definition SQLITE_OPEN_FULLMUTEX :: "32 word" where [code_defs]: "SQLITE_OPEN_FULLMUTEX = 0x10000"
definition SQLITE_OPEN_SHAREDCACHE :: "32 word" where [code_defs]: "SQLITE_OPEN_SHAREDCACHE = 0x20000"
definition SQLITE_OPEN_PRIVATECACHE :: "32 word" where [code_defs]: "SQLITE_OPEN_PRIVATECACHE = 0x40000"
definition SQLITE_OPEN_WAL :: "32 word" where [code_defs]: "SQLITE_OPEN_WAL = 0x80000"

definition open_flags :: "32 word list" where [code_defs]:
  "open_flags =
     [SQLITE_OPEN_READONLY, SQLITE_OPEN_READWRITE, SQLITE_OPEN_CREATE,
      SQLITE_OPEN_DELETEONCLOSE, SQLITE_OPEN_EXCLUSIVE, SQLITE_OPEN_AUTOPROXY,
      SQLITE_OPEN_URI, SQLITE_OPEN_MEMORY, SQLITE_OPEN_MAIN_DB, SQLITE_OPEN_TEMP_DB,
      SQLITE_OPEN_TRANSIENT_DB, SQLITE_OPEN_MAIN_JOURNAL, SQLITE_OPEN_TEMP_JOURNAL,
      SQLITE_OPEN_SUBJOURNAL, SQLITE_OPEN_MASTER_JOURNAL, SQLITE_OPEN_NOMUTEX,
      SQLITE_OPEN_FULLMUTEX, SQLITE_OPEN_SHAREDCACHE, SQLITE_OPEN_PRIVATECACHE,
      SQLITE_OPEN_WAL]"

section \<open>Device characteristics\<close>

text \<open>One bit each.\<close>

definition SQLITE_IOCAP_ATOMIC :: "32 word" where [code_defs]: "SQLITE_IOCAP_ATOMIC = 0x1"
definition SQLITE_IOCAP_ATOMIC512 :: "32 word" where [code_defs]: "SQLITE_IOCAP_ATOMIC512 = 0x2"
definition SQLITE_IOCAP_ATOMIC1K :: "32 word" where [code_defs]: "SQLITE_IOCAP_ATOMIC1K = 0x4"
definition SQLITE_IOCAP_ATOMIC2K :: "32 word" where [code_defs]: "SQLITE_IOCAP_ATOMIC2K = 0x8"
definition SQLITE_IOCAP_ATOMIC4K :: "32 word" where [code_defs]: "SQLITE_IOCAP_ATOMIC4K = 0x10"
definition SQLITE_IOCAP_ATOMIC8K :: "32 word" where [code_defs]: "SQLITE_IOCAP_ATOMIC8K = 0x20"
definition SQLITE_IOCAP_ATOMIC16K :: "32 word" where [code_defs]: "SQLITE_IOCAP_ATOMIC16K = 0x40"
definition SQLITE_IOCAP_ATOMIC32K :: "32 word" where [code_defs]: "SQLITE_IOCAP_ATOMIC32K = 0x80"
definition SQLITE_IOCAP_ATOMIC64K :: "32 word" where [code_defs]: "SQLITE_IOCAP_ATOMIC64K = 0x100"
definition SQLITE_IOCAP_SAFE_APPEND :: "32 word" where [code_defs]: "SQLITE_IOCAP_SAFE_APPEND = 0x200"
definition SQLITE_IOCAP_SEQUENTIAL :: "32 word" where [code_defs]: "SQLITE_IOCAP_SEQUENTIAL = 0x400"
definition SQLITE_IOCAP_UNDELETABLE_WHEN_OPEN :: "32 word" where [code_defs]: "SQLITE_IOCAP_UNDELETABLE_WHEN_OPEN = 0x800"
definition SQLITE_IOCAP_POWERSAFE_OVERWRITE :: "32 word" where [code_defs]: "SQLITE_IOCAP_POWERSAFE_OVERWRITE = 0x1000"
definition SQLITE_IOCAP_IMMUTABLE :: "32 word" where [code_defs]: "SQLITE_IOCAP_IMMUTABLE = 0x2000"

definition iocap_flags :: "32 word list" where [code_defs]:
  "iocap_flags =
     [SQLITE_IOCAP_ATOMIC, SQLITE_IOCAP_ATOMIC512, SQLITE_IOCAP_ATOMIC1K,
      SQLITE_IOCAP_ATOMIC2K, SQLITE_IOCAP_ATOMIC4K, SQLITE_IOCAP_ATOMIC8K,
      SQLITE_IOCAP_ATOMIC16K, SQLITE_IOCAP_ATOMIC32K, SQLITE_IOCAP_ATOMIC64K,
      SQLITE_IOCAP_SAFE_APPEND, SQLITE_IOCAP_SEQUENTIAL,
      SQLITE_IOCAP_UNDELETABLE_WHEN_OPEN, SQLITE_IOCAP_POWERSAFE_OVERWRITE,
      SQLITE_IOCAP_IMMUTABLE]"

section \<open>File locking levels\<close>

definition SQLITE_LOCK_NONE :: int where [code_defs]: "SQLITE_LOCK_NONE = 0"
definition SQLITE_LOCK_SHARED :: int where [code_defs]: "SQLITE_LOCK_SHARED = 1"
definition SQLITE_LOCK_RESERVED :: int where [code_defs]: "SQLITE_LOCK_RESERVED = 2"
definition SQLITE_LOCK_PENDING :: int where [code_defs]: "SQLITE_LOCK_PENDING = 3"
definition SQLITE_LOCK_EXCLUSIVE :: int where [code_defs]: "SQLITE_LOCK_EXCLUSIVE = 4"

definition lock_levels :: "int list" where [code_defs]:
  "lock_levels =
     [SQLITE_LOCK_NONE, SQLITE_LOCK_SHARED, SQLITE_LOCK_RESERVED, SQLITE_LOCK_PENDING,
      SQLITE_LOCK_EXCLUSIVE]"

section \<open>Synchronization types\<close>

text \<open>The low four bits are a number, the next bit is a flag.\<close>

definition SQLITE_SYNC_NORMAL :: "32 word" where [code_defs]: "SQLITE_SYNC_NORMAL = 0x2"
definition SQLITE_SYNC_FULL :: "32 word" where [code_defs]: "SQLITE_SYNC_FULL = 0x3"
definition SQLITE_SYNC_DATAONLY :: "32 word" where [code_defs]: "SQLITE_SYNC_DATAONLY = 0x10"

definition sync_flags :: "32 word list" where [code_defs]:
  "sync_flags =
     [SQLITE_SYNC_NORMAL, SQLITE_SYNC_FULL, SQLITE_SYNC_DATAONLY]"

section \<open>File control opcodes\<close>

text \<open>The last three are the deprecated names of three others.\<close>

definition SQLITE_FCNTL_LOCKSTATE :: int where [code_defs]: "SQLITE_FCNTL_LOCKSTATE = 1"
definition SQLITE_FCNTL_GET_LOCKPROXYFILE :: int where [code_defs]: "SQLITE_FCNTL_GET_LOCKPROXYFILE = 2"
definition SQLITE_FCNTL_SET_LOCKPROXYFILE :: int where [code_defs]: "SQLITE_FCNTL_SET_LOCKPROXYFILE = 3"
definition SQLITE_FCNTL_LAST_ERRNO :: int where [code_defs]: "SQLITE_FCNTL_LAST_ERRNO = 4"
definition SQLITE_FCNTL_SIZE_HINT :: int where [code_defs]: "SQLITE_FCNTL_SIZE_HINT = 5"
definition SQLITE_FCNTL_CHUNK_SIZE :: int where [code_defs]: "SQLITE_FCNTL_CHUNK_SIZE = 6"
definition SQLITE_FCNTL_FILE_POINTER :: int where [code_defs]: "SQLITE_FCNTL_FILE_POINTER = 7"
definition SQLITE_FCNTL_SYNC_OMITTED :: int where [code_defs]: "SQLITE_FCNTL_SYNC_OMITTED = 8"
definition SQLITE_FCNTL_WIN32_AV_RETRY :: int where [code_defs]: "SQLITE_FCNTL_WIN32_AV_RETRY = 9"
definition SQLITE_FCNTL_PERSIST_WAL :: int where [code_defs]: "SQLITE_FCNTL_PERSIST_WAL = 10"
definition SQLITE_FCNTL_OVERWRITE :: int where [code_defs]: "SQLITE_FCNTL_OVERWRITE = 11"
definition SQLITE_FCNTL_VFSNAME :: int where [code_defs]: "SQLITE_FCNTL_VFSNAME = 12"
definition SQLITE_FCNTL_POWERSAFE_OVERWRITE :: int where [code_defs]: "SQLITE_FCNTL_POWERSAFE_OVERWRITE = 13"
definition SQLITE_FCNTL_PRAGMA :: int where [code_defs]: "SQLITE_FCNTL_PRAGMA = 14"
definition SQLITE_FCNTL_BUSYHANDLER :: int where [code_defs]: "SQLITE_FCNTL_BUSYHANDLER = 15"
definition SQLITE_FCNTL_TEMPFILENAME :: int where [code_defs]: "SQLITE_FCNTL_TEMPFILENAME = 16"
definition SQLITE_FCNTL_MMAP_SIZE :: int where [code_defs]: "SQLITE_FCNTL_MMAP_SIZE = 18"
definition SQLITE_FCNTL_TRACE :: int where [code_defs]: "SQLITE_FCNTL_TRACE = 19"
definition SQLITE_FCNTL_HAS_MOVED :: int where [code_defs]: "SQLITE_FCNTL_HAS_MOVED = 20"
definition SQLITE_FCNTL_SYNC :: int where [code_defs]: "SQLITE_FCNTL_SYNC = 21"
definition SQLITE_FCNTL_COMMIT_PHASETWO :: int where [code_defs]: "SQLITE_FCNTL_COMMIT_PHASETWO = 22"
definition SQLITE_FCNTL_WIN32_SET_HANDLE :: int where [code_defs]: "SQLITE_FCNTL_WIN32_SET_HANDLE = 23"
definition SQLITE_FCNTL_WAL_BLOCK :: int where [code_defs]: "SQLITE_FCNTL_WAL_BLOCK = 24"
definition SQLITE_GET_LOCKPROXYFILE :: int where [code_defs]: "SQLITE_GET_LOCKPROXYFILE = SQLITE_FCNTL_GET_LOCKPROXYFILE"
definition SQLITE_SET_LOCKPROXYFILE :: int where [code_defs]: "SQLITE_SET_LOCKPROXYFILE = SQLITE_FCNTL_SET_LOCKPROXYFILE"
definition SQLITE_LAST_ERRNO :: int where [code_defs]: "SQLITE_LAST_ERRNO = SQLITE_FCNTL_LAST_ERRNO"

definition fcntl_opcodes :: "int list" where [code_defs]:
  "fcntl_opcodes =
     [SQLITE_FCNTL_LOCKSTATE, SQLITE_FCNTL_GET_LOCKPROXYFILE,
      SQLITE_FCNTL_SET_LOCKPROXYFILE, SQLITE_FCNTL_LAST_ERRNO, SQLITE_FCNTL_SIZE_HINT,
      SQLITE_FCNTL_CHUNK_SIZE, SQLITE_FCNTL_FILE_POINTER, SQLITE_FCNTL_SYNC_OMITTED,
      SQLITE_FCNTL_WIN32_AV_RETRY, SQLITE_FCNTL_PERSIST_WAL, SQLITE_FCNTL_OVERWRITE,
      SQLITE_FCNTL_VFSNAME, SQLITE_FCNTL_POWERSAFE_OVERWRITE, SQLITE_FCNTL_PRAGMA,
      SQLITE_FCNTL_BUSYHANDLER, SQLITE_FCNTL_TEMPFILENAME, SQLITE_FCNTL_MMAP_SIZE,
      SQLITE_FCNTL_TRACE, SQLITE_FCNTL_HAS_MOVED, SQLITE_FCNTL_SYNC,
      SQLITE_FCNTL_COMMIT_PHASETWO, SQLITE_FCNTL_WIN32_SET_HANDLE,
      SQLITE_FCNTL_WAL_BLOCK, SQLITE_GET_LOCKPROXYFILE, SQLITE_SET_LOCKPROXYFILE,
      SQLITE_LAST_ERRNO]"

section \<open>Flags of xAccess\<close>

definition SQLITE_ACCESS_EXISTS :: int where [code_defs]: "SQLITE_ACCESS_EXISTS = 0"
definition SQLITE_ACCESS_READWRITE :: int where [code_defs]: "SQLITE_ACCESS_READWRITE = 1"
definition SQLITE_ACCESS_READ :: int where [code_defs]: "SQLITE_ACCESS_READ = 2"

definition access_flags :: "int list" where [code_defs]:
  "access_flags =
     [SQLITE_ACCESS_EXISTS, SQLITE_ACCESS_READWRITE, SQLITE_ACCESS_READ]"

section \<open>Flags of xShmLock\<close>

definition SQLITE_SHM_UNLOCK :: "32 word" where [code_defs]: "SQLITE_SHM_UNLOCK = 1"
definition SQLITE_SHM_LOCK :: "32 word" where [code_defs]: "SQLITE_SHM_LOCK = 2"
definition SQLITE_SHM_SHARED :: "32 word" where [code_defs]: "SQLITE_SHM_SHARED = 4"
definition SQLITE_SHM_EXCLUSIVE :: "32 word" where [code_defs]: "SQLITE_SHM_EXCLUSIVE = 8"
definition SQLITE_SHM_NLOCK :: int where [code_defs]: "SQLITE_SHM_NLOCK = 8"

definition shm_flags :: "32 word list" where [code_defs]:
  "shm_flags =
     [SQLITE_SHM_UNLOCK, SQLITE_SHM_LOCK, SQLITE_SHM_SHARED, SQLITE_SHM_EXCLUSIVE]"

section \<open>Configuration options\<close>

definition SQLITE_CONFIG_SINGLETHREAD :: int where [code_defs]: "SQLITE_CONFIG_SINGLETHREAD = 1"
definition SQLITE_CONFIG_MULTITHREAD :: int where [code_defs]: "SQLITE_CONFIG_MULTITHREAD = 2"
definition SQLITE_CONFIG_SERIALIZED :: int where [code_defs]: "SQLITE_CONFIG_SERIALIZED = 3"
definition SQLITE_CONFIG_MALLOC :: int where [code_defs]: "SQLITE_CONFIG_MALLOC = 4"
definition SQLITE_CONFIG_GETMALLOC :: int where [code_defs]: "SQLITE_CONFIG_GETMALLOC = 5"
definition SQLITE_CONFIG_SCRATCH :: int where [code_defs]: "SQLITE_CONFIG_SCRATCH = 6"
definition SQLITE_CONFIG_PAGECACHE :: int where [code_defs]: "SQLITE_CONFIG_PAGECACHE = 7"
definition SQLITE_CONFIG_HEAP :: int where [code_defs]: "SQLITE_CONFIG_HEAP = 8"
definition SQLITE_CONFIG_MEMSTATUS :: int where [code_defs]: "SQLITE_CONFIG_MEMSTATUS = 9"
definition SQLITE_CONFIG_MUTEX :: int where [code_defs]: "SQLITE_CONFIG_MUTEX = 10"
definition SQLITE_CONFIG_GETMUTEX :: int where [code_defs]: "SQLITE_CONFIG_GETMUTEX = 11"
definition SQLITE_CONFIG_LOOKASIDE :: int where [code_defs]: "SQLITE_CONFIG_LOOKASIDE = 13"
definition SQLITE_CONFIG_PCACHE :: int where [code_defs]: "SQLITE_CONFIG_PCACHE = 14"
definition SQLITE_CONFIG_GETPCACHE :: int where [code_defs]: "SQLITE_CONFIG_GETPCACHE = 15"
definition SQLITE_CONFIG_LOG :: int where [code_defs]: "SQLITE_CONFIG_LOG = 16"
definition SQLITE_CONFIG_URI :: int where [code_defs]: "SQLITE_CONFIG_URI = 17"
definition SQLITE_CONFIG_PCACHE2 :: int where [code_defs]: "SQLITE_CONFIG_PCACHE2 = 18"
definition SQLITE_CONFIG_GETPCACHE2 :: int where [code_defs]: "SQLITE_CONFIG_GETPCACHE2 = 19"
definition SQLITE_CONFIG_COVERING_INDEX_SCAN :: int where [code_defs]: "SQLITE_CONFIG_COVERING_INDEX_SCAN = 20"
definition SQLITE_CONFIG_SQLLOG :: int where [code_defs]: "SQLITE_CONFIG_SQLLOG = 21"
definition SQLITE_CONFIG_MMAP_SIZE :: int where [code_defs]: "SQLITE_CONFIG_MMAP_SIZE = 22"
definition SQLITE_CONFIG_WIN32_HEAPSIZE :: int where [code_defs]: "SQLITE_CONFIG_WIN32_HEAPSIZE = 23"
definition SQLITE_CONFIG_PCACHE_HDRSZ :: int where [code_defs]: "SQLITE_CONFIG_PCACHE_HDRSZ = 24"
definition SQLITE_CONFIG_PMASZ :: int where [code_defs]: "SQLITE_CONFIG_PMASZ = 25"

definition config_options :: "int list" where [code_defs]:
  "config_options =
     [SQLITE_CONFIG_SINGLETHREAD, SQLITE_CONFIG_MULTITHREAD, SQLITE_CONFIG_SERIALIZED,
      SQLITE_CONFIG_MALLOC, SQLITE_CONFIG_GETMALLOC, SQLITE_CONFIG_SCRATCH,
      SQLITE_CONFIG_PAGECACHE, SQLITE_CONFIG_HEAP, SQLITE_CONFIG_MEMSTATUS,
      SQLITE_CONFIG_MUTEX, SQLITE_CONFIG_GETMUTEX, SQLITE_CONFIG_LOOKASIDE,
      SQLITE_CONFIG_PCACHE, SQLITE_CONFIG_GETPCACHE, SQLITE_CONFIG_LOG,
      SQLITE_CONFIG_URI, SQLITE_CONFIG_PCACHE2, SQLITE_CONFIG_GETPCACHE2,
      SQLITE_CONFIG_COVERING_INDEX_SCAN, SQLITE_CONFIG_SQLLOG, SQLITE_CONFIG_MMAP_SIZE,
      SQLITE_CONFIG_WIN32_HEAPSIZE, SQLITE_CONFIG_PCACHE_HDRSZ, SQLITE_CONFIG_PMASZ]"

section \<open>Connection configuration options\<close>

definition SQLITE_DBCONFIG_LOOKASIDE :: int where [code_defs]: "SQLITE_DBCONFIG_LOOKASIDE = 1001"
definition SQLITE_DBCONFIG_ENABLE_FKEY :: int where [code_defs]: "SQLITE_DBCONFIG_ENABLE_FKEY = 1002"
definition SQLITE_DBCONFIG_ENABLE_TRIGGER :: int where [code_defs]: "SQLITE_DBCONFIG_ENABLE_TRIGGER = 1003"

definition dbconfig_options :: "int list" where [code_defs]:
  "dbconfig_options =
     [SQLITE_DBCONFIG_LOOKASIDE, SQLITE_DBCONFIG_ENABLE_FKEY,
      SQLITE_DBCONFIG_ENABLE_TRIGGER]"

section \<open>Authorizer return codes\<close>

definition SQLITE_DENY :: int where [code_defs]: "SQLITE_DENY = 1"
definition SQLITE_IGNORE :: int where [code_defs]: "SQLITE_IGNORE = 2"

definition auth_codes :: "int list" where [code_defs]:
  "auth_codes =
     [SQLITE_DENY, SQLITE_IGNORE]"

section \<open>Authorizer action codes\<close>

definition SQLITE_CREATE_INDEX :: int where [code_defs]: "SQLITE_CREATE_INDEX = 1"
definition SQLITE_CREATE_TABLE :: int where [code_defs]: "SQLITE_CREATE_TABLE = 2"
definition SQLITE_CREATE_TEMP_INDEX :: int where [code_defs]: "SQLITE_CREATE_TEMP_INDEX = 3"
definition SQLITE_CREATE_TEMP_TABLE :: int where [code_defs]: "SQLITE_CREATE_TEMP_TABLE = 4"
definition SQLITE_CREATE_TEMP_TRIGGER :: int where [code_defs]: "SQLITE_CREATE_TEMP_TRIGGER = 5"
definition SQLITE_CREATE_TEMP_VIEW :: int where [code_defs]: "SQLITE_CREATE_TEMP_VIEW = 6"
definition SQLITE_CREATE_TRIGGER :: int where [code_defs]: "SQLITE_CREATE_TRIGGER = 7"
definition SQLITE_CREATE_VIEW :: int where [code_defs]: "SQLITE_CREATE_VIEW = 8"
definition SQLITE_DELETE :: int where [code_defs]: "SQLITE_DELETE = 9"
definition SQLITE_DROP_INDEX :: int where [code_defs]: "SQLITE_DROP_INDEX = 10"
definition SQLITE_DROP_TABLE :: int where [code_defs]: "SQLITE_DROP_TABLE = 11"
definition SQLITE_DROP_TEMP_INDEX :: int where [code_defs]: "SQLITE_DROP_TEMP_INDEX = 12"
definition SQLITE_DROP_TEMP_TABLE :: int where [code_defs]: "SQLITE_DROP_TEMP_TABLE = 13"
definition SQLITE_DROP_TEMP_TRIGGER :: int where [code_defs]: "SQLITE_DROP_TEMP_TRIGGER = 14"
definition SQLITE_DROP_TEMP_VIEW :: int where [code_defs]: "SQLITE_DROP_TEMP_VIEW = 15"
definition SQLITE_DROP_TRIGGER :: int where [code_defs]: "SQLITE_DROP_TRIGGER = 16"
definition SQLITE_DROP_VIEW :: int where [code_defs]: "SQLITE_DROP_VIEW = 17"
definition SQLITE_INSERT :: int where [code_defs]: "SQLITE_INSERT = 18"
definition SQLITE_PRAGMA :: int where [code_defs]: "SQLITE_PRAGMA = 19"
definition SQLITE_READ :: int where [code_defs]: "SQLITE_READ = 20"
definition SQLITE_SELECT :: int where [code_defs]: "SQLITE_SELECT = 21"
definition SQLITE_TRANSACTION :: int where [code_defs]: "SQLITE_TRANSACTION = 22"
definition SQLITE_UPDATE :: int where [code_defs]: "SQLITE_UPDATE = 23"
definition SQLITE_ATTACH :: int where [code_defs]: "SQLITE_ATTACH = 24"
definition SQLITE_DETACH :: int where [code_defs]: "SQLITE_DETACH = 25"
definition SQLITE_ALTER_TABLE :: int where [code_defs]: "SQLITE_ALTER_TABLE = 26"
definition SQLITE_REINDEX :: int where [code_defs]: "SQLITE_REINDEX = 27"
definition SQLITE_ANALYZE :: int where [code_defs]: "SQLITE_ANALYZE = 28"
definition SQLITE_CREATE_VTABLE :: int where [code_defs]: "SQLITE_CREATE_VTABLE = 29"
definition SQLITE_DROP_VTABLE :: int where [code_defs]: "SQLITE_DROP_VTABLE = 30"
definition SQLITE_FUNCTION :: int where [code_defs]: "SQLITE_FUNCTION = 31"
definition SQLITE_SAVEPOINT :: int where [code_defs]: "SQLITE_SAVEPOINT = 32"
definition SQLITE_COPY :: int where [code_defs]: "SQLITE_COPY = 0"
definition SQLITE_RECURSIVE :: int where [code_defs]: "SQLITE_RECURSIVE = 33"

definition action_codes :: "int list" where [code_defs]:
  "action_codes =
     [SQLITE_CREATE_INDEX, SQLITE_CREATE_TABLE, SQLITE_CREATE_TEMP_INDEX,
      SQLITE_CREATE_TEMP_TABLE, SQLITE_CREATE_TEMP_TRIGGER, SQLITE_CREATE_TEMP_VIEW,
      SQLITE_CREATE_TRIGGER, SQLITE_CREATE_VIEW, SQLITE_DELETE, SQLITE_DROP_INDEX,
      SQLITE_DROP_TABLE, SQLITE_DROP_TEMP_INDEX, SQLITE_DROP_TEMP_TABLE,
      SQLITE_DROP_TEMP_TRIGGER, SQLITE_DROP_TEMP_VIEW, SQLITE_DROP_TRIGGER,
      SQLITE_DROP_VIEW, SQLITE_INSERT, SQLITE_PRAGMA, SQLITE_READ, SQLITE_SELECT,
      SQLITE_TRANSACTION, SQLITE_UPDATE, SQLITE_ATTACH, SQLITE_DETACH,
      SQLITE_ALTER_TABLE, SQLITE_REINDEX, SQLITE_ANALYZE, SQLITE_CREATE_VTABLE,
      SQLITE_DROP_VTABLE, SQLITE_FUNCTION, SQLITE_SAVEPOINT, SQLITE_COPY,
      SQLITE_RECURSIVE]"

section \<open>Run-time limit categories\<close>

definition SQLITE_LIMIT_LENGTH :: int where [code_defs]: "SQLITE_LIMIT_LENGTH = 0"
definition SQLITE_LIMIT_SQL_LENGTH :: int where [code_defs]: "SQLITE_LIMIT_SQL_LENGTH = 1"
definition SQLITE_LIMIT_COLUMN :: int where [code_defs]: "SQLITE_LIMIT_COLUMN = 2"
definition SQLITE_LIMIT_EXPR_DEPTH :: int where [code_defs]: "SQLITE_LIMIT_EXPR_DEPTH = 3"
definition SQLITE_LIMIT_COMPOUND_SELECT :: int where [code_defs]: "SQLITE_LIMIT_COMPOUND_SELECT = 4"
definition SQLITE_LIMIT_VDBE_OP :: int where [code_defs]: "SQLITE_LIMIT_VDBE_OP = 5"
definition SQLITE_LIMIT_FUNCTION_ARG :: int where [code_defs]: "SQLITE_LIMIT_FUNCTION_ARG = 6"
definition SQLITE_LIMIT_ATTACHED :: int where [code_defs]: "SQLITE_LIMIT_ATTACHED = 7"
definition SQLITE_LIMIT_LIKE_PATTERN_LENGTH :: int where [code_defs]: "SQLITE_LIMIT_LIKE_PATTERN_LENGTH = 8"
definition SQLITE_LIMIT_VARIABLE_NUMBER :: int where [code_defs]: "SQLITE_LIMIT_VARIABLE_NUMBER = 9"
definition SQLITE_LIMIT_TRIGGER_DEPTH :: int where [code_defs]: "SQLITE_LIMIT_TRIGGER_DEPTH = 10"
definition SQLITE_LIMIT_WORKER_THREADS :: int where [code_defs]: "SQLITE_LIMIT_WORKER_THREADS = 11"

definition limit_categories :: "int list" where [code_defs]:
  "limit_categories =
     [SQLITE_LIMIT_LENGTH, SQLITE_LIMIT_SQL_LENGTH, SQLITE_LIMIT_COLUMN,
      SQLITE_LIMIT_EXPR_DEPTH, SQLITE_LIMIT_COMPOUND_SELECT, SQLITE_LIMIT_VDBE_OP,
      SQLITE_LIMIT_FUNCTION_ARG, SQLITE_LIMIT_ATTACHED,
      SQLITE_LIMIT_LIKE_PATTERN_LENGTH, SQLITE_LIMIT_VARIABLE_NUMBER,
      SQLITE_LIMIT_TRIGGER_DEPTH, SQLITE_LIMIT_WORKER_THREADS]"

section \<open>Fundamental datatypes\<close>

definition SQLITE_INTEGER :: int where [code_defs]: "SQLITE_INTEGER = 1"
definition SQLITE_FLOAT :: int where [code_defs]: "SQLITE_FLOAT = 2"
definition SQLITE_BLOB :: int where [code_defs]: "SQLITE_BLOB = 4"
definition SQLITE_NULL :: int where [code_defs]: "SQLITE_NULL = 5"
definition SQLITE_TEXT :: int where [code_defs]: "SQLITE_TEXT = 3"
definition SQLITE3_TEXT :: int where [code_defs]: "SQLITE3_TEXT = 3"

definition datatype_codes :: "int list" where [code_defs]:
  "datatype_codes =
     [SQLITE_INTEGER, SQLITE_FLOAT, SQLITE_BLOB, SQLITE_NULL, SQLITE_TEXT,
      SQLITE3_TEXT]"

section \<open>Text encodings\<close>

definition SQLITE_UTF8 :: int where [code_defs]: "SQLITE_UTF8 = 1"
definition SQLITE_UTF16LE :: int where [code_defs]: "SQLITE_UTF16LE = 2"
definition SQLITE_UTF16BE :: int where [code_defs]: "SQLITE_UTF16BE = 3"
definition SQLITE_UTF16 :: int where [code_defs]: "SQLITE_UTF16 = 4"
definition SQLITE_ANY :: int where [code_defs]: "SQLITE_ANY = 5"
definition SQLITE_UTF16_ALIGNED :: int where [code_defs]: "SQLITE_UTF16_ALIGNED = 8"

definition text_encodings :: "int list" where [code_defs]:
  "text_encodings =
     [SQLITE_UTF8, SQLITE_UTF16LE, SQLITE_UTF16BE, SQLITE_UTF16, SQLITE_ANY,
      SQLITE_UTF16_ALIGNED]"

section \<open>Function flags\<close>

definition SQLITE_DETERMINISTIC :: int where [code_defs]: "SQLITE_DETERMINISTIC = 0x800"

section \<open>Constraint operators of a virtual table\<close>

text \<open>One bit each.\<close>

definition SQLITE_INDEX_CONSTRAINT_EQ :: "32 word" where [code_defs]: "SQLITE_INDEX_CONSTRAINT_EQ = 2"
definition SQLITE_INDEX_CONSTRAINT_GT :: "32 word" where [code_defs]: "SQLITE_INDEX_CONSTRAINT_GT = 4"
definition SQLITE_INDEX_CONSTRAINT_LE :: "32 word" where [code_defs]: "SQLITE_INDEX_CONSTRAINT_LE = 8"
definition SQLITE_INDEX_CONSTRAINT_LT :: "32 word" where [code_defs]: "SQLITE_INDEX_CONSTRAINT_LT = 16"
definition SQLITE_INDEX_CONSTRAINT_GE :: "32 word" where [code_defs]: "SQLITE_INDEX_CONSTRAINT_GE = 32"
definition SQLITE_INDEX_CONSTRAINT_MATCH :: "32 word" where [code_defs]: "SQLITE_INDEX_CONSTRAINT_MATCH = 64"

definition constraint_ops :: "32 word list" where [code_defs]:
  "constraint_ops =
     [SQLITE_INDEX_CONSTRAINT_EQ, SQLITE_INDEX_CONSTRAINT_GT,
      SQLITE_INDEX_CONSTRAINT_LE, SQLITE_INDEX_CONSTRAINT_LT,
      SQLITE_INDEX_CONSTRAINT_GE, SQLITE_INDEX_CONSTRAINT_MATCH]"

section \<open>Mutex types\<close>

text \<open>Two numbers have a second name that is not used.\<close>

definition SQLITE_MUTEX_FAST :: int where [code_defs]: "SQLITE_MUTEX_FAST = 0"
definition SQLITE_MUTEX_RECURSIVE :: int where [code_defs]: "SQLITE_MUTEX_RECURSIVE = 1"
definition SQLITE_MUTEX_STATIC_MASTER :: int where [code_defs]: "SQLITE_MUTEX_STATIC_MASTER = 2"
definition SQLITE_MUTEX_STATIC_MEM :: int where [code_defs]: "SQLITE_MUTEX_STATIC_MEM = 3"
definition SQLITE_MUTEX_STATIC_MEM2 :: int where [code_defs]: "SQLITE_MUTEX_STATIC_MEM2 = 4"
definition SQLITE_MUTEX_STATIC_OPEN :: int where [code_defs]: "SQLITE_MUTEX_STATIC_OPEN = 4"
definition SQLITE_MUTEX_STATIC_PRNG :: int where [code_defs]: "SQLITE_MUTEX_STATIC_PRNG = 5"
definition SQLITE_MUTEX_STATIC_LRU :: int where [code_defs]: "SQLITE_MUTEX_STATIC_LRU = 6"
definition SQLITE_MUTEX_STATIC_LRU2 :: int where [code_defs]: "SQLITE_MUTEX_STATIC_LRU2 = 7"
definition SQLITE_MUTEX_STATIC_PMEM :: int where [code_defs]: "SQLITE_MUTEX_STATIC_PMEM = 7"
definition SQLITE_MUTEX_STATIC_APP1 :: int where [code_defs]: "SQLITE_MUTEX_STATIC_APP1 = 8"
definition SQLITE_MUTEX_STATIC_APP2 :: int where [code_defs]: "SQLITE_MUTEX_STATIC_APP2 = 9"
definition SQLITE_MUTEX_STATIC_APP3 :: int where [code_defs]: "SQLITE_MUTEX_STATIC_APP3 = 10"

definition mutex_types :: "int list" where [code_defs]:
  "mutex_types =
     [SQLITE_MUTEX_FAST, SQLITE_MUTEX_RECURSIVE, SQLITE_MUTEX_STATIC_MASTER,
      SQLITE_MUTEX_STATIC_MEM, SQLITE_MUTEX_STATIC_MEM2, SQLITE_MUTEX_STATIC_OPEN,
      SQLITE_MUTEX_STATIC_PRNG, SQLITE_MUTEX_STATIC_LRU, SQLITE_MUTEX_STATIC_LRU2,
      SQLITE_MUTEX_STATIC_PMEM, SQLITE_MUTEX_STATIC_APP1, SQLITE_MUTEX_STATIC_APP2,
      SQLITE_MUTEX_STATIC_APP3]"

section \<open>Testing interface opcodes\<close>

definition SQLITE_TESTCTRL_FIRST :: int where [code_defs]: "SQLITE_TESTCTRL_FIRST = 5"
definition SQLITE_TESTCTRL_PRNG_SAVE :: int where [code_defs]: "SQLITE_TESTCTRL_PRNG_SAVE = 5"
definition SQLITE_TESTCTRL_PRNG_RESTORE :: int where [code_defs]: "SQLITE_TESTCTRL_PRNG_RESTORE = 6"
definition SQLITE_TESTCTRL_PRNG_RESET :: int where [code_defs]: "SQLITE_TESTCTRL_PRNG_RESET = 7"
definition SQLITE_TESTCTRL_BITVEC_TEST :: int where [code_defs]: "SQLITE_TESTCTRL_BITVEC_TEST = 8"
definition SQLITE_TESTCTRL_FAULT_INSTALL :: int where [code_defs]: "SQLITE_TESTCTRL_FAULT_INSTALL = 9"
definition SQLITE_TESTCTRL_BENIGN_MALLOC_HOOKS :: int where [code_defs]: "SQLITE_TESTCTRL_BENIGN_MALLOC_HOOKS = 10"
definition SQLITE_TESTCTRL_PENDING_BYTE :: int where [code_defs]: "SQLITE_TESTCTRL_PENDING_BYTE = 11"
definition SQLITE_TESTCTRL_ASSERT :: int where [code_defs]: "SQLITE_TESTCTRL_ASSERT = 12"
definition SQLITE_TESTCTRL_ALWAYS :: int where [code_defs]: "SQLITE_TESTCTRL_ALWAYS = 13"
definition SQLITE_TESTCTRL_RESERVE :: int where [code_defs]: "SQLITE_TESTCTRL_RESERVE = 14"
definition SQLITE_TESTCTRL_OPTIMIZATIONS :: int where [code_defs]: "SQLITE_TESTCTRL_OPTIMIZATIONS = 15"
definition SQLITE_TESTCTRL_ISKEYWORD :: int where [code_defs]: "SQLITE_TESTCTRL_ISKEYWORD = 16"
definition SQLITE_TESTCTRL_SCRATCHMALLOC :: int where [code_defs]: "SQLITE_TESTCTRL_SCRATCHMALLOC = 17"
definition SQLITE_TESTCTRL_LOCALTIME_FAULT :: int where [code_defs]: "SQLITE_TESTCTRL_LOCALTIME_FAULT = 18"
definition SQLITE_TESTCTRL_EXPLAIN_STMT :: int where [code_defs]: "SQLITE_TESTCTRL_EXPLAIN_STMT = 19"
definition SQLITE_TESTCTRL_NEVER_CORRUPT :: int where [code_defs]: "SQLITE_TESTCTRL_NEVER_CORRUPT = 20"
definition SQLITE_TESTCTRL_VDBE_COVERAGE :: int where [code_defs]: "SQLITE_TESTCTRL_VDBE_COVERAGE = 21"
definition SQLITE_TESTCTRL_BYTEORDER :: int where [code_defs]: "SQLITE_TESTCTRL_BYTEORDER = 22"
definition SQLITE_TESTCTRL_ISINIT :: int where [code_defs]: "SQLITE_TESTCTRL_ISINIT = 23"
definition SQLITE_TESTCTRL_SORTER_MMAP :: int where [code_defs]: "SQLITE_TESTCTRL_SORTER_MMAP = 24"
definition SQLITE_TESTCTRL_IMPOSTER :: int where [code_defs]: "SQLITE_TESTCTRL_IMPOSTER = 25"
definition SQLITE_TESTCTRL_LAST :: int where [code_defs]: "SQLITE_TESTCTRL_LAST = 25"

definition testctrl_opcodes :: "int list" where [code_defs]:
  "testctrl_opcodes =
     [SQLITE_TESTCTRL_FIRST, SQLITE_TESTCTRL_PRNG_SAVE, SQLITE_TESTCTRL_PRNG_RESTORE,
      SQLITE_TESTCTRL_PRNG_RESET, SQLITE_TESTCTRL_BITVEC_TEST,
      SQLITE_TESTCTRL_FAULT_INSTALL, SQLITE_TESTCTRL_BENIGN_MALLOC_HOOKS,
      SQLITE_TESTCTRL_PENDING_BYTE, SQLITE_TESTCTRL_ASSERT, SQLITE_TESTCTRL_ALWAYS,
      SQLITE_TESTCTRL_RESERVE, SQLITE_TESTCTRL_OPTIMIZATIONS,
      SQLITE_TESTCTRL_ISKEYWORD, SQLITE_TESTCTRL_SCRATCHMALLOC,
      SQLITE_TESTCTRL_LOCALTIME_FAULT, SQLITE_TESTCTRL_EXPLAIN_STMT,
      SQLITE_TESTCTRL_NEVER_CORRUPT, SQLITE_TESTCTRL_VDBE_COVERAGE,
      SQLITE_TESTCTRL_BYTEORDER, SQLITE_TESTCTRL_ISINIT, SQLITE_TESTCTRL_SORTER_MMAP,
      SQLITE_TESTCTRL_IMPOSTER, SQLITE_TESTCTRL_LAST]"

section \<open>Status parameters\<close>

definition SQLITE_STATUS_MEMORY_USED :: int where [code_defs]: "SQLITE_STATUS_MEMORY_USED = 0"
definition SQLITE_STATUS_PAGECACHE_USED :: int where [code_defs]: "SQLITE_STATUS_PAGECACHE_USED = 1"
definition SQLITE_STATUS_PAGECACHE_OVERFLOW :: int where [code_defs]: "SQLITE_STATUS_PAGECACHE_OVERFLOW = 2"
definition SQLITE_STATUS_SCRATCH_USED :: int where [code_defs]: "SQLITE_STATUS_SCRATCH_USED = 3"
definition SQLITE_STATUS_SCRATCH_OVERFLOW :: int where [code_defs]: "SQLITE_STATUS_SCRATCH_OVERFLOW = 4"
definition SQLITE_STATUS_MALLOC_SIZE :: int where [code_defs]: "SQLITE_STATUS_MALLOC_SIZE = 5"
definition SQLITE_STATUS_PARSER_STACK :: int where [code_defs]: "SQLITE_STATUS_PARSER_STACK = 6"
definition SQLITE_STATUS_PAGECACHE_SIZE :: int where [code_defs]: "SQLITE_STATUS_PAGECACHE_SIZE = 7"
definition SQLITE_STATUS_SCRATCH_SIZE :: int where [code_defs]: "SQLITE_STATUS_SCRATCH_SIZE = 8"
definition SQLITE_STATUS_MALLOC_COUNT :: int where [code_defs]: "SQLITE_STATUS_MALLOC_COUNT = 9"

definition status_parameters :: "int list" where [code_defs]:
  "status_parameters =
     [SQLITE_STATUS_MEMORY_USED, SQLITE_STATUS_PAGECACHE_USED,
      SQLITE_STATUS_PAGECACHE_OVERFLOW, SQLITE_STATUS_SCRATCH_USED,
      SQLITE_STATUS_SCRATCH_OVERFLOW, SQLITE_STATUS_MALLOC_SIZE,
      SQLITE_STATUS_PARSER_STACK, SQLITE_STATUS_PAGECACHE_SIZE,
      SQLITE_STATUS_SCRATCH_SIZE, SQLITE_STATUS_MALLOC_COUNT]"

section \<open>Connection status parameters\<close>

definition SQLITE_DBSTATUS_LOOKASIDE_USED :: int where [code_defs]: "SQLITE_DBSTATUS_LOOKASIDE_USED = 0"
definition SQLITE_DBSTATUS_CACHE_USED :: int where [code_defs]: "SQLITE_DBSTATUS_CACHE_USED = 1"
definition SQLITE_DBSTATUS_SCHEMA_USED :: int where [code_defs]: "SQLITE_DBSTATUS_SCHEMA_USED = 2"
definition SQLITE_DBSTATUS_STMT_USED :: int where [code_defs]: "SQLITE_DBSTATUS_STMT_USED = 3"
definition SQLITE_DBSTATUS_LOOKASIDE_HIT :: int where [code_defs]: "SQLITE_DBSTATUS_LOOKASIDE_HIT = 4"
definition SQLITE_DBSTATUS_LOOKASIDE_MISS_SIZE :: int where [code_defs]: "SQLITE_DBSTATUS_LOOKASIDE_MISS_SIZE = 5"
definition SQLITE_DBSTATUS_LOOKASIDE_MISS_FULL :: int where [code_defs]: "SQLITE_DBSTATUS_LOOKASIDE_MISS_FULL = 6"
definition SQLITE_DBSTATUS_CACHE_HIT :: int where [code_defs]: "SQLITE_DBSTATUS_CACHE_HIT = 7"
definition SQLITE_DBSTATUS_CACHE_MISS :: int where [code_defs]: "SQLITE_DBSTATUS_CACHE_MISS = 8"
definition SQLITE_DBSTATUS_CACHE_WRITE :: int where [code_defs]: "SQLITE_DBSTATUS_CACHE_WRITE = 9"
definition SQLITE_DBSTATUS_DEFERRED_FKS :: int where [code_defs]: "SQLITE_DBSTATUS_DEFERRED_FKS = 10"
definition SQLITE_DBSTATUS_MAX :: int where [code_defs]: "SQLITE_DBSTATUS_MAX = 10"

definition dbstatus_parameters :: "int list" where [code_defs]:
  "dbstatus_parameters =
     [SQLITE_DBSTATUS_LOOKASIDE_USED, SQLITE_DBSTATUS_CACHE_USED,
      SQLITE_DBSTATUS_SCHEMA_USED, SQLITE_DBSTATUS_STMT_USED,
      SQLITE_DBSTATUS_LOOKASIDE_HIT, SQLITE_DBSTATUS_LOOKASIDE_MISS_SIZE,
      SQLITE_DBSTATUS_LOOKASIDE_MISS_FULL, SQLITE_DBSTATUS_CACHE_HIT,
      SQLITE_DBSTATUS_CACHE_MISS, SQLITE_DBSTATUS_CACHE_WRITE,
      SQLITE_DBSTATUS_DEFERRED_FKS, SQLITE_DBSTATUS_MAX]"

section \<open>Statement status parameters\<close>

definition SQLITE_STMTSTATUS_FULLSCAN_STEP :: int where [code_defs]: "SQLITE_STMTSTATUS_FULLSCAN_STEP = 1"
definition SQLITE_STMTSTATUS_SORT :: int where [code_defs]: "SQLITE_STMTSTATUS_SORT = 2"
definition SQLITE_STMTSTATUS_AUTOINDEX :: int where [code_defs]: "SQLITE_STMTSTATUS_AUTOINDEX = 3"
definition SQLITE_STMTSTATUS_VM_STEP :: int where [code_defs]: "SQLITE_STMTSTATUS_VM_STEP = 4"

definition stmtstatus_parameters :: "int list" where [code_defs]:
  "stmtstatus_parameters =
     [SQLITE_STMTSTATUS_FULLSCAN_STEP, SQLITE_STMTSTATUS_SORT,
      SQLITE_STMTSTATUS_AUTOINDEX, SQLITE_STMTSTATUS_VM_STEP]"

section \<open>Checkpoint modes\<close>

definition SQLITE_CHECKPOINT_PASSIVE :: int where [code_defs]: "SQLITE_CHECKPOINT_PASSIVE = 0"
definition SQLITE_CHECKPOINT_FULL :: int where [code_defs]: "SQLITE_CHECKPOINT_FULL = 1"
definition SQLITE_CHECKPOINT_RESTART :: int where [code_defs]: "SQLITE_CHECKPOINT_RESTART = 2"
definition SQLITE_CHECKPOINT_TRUNCATE :: int where [code_defs]: "SQLITE_CHECKPOINT_TRUNCATE = 3"

definition checkpoint_modes :: "int list" where [code_defs]:
  "checkpoint_modes =
     [SQLITE_CHECKPOINT_PASSIVE, SQLITE_CHECKPOINT_FULL, SQLITE_CHECKPOINT_RESTART,
      SQLITE_CHECKPOINT_TRUNCATE]"

section \<open>Virtual table configuration\<close>

definition SQLITE_VTAB_CONSTRAINT_SUPPORT :: int where [code_defs]: "SQLITE_VTAB_CONSTRAINT_SUPPORT = 1"

section \<open>Conflict resolution modes\<close>

definition SQLITE_ROLLBACK :: int where [code_defs]: "SQLITE_ROLLBACK = 1"
definition SQLITE_FAIL :: int where [code_defs]: "SQLITE_FAIL = 3"
definition SQLITE_REPLACE :: int where [code_defs]: "SQLITE_REPLACE = 5"

definition conflict_modes :: "int list" where [code_defs]:
  "conflict_modes =
     [SQLITE_ROLLBACK, SQLITE_FAIL, SQLITE_REPLACE]"

section \<open>Scan status opcodes\<close>

definition SQLITE_SCANSTAT_NLOOP :: int where [code_defs]: "SQLITE_SCANSTAT_NLOOP = 0"
definition SQLITE_SCANSTAT_NVISIT :: int where [code_defs]: "SQLITE_SCANSTAT_NVISIT = 1"
definition SQLITE_SCANSTAT_EST :: int where [code_defs]: "SQLITE_SCANSTAT_EST = 2"
definition SQLITE_SCANSTAT_NAME :: int where [code_defs]: "SQLITE_SCANSTAT_NAME = 3"
definition SQLITE_SCANSTAT_EXPLAIN :: int where [code_defs]: "SQLITE_SCANSTAT_EXPLAIN = 4"
definition SQLITE_SCANSTAT_SELECTID :: int where [code_defs]: "SQLITE_SCANSTAT_SELECTID = 5"

definition scanstatus_opcodes :: "int list" where [code_defs]:
  "scanstatus_opcodes =
     [SQLITE_SCANSTAT_NLOOP, SQLITE_SCANSTAT_NVISIT, SQLITE_SCANSTAT_EST,
      SQLITE_SCANSTAT_NAME, SQLITE_SCANSTAT_EXPLAIN, SQLITE_SCANSTAT_SELECTID]"

section \<open>Visibility of an R-tree node\<close>

definition NOT_WITHIN :: int where [code_defs]: "NOT_WITHIN = 0"
definition PARTLY_WITHIN :: int where [code_defs]: "PARTLY_WITHIN = 1"
definition FULLY_WITHIN :: int where [code_defs]: "FULLY_WITHIN = 2"

definition within_codes :: "int list" where [code_defs]:
  "within_codes =
     [NOT_WITHIN, PARTLY_WITHIN, FULLY_WITHIN]"

section \<open>Facts\<close>

text \<open>The documented number of a version \<open>X.Y.Z\<close>.\<close>

definition version_number :: "nat \<Rightarrow> nat \<Rightarrow> nat \<Rightarrow> int" where
  "version_number x y z = int x * 1000000 + int y * 1000 + int z"

text \<open>A set of flags is the bitwise or of its members.\<close>

definition single_bits :: "32 word list" where
  "single_bits = map (\<lambda>n. push_bit n 1) [0..<32]"

definition or_flags :: "32 word list \<Rightarrow> 32 word" where
  "or_flags fs = foldr (OR) fs 0"

lemma bit_or_flags: "bit (or_flags fs) n \<longleftrightarrow> (\<exists>f \<in> set fs. bit f n)"
  by (induction fs) (auto simp: or_flags_def bit_or_iff)

lemma single_bitE:
  assumes "f \<in> set single_bits"
  obtains n where "n < 32" "f = 2 ^ n"
  using assms by (auto simp: single_bits_def)

lemma bit_single: "n < 32 \<Longrightarrow> bit (2 ^ n :: 32 word) m \<longleftrightarrow> m = n"
  by (auto simp: bit_exp_iff possible_bit_word)

text \<open>Single bits can be told apart in a set of flags.\<close>

lemma or_flags_and:
  assumes f: "f \<in> set single_bits" and fs: "set fs \<subseteq> set single_bits"
  shows "or_flags fs AND f \<noteq> 0 \<longleftrightarrow> f \<in> set fs"
proof -
  obtain n where n: "n < 32" "f = 2 ^ n" using f by (rule single_bitE)
  have "or_flags fs AND f \<noteq> 0 \<longleftrightarrow> (\<exists>m. bit (or_flags fs AND f) m)"
    by (metis bit_0_eq bit_eqI bot_apply bot_bool_def)
  also have "\<dots> \<longleftrightarrow> (\<exists>g \<in> set fs. bit g n)"
    using n by (auto simp: bit_and_iff bit_or_flags bit_single)
  also have "\<dots> \<longleftrightarrow> f \<in> set fs"
  proof
    assume "\<exists>g \<in> set fs. bit g n"
    then obtain g where g: "g \<in> set fs" "bit g n" by blast
    then obtain m where "m < 32" "g = 2 ^ m" using fs by (auto elim: single_bitE)
    with g n show "f \<in> set fs" by (auto simp: bit_single)
  qed (use n bit_single [OF n(1), of n] in \<open>auto intro!: bexI [of _ f]\<close>)
  finally show ?thesis .
qed

lemma flags_single:
  "set open_flags \<subseteq> set single_bits" "set iocap_flags \<subseteq> set single_bits"
  "set constraint_ops \<subseteq> set single_bits" "set shm_flags \<subseteq> set single_bits"
  by (simp_all add: code_defs single_bits_def upt_rec numeral_eq_Suc)

lemma flags_distinct: "distinct open_flags" "distinct iocap_flags" "distinct constraint_ops" "distinct shm_flags"
  by (simp_all add: code_defs)

lemma result_codes_distinct: "distinct result_codes"
  by (simp add: code_defs)

lemma extended_codes_distinct: "distinct (map fst extended_result_codes)"
  by (simp add: code_defs)

lemma extended_codes_primary:
  "list_all (\<lambda>(x, base). x AND 0xFF = base \<and> base \<in> set result_codes \<and> x \<notin> set result_codes) extended_result_codes"
  by (simp add: code_defs)

lemma opcodes_distinct:
  "distinct lock_levels" "distinct (take 23 fcntl_opcodes)" "distinct config_options" "distinct action_codes"
  "distinct limit_categories" "distinct status_parameters" "distinct stmtstatus_parameters"
  "distinct checkpoint_modes" "distinct scanstatus_opcodes"
  by (simp_all add: code_defs)


end
