(* ===== verification/Database.thy ===== *)
theory Database
  imports SqlFacts Exceptions SqliteCodes
begin

text \<open>
  \<open>Database.cpp\<close> and \<open>Database.h\<close>: the wrapper around the C interface of SQLite, the five
  \<open>CREATE TABLE\<close> texts, the constructor that runs them, and the permission levels.

  SQLite itself is a parameter: the record \<open>sqlite\<close> of the functions the wrapper calls.  The
  locale \<open>sqlite_api\<close> states what its documentation promises of them on the fragment of SQL
  of theory \<open>Sql\<close>; the locale \<open>sql_query\<close> is the contract the other components rely on.
  \<open>DataBase::query\<close> turns the first into the second.  Console output is not modelled.
\<close>

section \<open>The C interface\<close>

record ('db, 'st) sqlite =
  sqlite3_open :: "string \<Rightarrow> int \<times> 'db"
  sqlite3_prepare_v2 :: "'db \<Rightarrow> string \<Rightarrow> int \<times> 'st \<times> 'db"
  sqlite3_column_count :: "'st \<Rightarrow> nat"
  sqlite3_step :: "'db \<Rightarrow> 'st \<Rightarrow> int \<times> 'db \<times> 'st"
  sqlite3_column_text :: "'st \<Rightarrow> nat \<Rightarrow> string option"
  sqlite3_finalize :: "'db \<Rightarrow> 'st \<Rightarrow> 'db"

section \<open>DataBase::query\<close>

text \<open>A null pointer becomes the empty string; a text is copied up to its first zero byte.\<close>

definition column_string :: "('db, 'st) sqlite \<Rightarrow> 'st \<Rightarrow> nat \<Rightarrow> string" where
  "column_string S st col = (case sqlite3_column_text S st col of None \<Rightarrow> '''' | Some p \<Rightarrow> c_str p)"

text \<open>The loop \<open>while (true)\<close> over \<open>sqlite3_step\<close>; \<open>None\<close> is a loop that does not end.\<close>

partial_function (option) fetch ::
  "('db, 'st) sqlite \<Rightarrow> nat \<Rightarrow> 'db \<Rightarrow> 'st \<Rightarrow> string list list \<Rightarrow> (string list list \<times> 'db \<times> 'st) option" where
  "fetch S cols db st results =
    (case sqlite3_step S db st of (result, db', st') \<Rightarrow>
       if result = SQLITE_ROW
       then fetch S cols db' st' (results @ [map (column_string S st') [0..<cols]])
       else Some (results, db', st'))"

definition query :: "('db, 'st) sqlite \<Rightarrow> string \<Rightarrow> 'db \<Rightarrow> (string list list \<times> 'db) option" where
  "query S sql db =
    (case sqlite3_prepare_v2 S db (c_str sql) of (rc, st, db1) \<Rightarrow>
       if rc = SQLITE_OK then
         (case fetch S (sqlite3_column_count S st) db1 st [] of
            None \<Rightarrow> None
          | Some (results, db', st') \<Rightarrow> Some (results, sqlite3_finalize S db' st'))
       else Some ([], db1))"

text \<open>The call of \<open>query\<close> as a statement of a program: one that does not return hangs.\<close>

definition db_query ::
  "(string \<Rightarrow> 'db \<Rightarrow> (string list list \<times> 'db) option) \<Rightarrow> string \<Rightarrow> (cxx_exn, 'db, string list list) prog" where
  "db_query q sql = (\<lambda>db. case q sql db of None \<Rightarrow> (Hang, db) | Some (data, db') \<Rightarrow> (Ret data, db'))"

definition DataBase_Empty :: "string list list" where
  "DataBase_Empty = []"

text \<open>\<open>data[i][j]\<close>: both subscripts are unchecked.\<close>

definition at :: "string list list \<Rightarrow> nat \<Rightarrow> nat \<Rightarrow> (cxx_exn, 's, string) prog" where
  "at data i j = (if i < length data \<and> j < length (data ! i) then ret (data ! i ! j) else undef)"

section \<open>What SQLite promises\<close>

text \<open>
  \<open>yields S cols db st rs db'\<close>: stepping the statement gives the rows \<open>rs\<close> one by one, then a
  result code other than \<open>SQLITE_ROW\<close>, and after \<open>sqlite3_finalize\<close> the database is \<open>db'\<close>.
\<close>

fun yields :: "('db, 'st) sqlite \<Rightarrow> nat \<Rightarrow> 'db \<Rightarrow> 'st \<Rightarrow> string list list \<Rightarrow> 'db \<Rightarrow> bool" where
  "yields S cols db st [] db' \<longleftrightarrow>
    (case sqlite3_step S db st of (rc, db1, st1) \<Rightarrow>
       rc \<noteq> SQLITE_ROW \<and> sqlite3_finalize S db1 st1 = db')"
| "yields S cols db st (r # rs) db' \<longleftrightarrow>
    (case sqlite3_step S db st of (rc, db1, st1) \<Rightarrow>
       rc = SQLITE_ROW \<and> map (column_string S st1) [0..<cols] = r \<and> yields S cols db1 st1 rs db')"

text \<open>
  The documented behaviour, for a handle \<open>db\<close> on an open database (\<open>ok\<close>) whose tables
  \<open>A db\<close> describes: a text of the fragment is prepared without an error, its rows come in an
  order of the engine's choice, and the tables change as the statement says.
\<close>

locale sqlite_api =
  fixes S :: "('db, 'st) sqlite" and A :: "'db \<Rightarrow> store" and ok :: "'db \<Rightarrow> bool"
  assumes step_rows: "\<lbrakk>ok db; parse_sql (c_str sql) = Some s; exec s (A db) = Some (rs, st')\<rbrakk> \<Longrightarrow>
      \<exists>stm db1 rs' db'. sqlite3_prepare_v2 S db (c_str sql) = (SQLITE_OK, stm, db1) \<and>
        yields S (sqlite3_column_count S stm) db1 stm rs' db' \<and>
        mset rs' = mset (map show_row rs) \<and> A db' = st' \<and> ok db'"
    and tables_wf: "ok db \<Longrightarrow> wf_store (A db)"

text \<open>The contract of \<open>DataBase::query\<close>, on which the components rely.\<close>

locale sql_query =
  fixes q :: "string \<Rightarrow> 'db \<Rightarrow> (string list list \<times> 'db) option"
    and A :: "'db \<Rightarrow> store" and ok :: "'db \<Rightarrow> bool"
  assumes query_rows: "\<lbrakk>ok db; parse_sql (c_str sql) = Some s; exec s (A db) = Some (rs, st')\<rbrakk> \<Longrightarrow>
      \<exists>rs' db'. q sql db = Some (rs', db') \<and> mset rs' = mset (map show_row rs) \<and>
        A db' = st' \<and> ok db'"
    and tables_wf_q: "ok db \<Longrightarrow> wf_store (A db)"

text \<open>The loop returns, and returns the rows in the order they were stepped through.\<close>

lemma fetch_yields:
  "yields S cols db st rs db' \<Longrightarrow>
   \<exists>db1 st1. fetch S cols db st results = Some (results @ rs, db1, st1) \<and>
     sqlite3_finalize S db1 st1 = db'"
proof (induction rs arbitrary: db st results)
  case Nil
  then show ?case by (subst fetch.simps) (auto split: prod.splits)
next
  case (Cons r rs)
  obtain rc db1 st1 where step: "sqlite3_step S db st = (rc, db1, st1)" by (metis prod_cases3)
  with Cons.prems have "rc = SQLITE_ROW" "map (column_string S st1) [0..<cols] = r"
    "yields S cols db1 st1 rs db'"
    by auto
  with Cons.IH [of db1 st1 "results @ [r]"] step show ?case
    by (subst fetch.simps) simp
qed

sublocale sqlite_api \<subseteq> stmt: sql_query "query S" A ok
proof unfold_locales
  fix db sql s rs st'
  assume "ok db" "parse_sql (c_str sql) = Some s" "exec s (A db) = Some (rs, st')"
  then obtain stm db1 rs' db' where prep: "sqlite3_prepare_v2 S db (c_str sql) = (SQLITE_OK, stm, db1)"
    and y: "yields S (sqlite3_column_count S stm) db1 stm rs' db'"
    and post: "mset rs' = mset (map show_row rs)" "A db' = st'" "ok db'"
    using step_rows by blast
  from fetch_yields [OF y, of "[]"] have "query S sql db = Some (rs', db')"
    by (auto simp: query_def prep)
  with post show "\<exists>rs' db'. query S sql db = Some (rs', db') \<and>
      mset rs' = mset (map show_row rs) \<and> A db' = st' \<and> ok db'" by blast
qed (rule tables_wf)

section \<open>A reference engine\<close>

text \<open>
  A concrete engine, to show that the contract can be met: it keeps the tables themselves,
  parses a text with \<open>parse_sql\<close>, runs \<open>exec\<close> at the first step and hands the rows out one
  by one.  A text outside the fragment is a syntax error.
\<close>

record ref_stmt =
  prog :: "stmt option"
  started :: bool
  pending :: "string list list"
  current :: "string list"

definition stmt_width :: "stmt \<Rightarrow> nat" where
  "stmt_width s = length (stmt_types s)"

definition ref_emit :: "store \<Rightarrow> ref_stmt \<Rightarrow> int \<times> store \<times> ref_stmt" where
  "ref_emit db st =
    (case pending st of
       [] \<Rightarrow> (SQLITE_DONE, db, st)
     | r # rs \<Rightarrow> (SQLITE_ROW, db, st\<lparr>current := r, pending := rs\<rparr>))"

definition ref_step :: "store \<Rightarrow> ref_stmt \<Rightarrow> int \<times> store \<times> ref_stmt" where
  "ref_step db st =
    (if started st then ref_emit db st
     else
       (case Option.bind (prog st) (\<lambda>s. exec s db) of
          None \<Rightarrow> (SQLITE_ERROR, db, st)
        | Some (rs, db') \<Rightarrow> ref_emit db' (st\<lparr>started := True, pending := map show_row rs\<rparr>)))"

definition ref_prepare :: "store \<Rightarrow> string \<Rightarrow> int \<times> ref_stmt \<times> store" where
  "ref_prepare db sql =
    (let st = \<lparr>prog = parse_sql sql, started = False, pending = [], current = []\<rparr>
     in (if prog st = None then SQLITE_ERROR else SQLITE_OK, st, db))"

definition empty_store :: store where
  "empty_store = \<lparr>created = (\<lambda>_. False), rows = (\<lambda>_. []), seq = (\<lambda>_. 0)\<rparr>"

definition ref_sqlite :: "(store, ref_stmt) sqlite" where
  "ref_sqlite =
     \<lparr>sqlite3_open = (\<lambda>_. (SQLITE_OK, empty_store)),
      sqlite3_prepare_v2 = ref_prepare,
      sqlite3_column_count = (\<lambda>st. case prog st of None \<Rightarrow> 0 | Some s \<Rightarrow> stmt_width s),
      sqlite3_step = ref_step,
      sqlite3_column_text = (\<lambda>st i. if i < length (current st) then Some (current st ! i) else None),
      sqlite3_finalize = (\<lambda>db st. db)\<rparr>"

lemma ref_sqlite_simps [simp]:
  "sqlite3_step ref_sqlite = ref_step"
  "sqlite3_prepare_v2 ref_sqlite = ref_prepare"
  "sqlite3_finalize ref_sqlite = (\<lambda>db st. db)"
  "sqlite3_column_count ref_sqlite st = (case prog st of None \<Rightarrow> 0 | Some s \<Rightarrow> stmt_width s)"
  "sqlite3_open ref_sqlite filename = (SQLITE_OK, empty_store)"
  by (simp_all add: ref_sqlite_def)

text \<open>The rows of a well-formed store hold no zero byte, so they pass through C strings.\<close>

definition clean_cells :: "string list \<Rightarrow> bool" where
  "clean_cells r \<longleftrightarrow> (\<forall>x \<in> set r. CHR 0x00 \<notin> set x)"

lemma ref_columns:
  "clean_cells (current st) \<Longrightarrow> length (current st) = w \<Longrightarrow>
   map (column_string ref_sqlite st) [0..<w] = current st"
  by (auto simp: column_string_def ref_sqlite_def clean_cells_def c_str_id intro: nth_equalityI)

lemma ref_yields_pending:
  "started st \<Longrightarrow> pending st = rs \<Longrightarrow> \<forall>r \<in> set rs. length r = w \<and> clean_cells r \<Longrightarrow>
   yields ref_sqlite w db st rs db"
proof (induction rs arbitrary: st)
  case Nil
  then show ?case by (simp add: ref_step_def ref_emit_def SQLITE_ROW_def SQLITE_DONE_def)
next
  case (Cons r rs)
  let ?st = "st\<lparr>current := r, pending := rs\<rparr>"
  have "yields ref_sqlite w db ?st rs db"
    using Cons.prems by (intro Cons.IH) simp_all
  moreover have "map (column_string ref_sqlite ?st) [0..<w] = r"
    using Cons.prems(3) ref_columns [of ?st w] by simp
  ultimately show ?case
    using Cons.prems(1,2) by (simp add: ref_step_def ref_emit_def)
qed

lemma show_value_clean: "nul_free v \<Longrightarrow> CHR 0x00 \<notin> set (show_value v)"
  by (cases v) (simp_all add: to_string_no_nul)

lemma exec_rows_clean:
  assumes "exec s st = Some (rs, st')" and "wf_store st" and "r \<in> set rs"
  shows "length (show_row r) = stmt_width s \<and> clean_cells (show_row r)"
proof -
  from exec_types [OF assms] have "map val_ty r = stmt_types s" "list_all nul_free r" by simp_all
  then show ?thesis
    using map_eq_imp_length_eq [of val_ty r id "stmt_types s"]
    by (auto simp: stmt_width_def show_row_def clean_cells_def show_value_clean list_all_iff)
qed

interpretation ref_engine: sqlite_api ref_sqlite "\<lambda>db. db" wf_store
proof unfold_locales
  fix db sql s rs st'
  assume wf: "wf_store db" and p: "parse_sql (c_str sql) = Some s"
    and ex: "exec s db = Some (rs, st')"
  let ?st = "\<lparr>prog = Some s, started = False, pending = [], current = []\<rparr>"
  let ?st1 = "?st\<lparr>started := True, pending := map show_row rs\<rparr>"
  have "yields ref_sqlite (stmt_width s) st' ?st1 (map show_row rs) st'"
    using ref_yields_pending [of ?st1 "map show_row rs" "stmt_width s" st'] exec_rows_clean [OF ex wf] by simp
  then have "yields ref_sqlite (stmt_width s) db ?st (map show_row rs) st'"
    using ex by (cases rs) (simp_all add: ref_step_def)
  then show "\<exists>stm db1 rs' db'. sqlite3_prepare_v2 ref_sqlite db (c_str sql) = (SQLITE_OK, stm, db1) \<and>
      yields ref_sqlite (sqlite3_column_count ref_sqlite stm) db1 stm rs' db' \<and>
      mset rs' = mset (map show_row rs) \<and> db' = st' \<and> wf_store db'"
    using p exec_wf_store [OF ex wf]
    by (intro exI [of _ ?st] exI [of _ db] exI [of _ "map show_row rs"] exI [of _ st'])
       (simp add: ref_prepare_def)
qed

end
