(* ===== verification/Schema.thy ===== *)
theory Schema
  imports Database
begin

text \<open>
  The constructor of \<open>DataBase\<close>: it opens the database and runs the five \<open>CREATE TABLE IF NOT
  EXISTS\<close> texts of \<open>SqlQuerys\<close>.  The texts are the ones of \<open>Database.h\<close>, tabs included.
\<close>

abbreviation tb :: string where
  "tb \<equiv> [CHR 0x09]"

definition SqlQuerys_PublicGroups :: string where
  "SqlQuerys_PublicGroups =
     ''CREATE TABLE IF NOT EXISTS PublicGroups'' @
     ''('' @
     ''code'' @ tb @ tb @ tb @ '' INTEGER PRIMARY KEY   AUTOINCREMENT,'' @
     ''name'' @ tb @ tb @ tb @ '' TEXT'' @ tb @ tb @ tb @ tb @ ''   NOT NULL,'' @
     ''admin'' @ tb @ tb @ tb @ '' TEXT,'' @
     ''creation_date   TEXT'' @ tb @ tb @ tb @ ''       NOT NULL,'' @
     ''number_of_users INTEGER'' @ tb @ tb @ tb @ ''   NOT NULL,'' @
     ''FOREIGN KEY(admin) REFERENCES Users(username)'' @
     '');''"

definition SqlQuerys_Users :: string where
  "SqlQuerys_Users =
     ''CREATE TABLE IF NOT EXISTS Users'' @
     ''('' @
     ''username TEXT PRIMARY KEY NOT NULL,'' @
     ''password TEXT'' @ tb @ tb @ tb @ ''   NOT NULL'' @
     '');''"

definition SqlQuerys_Users_In_Groups :: string where
  "SqlQuerys_Users_In_Groups =
     ''CREATE TABLE IF NOT EXISTS Users_In_Groups'' @
     ''('' @
     ''group_code INTEGER NOT NULL,'' @
     ''username TEXT NOT NULL,'' @
     ''status TEXT NOT NULL,'' @
     ''PRIMARY KEY(group_code, username),'' @
     ''FOREIGN KEY(group_code) REFERENCES PublicGroups(code),'' @
     ''FOREIGN KEY(username) REFERENCES Users(username)'' @
     '');''"

definition SqlQuerys_Lists :: string where
  "SqlQuerys_Lists =
     ''CREATE TABLE IF NOT EXISTS Lists'' @
     ''('' @
     ''group_code INTEGER NOT NULL,'' @
     ''item_name TEXT NOT NULL,'' @
     ''quantity INTEGER,'' @
     ''remarks TEXT,'' @
     ''PRIMARY KEY(group_code, item_name),'' @
     ''FOREIGN KEY(group_code) REFERENCES PublicGroups(code)'' @
     '');''"

definition SqlQuerys_UsersPackets :: string where
  "SqlQuerys_UsersPackets =
     ''CREATE TABLE IF NOT EXISTS UsersPackets'' @
     ''('' @
     ''code'' @ tb @ ''INTEGER PRIMARY KEY   AUTOINCREMENT,'' @
     ''username TEXT NOT NULL,'' @
     ''message TEXT NOT NULL,'' @
     ''FOREIGN KEY(username) REFERENCES Users(username)'' @
     '');''"

definition DB_NAME :: string where
  "DB_NAME = ''ILIST_SERVER_DATABASE.db''"

definition DataBase_open :: "('db, 'st) sqlite \<Rightarrow> bool \<times> 'db" where
  "DataBase_open S = (case sqlite3_open S DB_NAME of (rc, db) \<Rightarrow> (rc = SQLITE_OK, db))"

definition create_table ::
  "(string \<Rightarrow> 'db \<Rightarrow> (string list list \<times> 'db) option) \<Rightarrow> string \<Rightarrow> (cxx_exn, 'db, unit) prog" where
  "create_table q sql = thn (db_query q (c_str sql)) (ret ())"

definition drop_table ::
  "(string \<Rightarrow> 'db \<Rightarrow> (string list list \<times> 'db) option) \<Rightarrow> string \<Rightarrow> (cxx_exn, 'db, unit) prog" where
  "drop_table q tab = thn (db_query q (''DROP TABLE '' @ tab @ '';'')) (ret ())"

definition create_tables ::
  "(string \<Rightarrow> 'db \<Rightarrow> (string list list \<times> 'db) option) \<Rightarrow> (cxx_exn, 'db, unit) prog" where
  "create_tables q =
     thn (create_table q SqlQuerys_Users)
    (thn (create_table q SqlQuerys_PublicGroups)
    (thn (create_table q SqlQuerys_Users_In_Groups)
    (thn (create_table q SqlQuerys_Lists)
         (create_table q SqlQuerys_UsersPackets))))"

text \<open>The result of \<open>open()\<close> is not looked at.\<close>

definition DataBase_ctor :: "('db, 'st) sqlite \<Rightarrow> (cxx_exn, unit) outcome \<times> 'db" where
  "DataBase_ctor S = (case DataBase_open S of (_, db) \<Rightarrow> create_tables (query S) db)"

section \<open>Each text declares the table the model assumes\<close>

definition create_tokens :: "table \<Rightarrow> token list" where
  "create_tokens t = [Kw K_CREATE, Kw K_TABLE, Kw K_IF, Kw K_NOT, Kw K_EXISTS, Tab t, LPar] @
     schema_body t @ [RPar, Semi]"

lemma parse_create_tokens: "lex sql = Some (create_tokens t) \<Longrightarrow> parse_sql sql = Some (Create t)"
  by (simp add: create_tokens_def parse_sql_def parse_stmt_def parse_create_def expect_def
      parse_tab_def at_end_def)

lemma lex_SqlQuerys_Users: "lex SqlQuerys_Users = Some (create_tokens Users)"
  by (simp add: SqlQuerys_Users_def create_tokens_def text_simps cons_tok_def)

lemma lex_SqlQuerys_PublicGroups: "lex SqlQuerys_PublicGroups = Some (create_tokens PublicGroups)"
  by (simp add: SqlQuerys_PublicGroups_def create_tokens_def text_simps cons_tok_def)

lemma lex_SqlQuerys_Users_In_Groups: "lex SqlQuerys_Users_In_Groups = Some (create_tokens Users_In_Groups)"
  by (simp add: SqlQuerys_Users_In_Groups_def create_tokens_def text_simps cons_tok_def)

lemma lex_SqlQuerys_Lists: "lex SqlQuerys_Lists = Some (create_tokens Lists)"
  by (simp add: SqlQuerys_Lists_def create_tokens_def text_simps cons_tok_def)

lemma lex_SqlQuerys_UsersPackets: "lex SqlQuerys_UsersPackets = Some (create_tokens UsersPackets)"
  by (simp add: SqlQuerys_UsersPackets_def create_tokens_def text_simps cons_tok_def)

lemmas parse_SqlQuerys =
  lex_SqlQuerys_Users [THEN parse_create_tokens]
  lex_SqlQuerys_PublicGroups [THEN parse_create_tokens]
  lex_SqlQuerys_Users_In_Groups [THEN parse_create_tokens]
  lex_SqlQuerys_Lists [THEN parse_create_tokens]
  lex_SqlQuerys_UsersPackets [THEN parse_create_tokens]

lemma SqlQuerys_no_nul:
  "c_str SqlQuerys_Users = SqlQuerys_Users"
  "c_str SqlQuerys_PublicGroups = SqlQuerys_PublicGroups"
  "c_str SqlQuerys_Users_In_Groups = SqlQuerys_Users_In_Groups"
  "c_str SqlQuerys_Lists = SqlQuerys_Lists"
  "c_str SqlQuerys_UsersPackets = SqlQuerys_UsersPackets"
  by (simp_all add: c_str_def SqlQuerys_Users_def SqlQuerys_PublicGroups_def SqlQuerys_Users_In_Groups_def SqlQuerys_Lists_def SqlQuerys_UsersPackets_def)

definition ready :: "store \<Rightarrow> bool" where
  "ready st \<longleftrightarrow> (\<forall>t. created st t)"

definition create_effect :: "table \<Rightarrow> store \<Rightarrow> store" where
  "create_effect t st =
     (if created st t then st else (set_rows t [] st)\<lparr>created := (created st)(t := True)\<rparr>)"

definition create_all :: "store \<Rightarrow> store" where
  "create_all st = create_effect UsersPackets (create_effect Lists (create_effect Users_In_Groups
     (create_effect PublicGroups (create_effect Users st))))"

lemma created_create_effect: "created (create_effect t st) t' \<longleftrightarrow> t' = t \<or> created st t'"
  by (simp add: create_effect_def)

lemma ready_create_all: "ready (create_all st)"
  unfolding ready_def
proof
  fix t show "created (create_all st) t"
    by (cases t) (simp_all add: create_all_def created_create_effect)
qed

context sql_query
begin

lemma run_statement:
  assumes "ok db" and "parse_sql (c_str sql) = Some s" and "exec s (A db) = Some ([], st')"
  shows "\<exists>db'. db_query q sql db = (Ret [], db') \<and> A db' = st' \<and> ok db'"
  using query_rows [OF assms] by (auto simp: db_query_def)

lemma create_table_effect:
  assumes "ok db" and "parse_sql (c_str (c_str sql)) = Some (Create t)"
  shows "\<exists>db'. create_table q sql db = (Ret (), db') \<and> A db' = create_effect t (A db) \<and> ok db'"
proof -
  have "exec (Create t) (A db) = Some ([], create_effect t (A db))" by (simp add: create_effect_def)
  from run_statement [OF assms this] show ?thesis
    by (auto simp: create_table_def prog_simps)
qed

lemma create_tables_effect:
  assumes "ok db"
  shows "\<exists>db'. create_tables q db = (Ret (), db') \<and> A db' = create_all (A db) \<and> ok db'"
proof -
  note texts = parse_SqlQuerys SqlQuerys_no_nul
  obtain d1 where 1: "create_table q SqlQuerys_Users db = (Ret (), d1)"
    "A d1 = create_effect Users (A db)" "ok d1"
    using create_table_effect [OF assms, of SqlQuerys_Users Users] by (auto simp: texts)
  obtain d2 where 2: "create_table q SqlQuerys_PublicGroups d1 = (Ret (), d2)"
    "A d2 = create_effect PublicGroups (A d1)" "ok d2"
    using create_table_effect [OF 1(3), of SqlQuerys_PublicGroups PublicGroups] by (auto simp: texts)
  obtain d3 where 3: "create_table q SqlQuerys_Users_In_Groups d2 = (Ret (), d3)"
    "A d3 = create_effect Users_In_Groups (A d2)" "ok d3"
    using create_table_effect [OF 2(3), of SqlQuerys_Users_In_Groups Users_In_Groups] by (auto simp: texts)
  obtain d4 where 4: "create_table q SqlQuerys_Lists d3 = (Ret (), d4)"
    "A d4 = create_effect Lists (A d3)" "ok d4"
    using create_table_effect [OF 3(3), of SqlQuerys_Lists Lists] by (auto simp: texts)
  obtain d5 where 5: "create_table q SqlQuerys_UsersPackets d4 = (Ret (), d5)"
    "A d5 = create_effect UsersPackets (A d4)" "ok d5"
    using create_table_effect [OF 4(3), of SqlQuerys_UsersPackets UsersPackets] by (auto simp: texts)
  have "create_tables q db = (Ret (), d5)"
    by (simp add: create_tables_def prog_simps 1(1) 2(1) 3(1) 4(1) 5(1))
  then show ?thesis using 1(2) 2(2) 3(2) 4(2) 5(2,3) by (auto simp: create_all_def)
qed

end

end
