(* ===== verification/Tables.thy ===== *)
theory Tables
  imports Schema
begin

text \<open>
  The tables as maps.  Under its primary key a table is a finite map from keys to the
  remaining columns: \<open>view\<close> reads a store of rows that way.  The locale \<open>typed_table\<close> is the
  contract between the rows of a table and its map (look up by key, insert, delete, update);
  it is interpreted once for each of the five tables.
\<close>

section \<open>The view\<close>

record group_info =
  g_name :: string
  g_admin :: string
  g_date :: string
  g_users :: int

record ilist =
  users_tab :: "string \<Rightarrow> string option"
  groups_tab :: "int \<Rightarrow> group_info option"
  members_tab :: "int \<times> string \<Rightarrow> string option"
  items_tab :: "int \<times> string \<Rightarrow> (int \<times> string) option"
  packets_tab :: "int \<Rightarrow> (string \<times> string) option"
  last_group :: int
  last_packet :: int

fun v_int :: "sql_value \<Rightarrow> int" where
  "v_int (VInt n) = n"
| "v_int (VText s) = 0"

fun v_text :: "sql_value \<Rightarrow> string" where
  "v_text (VInt n) = ''''"
| "v_text (VText s) = s"

definition user_entry :: "row \<Rightarrow> string \<times> string" where
  "user_entry r = (v_text (r ! 0), v_text (r ! 1))"

definition group_entry :: "row \<Rightarrow> int \<times> group_info" where
  "group_entry r = (v_int (r ! 0),
     \<lparr>g_name = v_text (r ! 1), g_admin = v_text (r ! 2), g_date = v_text (r ! 3),
      g_users = v_int (r ! 4)\<rparr>)"

definition member_entry :: "row \<Rightarrow> (int \<times> string) \<times> string" where
  "member_entry r = ((v_int (r ! 0), v_text (r ! 1)), v_text (r ! 2))"

definition item_entry :: "row \<Rightarrow> (int \<times> string) \<times> (int \<times> string)" where
  "item_entry r = ((v_int (r ! 0), v_text (r ! 1)), (v_int (r ! 2), v_text (r ! 3)))"

definition packet_entry :: "row \<Rightarrow> int \<times> (string \<times> string)" where
  "packet_entry r = (v_int (r ! 0), (v_text (r ! 1), v_text (r ! 2)))"

fun user_row :: "string \<Rightarrow> string \<Rightarrow> row" where
  "user_row u p = [VText u, VText p]"

fun group_row :: "int \<Rightarrow> group_info \<Rightarrow> row" where
  "group_row g i = [VInt g, VText (g_name i), VText (g_admin i), VText (g_date i), VInt (g_users i)]"

fun member_row :: "int \<times> string \<Rightarrow> string \<Rightarrow> row" where
  "member_row (g, u) s = [VInt g, VText u, VText s]"

fun item_row :: "int \<times> string \<Rightarrow> int \<times> string \<Rightarrow> row" where
  "item_row (g, i) (n, r) = [VInt g, VText i, VInt n, VText r]"

fun packet_row :: "int \<Rightarrow> string \<times> string \<Rightarrow> row" where
  "packet_row c (u, m) = [VInt c, VText u, VText m]"

definition view :: "store \<Rightarrow> ilist" where
  "view st =
     \<lparr>users_tab = map_of (map user_entry (rows st Users)),
      groups_tab = map_of (map group_entry (rows st PublicGroups)),
      members_tab = map_of (map member_entry (rows st Users_In_Groups)),
      items_tab = map_of (map item_entry (rows st Lists)),
      packets_tab = map_of (map packet_entry (rows st UsersPackets)),
      last_group = seq st PublicGroups,
      last_packet = seq st UsersPackets\<rparr>"

section \<open>Rows and maps\<close>

text \<open>Replacing the entry of a key by one under another key, in an association list.\<close>

definition rekey :: "'k \<Rightarrow> 'k \<times> 'v \<Rightarrow> ('k \<times> 'v) list \<Rightarrow> ('k \<times> 'v) list" where
  "rekey k p ps = map (\<lambda>x. if fst x = k then p else x) ps"

lemma option_filter_eqI:
  assumes "\<And>v. a = Some v \<longleftrightarrow> b = Some v \<and> \<not> c v"
  shows "a = (case b of None \<Rightarrow> None | Some v \<Rightarrow> if c v then None else Some v)"
proof (cases a)
  case None
  then have "b = Some v \<Longrightarrow> c v" for v using assms [of v] by simp
  with None show ?thesis by (simp split: option.split)
next
  case (Some v)
  then show ?thesis using assms [of v] by simp
qed

lemma rekey_absent: "k \<notin> fst ` set ps \<Longrightarrow> rekey k p ps = ps"
  unfolding rekey_def by (rule map_idI) auto

lemma rekey_simps [simp]:
  "rekey k p [] = []" "rekey k p (x # xs) = (if fst x = k then p else x) # rekey k p xs"
  by (simp_all add: rekey_def)

lemma rekey_distinct:
  "distinct (map fst ps) \<Longrightarrow> k \<in> fst ` set ps \<Longrightarrow>
   distinct (map fst (rekey k (k', v') ps)) \<longleftrightarrow> k' = k \<or> k' \<notin> fst ` set ps"
proof (induction ps)
  case (Cons x xs)
  show ?case
  proof (cases "fst x = k")
    case True
    then have "rekey k (k', v') xs = xs" using Cons.prems(1) by (intro rekey_absent) auto
    with True Cons.prems show ?thesis by (auto simp: rev_image_eqI)
  next
    case False
    then have "k \<in> fst ` set xs" using Cons.prems(2) by auto
    moreover have "fst ` set (rekey k (k', v') xs) = (\<lambda>y. if y = k then k' else y) ` fst ` set xs"
      unfolding rekey_def set_map image_image by (rule image_cong) auto
    then have "fst ` set (rekey k (k', v') xs) = insert k' (fst ` set xs - {k})"
      using \<open>k \<in> fst ` set xs\<close> by auto
    ultimately show ?thesis using False Cons by auto
  qed
qed simp

lemma map_of_rekey:
  "distinct (map fst ps) \<Longrightarrow> k \<in> fst ` set ps \<Longrightarrow> k' = k \<or> k' \<notin> fst ` set ps \<Longrightarrow>
   map_of (rekey k (k', v') ps) = (map_of ps)(k := None, k' \<mapsto> v')"
proof (induction ps)
  case (Cons x xs)
  show ?case
  proof (cases "fst x = k")
    case True
    then have "k \<notin> fst ` set xs" using Cons.prems(1) by auto
    then have "rekey k (k', v') xs = xs" "map_of xs k = None"
      by (simp_all add: rekey_absent map_of_eq_None_iff)
    with True show ?thesis by (cases x) (auto simp: fun_eq_iff)
  next
    case False
    then have "map_of (rekey k (k', v') xs) = (map_of xs)(k := None, k' \<mapsto> v')"
      using Cons by (intro Cons.IH) auto
    moreover have "fst x \<noteq> k'" using False Cons.prems(3) by auto
    ultimately show ?thesis using False by (cases x) (auto simp: fun_eq_iff)
  qed
qed simp

locale typed_table =
  fixes t :: table and entry :: "row \<Rightarrow> 'k \<times> 'v" and mk :: "'k \<Rightarrow> 'v \<Rightarrow> row"
  assumes mk_entry: "wt_row t r \<Longrightarrow> mk (fst (entry r)) (snd (entry r)) = r"
    and entry_mk: "entry (mk k v) = (k, v)"
    and key_iff: "\<lbrakk>wt_row t r; wt_row t r'\<rbrakk> \<Longrightarrow> key_of t r = key_of t r' \<longleftrightarrow> fst (entry r) = fst (entry r')"
begin

lemma distinct_keys_iff:
  "\<forall>r \<in> set rs. wt_row t r \<Longrightarrow> distinct (map (key_of t) rs) \<longleftrightarrow> distinct (map fst (map entry rs))"
  by (induction rs) (auto simp: key_iff image_iff)

lemma distinct_entries:
  assumes "wf_table t rs"
  shows "distinct (map fst (map entry rs))"
proof -
  have "distinct (map (key_of t) rs)" and "\<forall>r \<in> set rs. wt_row t r"
    using assms by (auto simp: wf_table_def)
  then show ?thesis
    by (auto simp: distinct_map inj_on_def key_iff)
qed

lemma lookup_iff:
  assumes "wf_table t rs"
  shows "map_of (map entry rs) k = Some v \<longleftrightarrow> mk k v \<in> set rs"
proof -
  have wt: "\<forall>r \<in> set rs. wt_row t r" using assms by (simp add: wf_table_def)
  have "map_of (map entry rs) k = Some v \<longleftrightarrow> (k, v) \<in> set (map entry rs)"
    using distinct_entries [OF assms] by (metis map_of_eq_Some_iff)
  also have "\<dots> \<longleftrightarrow> mk k v \<in> set rs"
    using wt mk_entry entry_mk by (metis fst_conv image_iff image_set snd_conv)
  finally show ?thesis .
qed

lemma key_present:
  assumes wf: "wf_table t rs" and "wt_row t (mk k v)"
  shows "key_of t (mk k v) \<in> set (map (key_of t) rs) \<longleftrightarrow> map_of (map entry rs) k \<noteq> None"
proof -
  have wt: "\<forall>r \<in> set rs. wt_row t r" using wf by (simp add: wf_table_def)
  have "key_of t (mk k v) \<in> set (map (key_of t) rs) \<longleftrightarrow> (\<exists>r \<in> set rs. fst (entry r) = k)"
    using wt assms(2) by (auto simp: image_iff key_iff entry_mk)
  also have "\<dots> \<longleftrightarrow> map_of (map entry rs) k \<noteq> None"
    by (auto simp: map_of_eq_None_iff)
  finally show ?thesis .
qed

lemma lookup_add:
  "map_of (map entry rs) k = None \<Longrightarrow>
   map_of (map entry (rs @ [mk k v])) = (map_of (map entry rs))(k \<mapsto> v)"
  by (auto simp: entry_mk map_add_def fun_eq_iff split: option.split)

lemma lookup_delete:
  assumes "\<And>r. r \<in> set rs \<Longrightarrow> P r \<longleftrightarrow> Q (fst (entry r))"
  shows "map_of (map entry (filter (\<lambda>r. \<not> P r) rs)) = (\<lambda>k. if Q k then None else map_of (map entry rs) k)"
  using assms
proof (induction rs)
  case (Cons r rs)
  then show ?case by (cases "entry r") (auto simp: fun_eq_iff)
qed (simp add: fun_eq_iff)

lemma lookup_filter:
  assumes wf: "wf_table t rs"
  shows "map_of (map entry (filter (\<lambda>r. \<not> P r) rs)) =
    (\<lambda>k. case map_of (map entry rs) k of None \<Rightarrow> None | Some v \<Rightarrow> if P (mk k v) then None else Some v)"
proof
  fix k
  show "map_of (map entry (filter (\<lambda>r. \<not> P r) rs)) k =
      (case map_of (map entry rs) k of None \<Rightarrow> None | Some v \<Rightarrow> if P (mk k v) then None else Some v)"
    using lookup_iff [OF wf] lookup_iff [OF wf_table_filter [OF wf], of "\<lambda>r. \<not> P r"]
    by (intro option_filter_eqI) simp
qed

lemma lookup_update:
  assumes "\<And>r. r \<in> set rs \<Longrightarrow> P r \<longleftrightarrow> Q (fst (entry r))"
    and "\<And>r. r \<in> set rs \<Longrightarrow> P r \<Longrightarrow> entry (f r) = (fst (entry r), h (snd (entry r)))"
  shows "map_of (map entry (map (\<lambda>r. if P r then f r else r) rs)) =
    (\<lambda>k. if Q k then map_option h (map_of (map entry rs) k) else map_of (map entry rs) k)"
  using assms
proof (induction rs)
  case (Cons r rs)
  have IH: "map_of (map entry (map (\<lambda>r. if P r then f r else r) rs)) =
    (\<lambda>k. if Q k then map_option h (map_of (map entry rs) k) else map_of (map entry rs) k)"
    using Cons.prems by (intro Cons.IH) auto
  obtain k v where kv: "entry r = (k, v)" by force
  have "P r \<longleftrightarrow> Q k" and "P r \<Longrightarrow> entry (f r) = (k, h v)"
    using Cons.prems [of r] kv by auto
  with IH kv show ?case by (auto simp: fun_eq_iff)
qed (simp add: fun_eq_iff)

lemma select_key:
  assumes wf: "wf_table t rs" and P: "\<And>r. r \<in> set rs \<Longrightarrow> P r \<longleftrightarrow> fst (entry r) = k"
  shows "filter P rs = (case map_of (map entry rs) k of None \<Rightarrow> [] | Some v \<Rightarrow> [mk k v])"
proof (cases "map_of (map entry rs) k")
  case None
  then have "\<forall>r \<in> set rs. \<not> P r" using P by (auto simp: map_of_eq_None_iff)
  with None show ?thesis by (simp add: filter_empty_conv)
next
  case (Some v)
  then have mem: "mk k v \<in> set rs" using lookup_iff [OF wf] by simp
  have "filter P rs = filter (\<lambda>r. fst (entry r) = k) rs" using P by (intro filter_cong) auto
  also have "\<dots> = [mk k v]"
    using distinct_entries [OF wf] mem
    by (intro distinct_map_filter_eq [of "\<lambda>r. fst (entry r)"]) (simp_all add: entry_mk comp_def)
  finally show ?thesis using Some by simp
qed

lemma select_set:
  assumes wf: "wf_table t rs" and P: "\<And>r. r \<in> set rs \<Longrightarrow> P r \<longleftrightarrow> Q (fst (entry r))"
  shows "set (filter P rs) = {mk k v | k v. Q k \<and> map_of (map entry rs) k = Some v}"
    and "distinct (filter P rs)"
proof -
  have wt: "\<forall>r \<in> set rs. wt_row t r" using wf by (simp add: wf_table_def)
  have "\<exists>k v. r = mk k v \<and> Q k \<and> mk k v \<in> set rs" if "r \<in> set (filter P rs)" for r
  proof (intro exI conjI)
    show "r = mk (fst (entry r)) (snd (entry r))" using that wt mk_entry by auto
    then show "mk (fst (entry r)) (snd (entry r)) \<in> set rs" using that by auto
    show "Q (fst (entry r))" using that P by auto
  qed
  moreover have "P (mk k v)" if "Q k" "mk k v \<in> set rs" for k v
    using that P by (simp add: entry_mk)
  ultimately have "r \<in> set (filter P rs) \<longleftrightarrow> (\<exists>k v. r = mk k v \<and> Q k \<and> mk k v \<in> set rs)" for r
    by auto
  then show "set (filter P rs) = {mk k v | k v. Q k \<and> map_of (map entry rs) k = Some v}"
    by (auto simp: lookup_iff [OF wf])
  show "distinct (filter P rs)" using wf by (auto simp: wf_table_def distinct_map)
qed

lemma update_distinct:
  assumes wf: "wf_table t rs"
    and "\<And>r. r \<in> set rs \<Longrightarrow> P r \<Longrightarrow> key_of t (f r) = key_of t r"
  shows "distinct (map (key_of t) (map (\<lambda>r. if P r then f r else r) rs))"
proof -
  have "map (key_of t) (map (\<lambda>r. if P r then f r else r) rs) = map (key_of t) rs"
    using assms(2) by simp
  with wf show ?thesis unfolding wf_table_def by (simp only:)
qed

lemma update_rekey:
  assumes wf: "wf_table t rs" and P: "\<And>r. r \<in> set rs \<Longrightarrow> P r \<longleftrightarrow> fst (entry r) = k"
    and f: "\<And>r. r \<in> set rs \<Longrightarrow> P r \<Longrightarrow> entry (f r) = (k', v') \<and> wt_row t (f r)"
    and old: "map_of (map entry rs) k \<noteq> None"
  shows "distinct (map (key_of t) (map (\<lambda>r. if P r then f r else r) rs)) \<longleftrightarrow>
      k' = k \<or> map_of (map entry rs) k' = None"
    and "k' = k \<or> map_of (map entry rs) k' = None \<Longrightarrow>
      map_of (map entry (map (\<lambda>r. if P r then f r else r) rs)) =
      (map_of (map entry rs))(k := None, k' \<mapsto> v')"
proof -
  let ?rs = "map (\<lambda>r. if P r then f r else r) rs"
  have wt: "\<forall>r \<in> set rs. wt_row t r" using wf by (simp add: wf_table_def)
  have "\<forall>r \<in> set ?rs. wt_row t r" using f wt by auto
  have rekey: "map entry ?rs = rekey k (k', v') (map entry rs)"
    using P f by (auto simp: rekey_def)
  have keys: "distinct (map fst (map entry rs))" by (rule distinct_entries [OF wf])
  have mem: "x \<in> fst ` set (map entry rs) \<longleftrightarrow> map_of (map entry rs) x \<noteq> None" for x
    by (auto simp: map_of_eq_None_iff)
  have "distinct (map (key_of t) ?rs) \<longleftrightarrow> distinct (map fst (map entry ?rs))"
    using \<open>\<forall>r \<in> set ?rs. wt_row t r\<close> by (rule distinct_keys_iff)
  also have "\<dots> \<longleftrightarrow> k' = k \<or> map_of (map entry rs) k' = None"
    unfolding rekey using rekey_distinct [OF keys, of k] old mem by blast
  finally show "distinct (map (key_of t) ?rs) \<longleftrightarrow> k' = k \<or> map_of (map entry rs) k' = None" .
  show "k' = k \<or> map_of (map entry rs) k' = None \<Longrightarrow>
      map_of (map entry ?rs) = (map_of (map entry rs))(k := None, k' \<mapsto> v')"
    unfolding rekey using map_of_rekey [OF keys, of k] old mem by blast
qed

end

text \<open>The shape of a well-typed row.\<close>

lemma list_len2: "length xs = 2 \<Longrightarrow> \<exists>a b. xs = [a, b]"
  by (auto simp: numeral_2_eq_2 length_Suc_conv)

lemma val_ty_iff: "val_ty v = T_INTEGER \<longleftrightarrow> (\<exists>n. v = VInt n)" "val_ty v = T_TEXT \<longleftrightarrow> (\<exists>s. v = VText s)"
  by (cases v; simp)+

lemma wt_row_shape:
  "wt_row Users r \<longleftrightarrow> (\<exists>u p. r = [VText u, VText p] \<and> CHR 0x00 \<notin> set u \<and> CHR 0x00 \<notin> set p)"
  "wt_row PublicGroups r \<longleftrightarrow> (\<exists>g n a d k. r = [VInt g, VText n, VText a, VText d, VInt k] \<and>
     CHR 0x00 \<notin> set n \<and> CHR 0x00 \<notin> set a \<and> CHR 0x00 \<notin> set d)"
  "wt_row Users_In_Groups r \<longleftrightarrow> (\<exists>g u s. r = [VInt g, VText u, VText s] \<and>
     CHR 0x00 \<notin> set u \<and> CHR 0x00 \<notin> set s)"
  "wt_row Lists r \<longleftrightarrow> (\<exists>g i n m. r = [VInt g, VText i, VInt n, VText m] \<and>
     CHR 0x00 \<notin> set i \<and> CHR 0x00 \<notin> set m)"
  "wt_row UsersPackets r \<longleftrightarrow> (\<exists>c u m. r = [VInt c, VText u, VText m] \<and>
     CHR 0x00 \<notin> set u \<and> CHR 0x00 \<notin> set m)"
  by (auto simp: wt_row_def map_eq_Cons_conv val_ty_iff)

lemmas entry_defs = user_entry_def group_entry_def member_entry_def item_entry_def packet_entry_def

lemma key_of_row [simp]:
  "key_of Users [VText u, VText p] = [Some (VText u)]"
  "key_of PublicGroups [VInt g, VText n, VText a, VText d, VInt k] = [Some (VInt g)]"
  "key_of Users_In_Groups [VInt g, VText u, VText s] = [Some (VInt g), Some (VText u)]"
  "key_of Lists [VInt g, VText i, VInt k, VText x] = [Some (VInt g), Some (VText i)]"
  "key_of UsersPackets [VInt c, VText u, VText m] = [Some (VInt c)]"
  by (simp_all add: key_of_def cell_def)

interpretation users_t: typed_table Users user_entry user_row
  by unfold_locales (auto simp: wt_row_shape user_entry_def)

interpretation groups_t: typed_table PublicGroups group_entry group_row
  by unfold_locales (auto simp: wt_row_shape group_entry_def)

interpretation members_t: typed_table Users_In_Groups member_entry "\<lambda>k v. member_row k v"
  by unfold_locales (auto simp: wt_row_shape member_entry_def)

interpretation items_t: typed_table Lists item_entry "\<lambda>k v. item_row k v"
  by unfold_locales (auto simp: wt_row_shape item_entry_def)

interpretation packets_t: typed_table UsersPackets packet_entry "\<lambda>k v. packet_row k v"
  by unfold_locales (auto simp: wt_row_shape packet_entry_def)

end
