(* ===== verification/Contracts.thy ===== *)
theory Contracts
  imports Tables
begin

text \<open>
  From statements to maps: what each statement of the sources does to the \<open>view\<close> of a
  well-formed store, and how \<open>DataBase::query\<close> delivers it for any engine that meets the
  contract.  \<open>after q sql db\<close> names the database after a query, so that an operation can be
  run by rewriting.
\<close>

section \<open>Rows selected by a key\<close>

lemma wf_tab: "wf_store st \<Longrightarrow> wf_table t (rows st t)"
  by (simp add: wf_store_def)

lemma wt_of: "wf_store st \<Longrightarrow> r \<in> set (rows st t) \<Longrightarrow> wt_row t r"
  by (simp add: wf_store_def wf_table_def)

lemmas holds_simps = holds_def cell_def entry_defs

lemma project_None: "project t None = (\<lambda>r. r)"
  by (simp add: project_def fun_eq_iff)

lemma exec_Select_all: "ready st \<Longrightarrow> cond_ok t w \<Longrightarrow>
  exec (Select None t w) st = Some (filter (holds t w) (rows st t), st)"
  by (simp add: ready_def project_None)

lemma exec_Select_cols: "ready st \<Longrightarrow> cond_ok t w \<Longrightarrow> known_cols t cs \<Longrightarrow>
  exec (Select (Some cs) t w) st = Some (map (project t (Some cs)) (filter (holds t w) (rows st t)), st)"
  by (simp add: ready_def)

lemma filter_user:
  assumes "wf_store st"
  shows "filter (holds Users [[(OCol C_username, OLit (VText u))]]) (rows st Users) =
    (case users_tab (view st) u of None \<Rightarrow> [] | Some p \<Rightarrow> [user_row u p])"
  unfolding view_def ilist.simps
  by (rule users_t.select_key [OF wf_tab [OF assms]])
     (auto dest!: wt_of [OF assms] simp: wt_row_shape holds_simps)

lemma filter_member:
  assumes "wf_store st"
  shows "filter (holds Users_In_Groups [[(OCol C_username, OLit (VText u)),
      (OCol C_group_code, OLit (VInt g))]]) (rows st Users_In_Groups) =
    (case members_tab (view st) (g, u) of None \<Rightarrow> [] | Some s \<Rightarrow> [member_row (g, u) s])"
  unfolding view_def ilist.simps
  by (rule members_t.select_key [OF wf_tab [OF assms]])
     (auto dest!: wt_of [OF assms] simp: wt_row_shape holds_simps)

lemma filter_member_swapped:
  assumes "wf_store st"
  shows "filter (holds Users_In_Groups [[(OCol C_group_code, OLit (VInt g)),
      (OCol C_username, OLit (VText u))]]) (rows st Users_In_Groups) =
    (case members_tab (view st) (g, u) of None \<Rightarrow> [] | Some s \<Rightarrow> [member_row (g, u) s])"
  unfolding view_def ilist.simps
  by (rule members_t.select_key [OF wf_tab [OF assms]])
     (auto dest!: wt_of [OF assms] simp: wt_row_shape holds_simps)

lemma filter_group:
  assumes "wf_store st"
  shows "filter (holds PublicGroups [[(OCol C_code, OLit (VInt g))]]) (rows st PublicGroups) =
    (case groups_tab (view st) g of None \<Rightarrow> [] | Some i \<Rightarrow> [group_row g i])"
  unfolding view_def ilist.simps
  by (rule groups_t.select_key [OF wf_tab [OF assms]])
     (auto dest!: wt_of [OF assms] simp: wt_row_shape holds_simps)

lemma filter_item:
  assumes "wf_store st"
  shows "filter (holds Lists [[(OCol C_group_code, OLit (VInt g)),
      (OCol C_item_name, OLit (VText i))]]) (rows st Lists) =
    (case items_tab (view st) (g, i) of None \<Rightarrow> [] | Some x \<Rightarrow> [item_row (g, i) x])"
  unfolding view_def ilist.simps
  by (rule items_t.select_key [OF wf_tab [OF assms]])
     (auto dest!: wt_of [OF assms] simp: wt_row_shape holds_simps)

section \<open>Changes of a table\<close>

lemma ready_simps [simp]:
  "ready (set_rows t rs st) = ready st" "ready (add_row t r st) = ready st"
  "ready (st\<lparr>seq := z\<rparr>) = ready st"
  by (simp_all add: ready_def)

lemma view_set_rows [simp]:
  "view (set_rows Users rs st) = (view st)\<lparr>users_tab := map_of (map user_entry rs)\<rparr>"
  "view (set_rows PublicGroups rs st) = (view st)\<lparr>groups_tab := map_of (map group_entry rs)\<rparr>"
  "view (set_rows Users_In_Groups rs st) = (view st)\<lparr>members_tab := map_of (map member_entry rs)\<rparr>"
  "view (set_rows Lists rs st) = (view st)\<lparr>items_tab := map_of (map item_entry rs)\<rparr>"
  "view (set_rows UsersPackets rs st) = (view st)\<lparr>packets_tab := map_of (map packet_entry rs)\<rparr>"
  by (simp_all add: view_def)

lemma tab_view:
  "users_tab (view st) = map_of (map user_entry (rows st Users))"
  "groups_tab (view st) = map_of (map group_entry (rows st PublicGroups))"
  "members_tab (view st) = map_of (map member_entry (rows st Users_In_Groups))"
  "items_tab (view st) = map_of (map item_entry (rows st Lists))"
  "packets_tab (view st) = map_of (map packet_entry (rows st UsersPackets))"
  by (simp_all add: view_def)

text \<open>Inserting a member, an account or an item: the key decides.\<close>

lemma insert_user:
  assumes "wf_store st" and "ready st" and "CHR 0x00 \<notin> set u" and "CHR 0x00 \<notin> set p"
  shows "\<exists>st'. exec (InsertRow Users [VText u, VText p]) st = Some ([], st') \<and> ready st' \<and>
    view st' = (if users_tab (view st) u = None
      then (view st)\<lparr>users_tab := (users_tab (view st))(u \<mapsto> p)\<rparr> else view st)"
proof -
  have wt: "wt_row Users (user_row u p)" using assms by (auto simp: wt_row_shape)
  note key = users_t.key_present [OF wf_tab [OF assms(1)] wt]
  show ?thesis
    using assms(2) wt key users_t.lookup_add [of "rows st Users" u p]
    by (auto simp: ready_def add_row_def tab_view)
qed

lemma insert_member:
  assumes "wf_store st" and "ready st" and "CHR 0x00 \<notin> set u" and "CHR 0x00 \<notin> set s"
  shows "\<exists>st'. exec (InsertRow Users_In_Groups [VInt g, VText u, VText s]) st = Some ([], st') \<and>
    ready st' \<and>
    view st' = (if members_tab (view st) (g, u) = None
      then (view st)\<lparr>members_tab := (members_tab (view st))((g, u) \<mapsto> s)\<rparr> else view st)"
proof -
  have wt: "wt_row Users_In_Groups (member_row (g, u) s)" using assms by (auto simp: wt_row_shape)
  note key = members_t.key_present [OF wf_tab [OF assms(1)] wt]
  show ?thesis
    using assms(2) wt key members_t.lookup_add [of "rows st Users_In_Groups" "(g, u)" s]
    by (auto simp: ready_def add_row_def tab_view)
qed

lemma insert_item:
  assumes "wf_store st" and "ready st" and "CHR 0x00 \<notin> set i" and "CHR 0x00 \<notin> set m"
  shows "\<exists>st'. exec (InsertRow Lists [VInt g, VText i, VInt n, VText m]) st = Some ([], st') \<and>
    ready st' \<and>
    view st' = (if items_tab (view st) (g, i) = None
      then (view st)\<lparr>items_tab := (items_tab (view st))((g, i) \<mapsto> (n, m))\<rparr> else view st)"
proof -
  have wt: "wt_row Lists (item_row (g, i) (n, m))" using assms by (auto simp: wt_row_shape)
  note key = items_t.key_present [OF wf_tab [OF assms(1)] wt]
  show ?thesis
    using assms(2) wt key items_t.lookup_add [of "rows st Lists" "(g, i)" "(n, m)"]
    by (auto simp: ready_def add_row_def tab_view)
qed

text \<open>Inserting a group or a stored packet: the engine chooses the code.\<close>

definition group_codes_ok :: "ilist \<Rightarrow> bool" where
  "group_codes_ok v \<longleftrightarrow> finite (dom (groups_tab v)) \<and> 0 \<le> last_group v \<and> last_group v < 2 ^ 63 \<and>
     (\<forall>g \<in> dom (groups_tab v). 0 < g \<and> g \<le> last_group v)"

lemma view_codes_ok:
  assumes "wf_store st"
  shows "group_codes_ok (view st)"
proof -
  have "0 < g \<and> g \<le> seq st PublicGroups"
    if "map_of (map group_entry (rows st PublicGroups)) g = Some i" for g i
  proof -
    have "group_row g i \<in> set (rows st PublicGroups)"
      using that groups_t.lookup_iff [OF wf_tab [OF assms]] by simp
    moreover have "int_cell PublicGroups C_code (group_row g i) = g"
      by (simp add: int_cell_auto)
    ultimately show ?thesis using assms by (force simp: wf_store_def)
  qed
  moreover have "0 \<le> seq st PublicGroups \<and> seq st PublicGroups < 2 ^ 63"
    using assms by (simp add: wf_store_def)
  ultimately show ?thesis
    by (auto simp: group_codes_ok_def view_def finite_dom_map_of)
qed

lemma insert_group:
  assumes wf: "wf_store st" and "ready st"
    and "CHR 0x00 \<notin> set n" and "CHR 0x00 \<notin> set a" and "CHR 0x00 \<notin> set d"
  shows "\<exists>st'. exec (InsertAuto PublicGroups [C_name, C_admin, C_creation_date, C_number_of_users]
      [VText n, VText a, VText d, VInt k]) st = Some ([], st') \<and> ready st' \<and>
    view st' = (let v = view st; c = last_group v + 1 in
      if c < 2 ^ 63
      then v\<lparr>groups_tab := (groups_tab v)(c \<mapsto> \<lparr>g_name = n, g_admin = a, g_date = d, g_users = k\<rparr>),
             last_group := c\<rparr>
      else v)"
proof -
  let ?c = "seq st PublicGroups + 1"
  let ?i = "\<lparr>g_name = n, g_admin = a, g_date = d, g_users = k\<rparr>"
  have wt: "wt_row PublicGroups (group_row ?c ?i)" using assms by (auto simp: wt_row_shape)
  have "map_of (map group_entry (rows st PublicGroups)) ?c = None"
    using groups_t.key_present [OF wf_tab [OF wf] wt]
      auto_key_fresh [of PublicGroups st "[VText n, VText a, VText d, VInt k]"] wf
    by (simp add: next_code_def)
  then have "map_of (map group_entry (rows st PublicGroups @ [group_row ?c ?i])) =
      (map_of (map group_entry (rows st PublicGroups)))(?c \<mapsto> ?i)"
    by (rule groups_t.lookup_add)
  then show ?thesis
    using assms(2) wt
    by (auto simp: ready_def next_code_def add_row_def view_def set_rows_def Let_def)
qed

lemma insert_packet:
  assumes wf: "wf_store st" and "ready st" and "CHR 0x00 \<notin> set u" and "CHR 0x00 \<notin> set m"
  shows "\<exists>st'. exec (InsertAuto UsersPackets [C_username, C_message] [VText u, VText m]) st =
      Some ([], st') \<and> ready st' \<and>
    view st' = (let v = view st; c = last_packet v + 1 in
      if c < 2 ^ 63
      then v\<lparr>packets_tab := (packets_tab v)(c \<mapsto> (u, m)), last_packet := c\<rparr> else v)"
proof -
  let ?c = "seq st UsersPackets + 1"
  have wt: "wt_row UsersPackets (packet_row ?c (u, m))" using assms by (auto simp: wt_row_shape)
  have "map_of (map packet_entry (rows st UsersPackets)) ?c = None"
    using packets_t.key_present [OF wf_tab [OF wf] wt]
      auto_key_fresh [of UsersPackets st "[VText u, VText m]"] wf
    by (simp add: next_code_def del: not_None_eq)
  then have "map_of (map packet_entry (rows st UsersPackets @ [packet_row ?c (u, m)])) =
      (map_of (map packet_entry (rows st UsersPackets)))(?c \<mapsto> (u, m))"
    by (rule packets_t.lookup_add)
  then show ?thesis
    using assms(2) wt
    by (auto simp: ready_def next_code_def add_row_def view_def set_rows_def Let_def)
qed

lemma select_max_group:
  assumes "wf_store st" and "ready st"
  shows "exec (SelectMax C_code PublicGroups) st =
    Some (if dom (groups_tab (view st)) = {} then [] else [[VInt (Max (dom (groups_tab (view st))))]], st)"
proof -
  have "int_cell PublicGroups C_code r = fst (group_entry r)" if "r \<in> set (rows st PublicGroups)" for r
    using wt_of [OF assms(1) that] by (auto simp: wt_row_shape int_cell_auto group_entry_def)
  then have "set (map (int_cell PublicGroups C_code) (rows st PublicGroups)) =
      fst ` set (map group_entry (rows st PublicGroups))"
    by force
  also have "\<dots> = dom (groups_tab (view st))" by (simp add: view_def dom_map_of_conv_image_fst)
  finally show ?thesis
    using assms(2) by (auto simp: ready_def tab_view)
qed

text \<open>Deletions.\<close>

lemma delete_group:
  assumes "wf_store st" and "ready st"
  shows "\<exists>st'. exec (Delete PublicGroups [[(OCol C_code, OLit (VInt g))]]) st = Some ([], st') \<and>
    ready st' \<and> view st' = (view st)\<lparr>groups_tab := (groups_tab (view st))(g := None)\<rparr>"
proof -
  have "map_of (map group_entry (filter (\<lambda>r. \<not> holds PublicGroups [[(OCol C_code, OLit (VInt g))]] r)
      (rows st PublicGroups))) = (\<lambda>k. if k = g then None else map_of (map group_entry (rows st PublicGroups)) k)"
    by (rule groups_t.lookup_delete) (auto dest!: wt_of [OF assms(1)] simp: wt_row_shape holds_simps)
  then show ?thesis using assms(2) by (auto simp: ready_def cond_ok_def tab_view fun_upd_def)
qed

lemma delete_members:
  assumes "wf_store st" and "ready st"
  shows "\<exists>st'. exec (Delete Users_In_Groups [[(OCol C_group_code, OLit (VInt g))]]) st = Some ([], st') \<and>
    ready st' \<and>
    view st' = (view st)\<lparr>members_tab := (\<lambda>k. if fst k = g then None else members_tab (view st) k)\<rparr>"
proof -
  have "map_of (map member_entry (filter (\<lambda>r. \<not> holds Users_In_Groups [[(OCol C_group_code, OLit (VInt g))]] r)
      (rows st Users_In_Groups))) =
      (\<lambda>k. if fst k = g then None else map_of (map member_entry (rows st Users_In_Groups)) k)"
    by (rule members_t.lookup_delete) (auto dest!: wt_of [OF assms(1)] simp: wt_row_shape holds_simps)
  then show ?thesis using assms(2) by (auto simp: ready_def cond_ok_def tab_view cong: if_cong)
qed

lemma delete_member:
  assumes "wf_store st" and "ready st"
  shows "\<exists>st'. exec (Delete Users_In_Groups [[(OCol C_group_code, OLit (VInt g)),
      (OCol C_username, OLit (VText u))]]) st = Some ([], st') \<and> ready st' \<and>
    view st' = (view st)\<lparr>members_tab := (members_tab (view st))((g, u) := None)\<rparr>"
proof -
  have "map_of (map member_entry (filter (\<lambda>r. \<not> holds Users_In_Groups [[(OCol C_group_code, OLit (VInt g)),
      (OCol C_username, OLit (VText u))]] r) (rows st Users_In_Groups))) =
      (\<lambda>k. if k = (g, u) then None else map_of (map member_entry (rows st Users_In_Groups)) k)"
    by (rule members_t.lookup_delete) (auto dest!: wt_of [OF assms(1)] simp: wt_row_shape holds_simps)
  then show ?thesis using assms(2) by (auto simp: ready_def cond_ok_def tab_view fun_upd_def)
qed

lemma delete_items:
  assumes "wf_store st" and "ready st"
  shows "\<exists>st'. exec (Delete Lists [[(OCol C_group_code, OLit (VInt g))]]) st = Some ([], st') \<and>
    ready st' \<and>
    view st' = (view st)\<lparr>items_tab := (\<lambda>k. if fst k = g then None else items_tab (view st) k)\<rparr>"
proof -
  have "map_of (map item_entry (filter (\<lambda>r. \<not> holds Lists [[(OCol C_group_code, OLit (VInt g))]] r)
      (rows st Lists))) =
      (\<lambda>k. if fst k = g then None else map_of (map item_entry (rows st Lists)) k)"
    by (rule items_t.lookup_delete) (auto dest!: wt_of [OF assms(1)] simp: wt_row_shape holds_simps)
  then show ?thesis using assms(2) by (auto simp: ready_def cond_ok_def tab_view cong: if_cong)
qed

lemma delete_item:
  assumes "wf_store st" and "ready st"
  shows "\<exists>st'. exec (Delete Lists [[(OCol C_group_code, OLit (VInt g)),
      (OCol C_item_name, OLit (VText i))]]) st = Some ([], st') \<and> ready st' \<and>
    view st' = (view st)\<lparr>items_tab := (items_tab (view st))((g, i) := None)\<rparr>"
proof -
  have "map_of (map item_entry (filter (\<lambda>r. \<not> holds Lists [[(OCol C_group_code, OLit (VInt g)),
      (OCol C_item_name, OLit (VText i))]] r) (rows st Lists))) =
      (\<lambda>k. if k = (g, i) then None else map_of (map item_entry (rows st Lists)) k)"
    by (rule items_t.lookup_delete) (auto dest!: wt_of [OF assms(1)] simp: wt_row_shape holds_simps)
  then show ?thesis using assms(2) by (auto simp: ready_def cond_ok_def tab_view fun_upd_def)
qed

text \<open>Updates that keep the key.\<close>

lemma update_group_count:
  assumes wf: "wf_store st" and "ready st"
  shows "\<exists>st'. exec (Update PublicGroups [(C_number_of_users, VInt n)] [[(OCol C_code, OLit (VInt g))]]) st =
      Some ([], st') \<and> ready st' \<and>
    view st' = (view st)\<lparr>groups_tab := (groups_tab (view st))
      (g := map_option (\<lambda>i. i\<lparr>g_users := n\<rparr>) (groups_tab (view st) g))\<rparr>"
proof -
  let ?P = "holds PublicGroups [[(OCol C_code, OLit (VInt g))]]"
  let ?f = "assign PublicGroups [(C_number_of_users, VInt n)]"
  have P: "?P r \<longleftrightarrow> fst (group_entry r) = g" if "r \<in> set (rows st PublicGroups)" for r
    using wt_of [OF wf that] by (auto simp: wt_row_shape holds_simps)
  have f: "group_entry (?f r) = (fst (group_entry r), (\<lambda>i. i\<lparr>g_users := n\<rparr>) (snd (group_entry r)))"
    if "r \<in> set (rows st PublicGroups)" for r
    using wt_of [OF wf that] by (auto simp: wt_row_shape assign_def group_entry_def)
  have key: "key_of PublicGroups (?f r) = key_of PublicGroups r" if "r \<in> set (rows st PublicGroups)" for r
    using wt_of [OF wf that] by (auto simp: wt_row_shape assign_def)
  have "map_of (map group_entry (map (\<lambda>r. if ?P r then ?f r else r) (rows st PublicGroups))) =
    (\<lambda>k. if k = g then map_option (\<lambda>i. i\<lparr>g_users := n\<rparr>) (map_of (map group_entry (rows st PublicGroups)) k)
         else map_of (map group_entry (rows st PublicGroups)) k)"
    using P f by (intro groups_t.lookup_update) auto
  moreover have "distinct (map (key_of PublicGroups) (map (\<lambda>r. if ?P r then ?f r else r) (rows st PublicGroups)))"
    using key by (intro groups_t.update_distinct [OF wf_tab [OF wf]]) auto
  ultimately show ?thesis
    using assms(2) by (auto simp: ready_def cond_ok_def sets_ok_def tab_view Let_def fun_upd_def cong: if_cong)
qed

lemma update_member_status:
  assumes wf: "wf_store st" and "ready st" and "CHR 0x00 \<notin> set s"
  shows "\<exists>st'. exec (Update Users_In_Groups [(C_status, VText s)]
      [[(OCol C_group_code, OLit (VInt g)), (OCol C_username, OLit (VText u))]]) st = Some ([], st') \<and>
    ready st' \<and>
    view st' = (view st)\<lparr>members_tab := (members_tab (view st))
      ((g, u) := map_option (\<lambda>_. s) (members_tab (view st) (g, u)))\<rparr>"
proof -
  let ?P = "holds Users_In_Groups [[(OCol C_group_code, OLit (VInt g)), (OCol C_username, OLit (VText u))]]"
  let ?f = "assign Users_In_Groups [(C_status, VText s)]"
  let ?rs = "rows st Users_In_Groups"
  have P: "?P r \<longleftrightarrow> fst (member_entry r) = (g, u)" if "r \<in> set ?rs" for r
    using wt_of [OF wf that] by (auto simp: wt_row_shape holds_simps)
  have f: "member_entry (?f r) = (fst (member_entry r), (\<lambda>_. s) (snd (member_entry r)))"
    if "r \<in> set ?rs" for r
    using wt_of [OF wf that] by (auto simp: wt_row_shape assign_def member_entry_def)
  have key: "key_of Users_In_Groups (?f r) = key_of Users_In_Groups r" if "r \<in> set ?rs" for r
    using wt_of [OF wf that] by (auto simp: wt_row_shape assign_def)
  have "map_of (map member_entry (map (\<lambda>r. if ?P r then ?f r else r) ?rs)) =
    (\<lambda>k. if k = (g, u) then map_option (\<lambda>_. s) (map_of (map member_entry ?rs) k)
         else map_of (map member_entry ?rs) k)"
    using P f by (intro members_t.lookup_update) auto
  moreover have "distinct (map (key_of Users_In_Groups) (map (\<lambda>r. if ?P r then ?f r else r) ?rs))"
    using key by (intro members_t.update_distinct [OF wf_tab [OF wf]]) auto
  ultimately show ?thesis
    using assms(2,3) by (auto simp: ready_def cond_ok_def sets_ok_def tab_view Let_def fun_upd_def cong: if_cong)
qed

lemma update_item_quantity:
  assumes wf: "wf_store st" and "ready st"
  shows "\<exists>st'. exec (Update Lists [(C_quantity, VInt n)]
      [[(OCol C_group_code, OLit (VInt g)), (OCol C_item_name, OLit (VText i))]]) st = Some ([], st') \<and>
    ready st' \<and>
    view st' = (view st)\<lparr>items_tab := (items_tab (view st))
      ((g, i) := map_option (\<lambda>x. (n, snd x)) (items_tab (view st) (g, i)))\<rparr>"
proof -
  let ?P = "holds Lists [[(OCol C_group_code, OLit (VInt g)), (OCol C_item_name, OLit (VText i))]]"
  let ?f = "assign Lists [(C_quantity, VInt n)]"
  let ?rs = "rows st Lists"
  have P: "?P r \<longleftrightarrow> fst (item_entry r) = (g, i)" if "r \<in> set ?rs" for r
    using wt_of [OF wf that] by (auto simp: wt_row_shape holds_simps)
  have f: "item_entry (?f r) = (fst (item_entry r), (\<lambda>x. (n, snd x)) (snd (item_entry r)))"
    if "r \<in> set ?rs" for r
    using wt_of [OF wf that] by (auto simp: wt_row_shape assign_def item_entry_def)
  have key: "key_of Lists (?f r) = key_of Lists r" if "r \<in> set ?rs" for r
    using wt_of [OF wf that] by (auto simp: wt_row_shape assign_def)
  have "map_of (map item_entry (map (\<lambda>r. if ?P r then ?f r else r) ?rs)) =
    (\<lambda>k. if k = (g, i) then map_option (\<lambda>x. (n, snd x)) (map_of (map item_entry ?rs) k)
         else map_of (map item_entry ?rs) k)"
    using P f by (intro items_t.lookup_update) auto
  moreover have "distinct (map (key_of Lists) (map (\<lambda>r. if ?P r then ?f r else r) ?rs))"
    using key by (intro items_t.update_distinct [OF wf_tab [OF wf]]) auto
  ultimately show ?thesis
    using assms(2) by (auto simp: ready_def cond_ok_def sets_ok_def tab_view Let_def fun_upd_def cong: if_cong)
qed

text \<open>The update that may rename an item: a name already taken stops it.\<close>

lemma update_item:
  assumes wf: "wf_store st" and "ready st" and nul: "CHR 0x00 \<notin> set i'" "CHR 0x00 \<notin> set m"
    and old: "items_tab (view st) (g, i) \<noteq> None"
  shows "\<exists>st'. exec (Update Lists [(C_item_name, VText i'), (C_quantity, VInt n), (C_remarks, VText m)]
      [[(OCol C_group_code, OLit (VInt g)), (OCol C_item_name, OLit (VText i))]]) st = Some ([], st') \<and>
    ready st' \<and>
    view st' = (if i' = i \<or> items_tab (view st) (g, i') = None
      then (view st)\<lparr>items_tab := (items_tab (view st))((g, i) := None, (g, i') \<mapsto> (n, m))\<rparr>
      else view st)"
proof -
  let ?P = "holds Lists [[(OCol C_group_code, OLit (VInt g)), (OCol C_item_name, OLit (VText i))]]"
  let ?f = "assign Lists [(C_item_name, VText i'), (C_quantity, VInt n), (C_remarks, VText m)]"
  let ?rs = "rows st Lists"
  have P: "?P r \<longleftrightarrow> fst (item_entry r) = (g, i)" if "r \<in> set ?rs" for r
    using wt_of [OF wf that] by (auto simp: wt_row_shape holds_simps)
  have f: "item_entry (?f r) = ((g, i'), (n, m)) \<and> wt_row Lists (?f r)" if "r \<in> set ?rs" "?P r" for r
    using wt_of [OF wf that(1)] that(2) nul by (auto simp: wt_row_shape assign_def item_entry_def holds_simps)
  note upd = items_t.update_rekey [OF wf_tab [OF wf, of Lists], of ?P "(g, i)" ?f "(g, i')" "(n, m)"]
  show ?thesis
    using upd P f old assms(2) nul
    by (auto simp: ready_def cond_ok_def sets_ok_def tab_view Let_def cong: if_cong)
qed

section \<open>All the rows of a group or of a user\<close>

lemma members_of_group:
  fixes g :: int
  assumes "wf_store st"
  defines "R \<equiv> filter (holds Users_In_Groups [[(OCol C_group_code, OLit (VInt g))]]) (rows st Users_In_Groups)"
  shows "set R = {member_row (g, u) s | u s. members_tab (view st) (g, u) = Some s}" and "distinct R"
proof -
  have P: "holds Users_In_Groups [[(OCol C_group_code, OLit (VInt g))]] r \<longleftrightarrow> fst (fst (member_entry r)) = g"
    if "r \<in> set (rows st Users_In_Groups)" for r
    using wt_of [OF assms(1) that] by (auto simp: wt_row_shape holds_simps)
  note sel = members_t.select_set [OF wf_tab [OF assms(1)], where Q = "\<lambda>k. fst k = g", OF P]
  show "set R = {member_row (g, u) s | u s. members_tab (view st) (g, u) = Some s}" "distinct R"
    unfolding R_def tab_view using sel by auto
qed

lemma groups_of_member:
  fixes u :: string
  assumes "wf_store st"
  defines "R \<equiv> filter (holds Users_In_Groups [[(OCol C_username, OLit (VText u))]]) (rows st Users_In_Groups)"
  shows "set R = {member_row (g, u) s | g s. members_tab (view st) (g, u) = Some s}" and "distinct R"
proof -
  have P: "holds Users_In_Groups [[(OCol C_username, OLit (VText u))]] r \<longleftrightarrow> snd (fst (member_entry r)) = u"
    if "r \<in> set (rows st Users_In_Groups)" for r
    using wt_of [OF assms(1) that] by (auto simp: wt_row_shape holds_simps)
  note sel = members_t.select_set [OF wf_tab [OF assms(1)], where Q = "\<lambda>k. snd k = u", OF P]
  show "set R = {member_row (g, u) s | g s. members_tab (view st) (g, u) = Some s}" "distinct R"
    unfolding R_def tab_view using sel by auto
qed

lemma items_of_group:
  fixes g :: int
  assumes "wf_store st"
  defines "R \<equiv> filter (holds Lists [[(OCol C_group_code, OLit (VInt g))]]) (rows st Lists)"
  shows "set R = {item_row (g, i) x | i x. items_tab (view st) (g, i) = Some x}" and "distinct R"
proof -
  have P: "holds Lists [[(OCol C_group_code, OLit (VInt g))]] r \<longleftrightarrow> fst (fst (item_entry r)) = g"
    if "r \<in> set (rows st Lists)" for r
    using wt_of [OF assms(1) that] by (auto simp: wt_row_shape holds_simps)
  note sel = items_t.select_set [OF wf_tab [OF assms(1)], where Q = "\<lambda>k. fst k = g", OF P]
  show "set R = {item_row (g, i) x | i x. items_tab (view st) (g, i) = Some x}" "distinct R"
    unfolding R_def tab_view using sel by auto
qed

lemma packets_of_user:
  fixes u :: string
  assumes "wf_store st"
  defines "R \<equiv> filter (holds UsersPackets [[(OCol C_username, OLit (VText u))]]) (rows st UsersPackets)"
  shows "set R = {packet_row c (u, m) | c m. packets_tab (view st) c = Some (u, m)}" and "distinct R"
proof -
  have P: "holds UsersPackets [[(OCol C_username, OLit (VText u))]] r \<longleftrightarrow> v_text (r ! 1) = u"
    if "r \<in> set (rows st UsersPackets)" for r
    using wt_of [OF assms(1) that] by (auto simp: wt_row_shape holds_simps)
  have "x \<in> set R \<longleftrightarrow> (\<exists>c m. x = packet_row c (u, m) \<and> packet_row c (u, m) \<in> set (rows st UsersPackets))" for x
    using P wt_of [OF assms(1), of x UsersPackets] by (auto simp: R_def wt_row_shape)
  then show "set R = {packet_row c (u, m) | c m. packets_tab (view st) c = Some (u, m)}"
    by (auto simp: tab_view packets_t.lookup_iff [OF wf_tab [OF assms(1)]])
  show "distinct R" using wf_tab [OF assms(1), of UsersPackets] by (simp add: R_def wf_table_def distinct_map)
qed

lemma filter_login:
  assumes "wf_store st"
  shows "filter (holds Users [[(OCol C_username, OLit (VText u)), (OCol C_password, OLit (VText p))]])
      (rows st Users) = (if users_tab (view st) u = Some p then [user_row u p] else [])"
proof -
  have "filter (holds Users [[(OCol C_username, OLit (VText u)), (OCol C_password, OLit (VText p))]])
      (rows st Users) =
    filter (\<lambda>r. v_text (r ! 1) = p) (filter (holds Users [[(OCol C_username, OLit (VText u))]]) (rows st Users))"
    unfolding filter_filter
    by (rule filter_cong) (auto dest!: wt_of [OF assms] simp: wt_row_shape holds_simps)
  then show ?thesis by (simp add: filter_user [OF assms] split: option.split)
qed

lemma delete_packets:
  assumes "wf_store st" and "ready st"
  shows "\<exists>st'. exec (Delete UsersPackets [[(OCol C_username, OLit (VText u))]]) st = Some ([], st') \<and>
    ready st' \<and>
    view st' = (view st)\<lparr>packets_tab := (\<lambda>c. case packets_tab (view st) c of None \<Rightarrow> None
      | Some (w, m) \<Rightarrow> if w = u then None else Some (w, m))\<rparr>"
proof -
  let ?P = "holds UsersPackets [[(OCol C_username, OLit (VText u))]]"
  have "?P (packet_row c v) \<longleftrightarrow> fst v = u" for c v
    by (cases v) (simp add: holds_simps)
  then have "map_of (map packet_entry (filter (\<lambda>r. \<not> ?P r) (rows st UsersPackets))) =
      (\<lambda>c. case map_of (map packet_entry (rows st UsersPackets)) c of None \<Rightarrow> None
        | Some (w, m) \<Rightarrow> if w = u then None else Some (w, m))"
    unfolding packets_t.lookup_filter [OF wf_tab [OF assms(1)]]
    by (auto simp: fun_eq_iff split: option.split)
  then show ?thesis using assms(2) by (simp add: ready_def cond_ok_def tab_view)
qed

end
