(* ===== verification/Guarded.thy ===== *)
theory Guarded
  imports Contracts
begin

text \<open>
  The state \<open>PublicGroup\<close> and \<open>PublicLists\<close> have in common: a reference to the database and
  a mutex that is locked at the start of an operation and unlocked on every way out of it.
  Locking a mutex that is still locked (its owner has left without unlocking) never returns;
  unlocking one that is not locked is undefined behaviour.

  The rules at the end run a query under the contract \<open>sql_query\<close>.
\<close>

section \<open>A database and a mutex\<close>

record 'db guarded =
  database :: 'db
  mtx :: bool

definition mtx_lock :: "(cxx_exn, 'db guarded, unit) prog" where
  "mtx_lock = (\<lambda>s. if mtx s then (Hang, s) else (Ret (), s\<lparr>mtx := True\<rparr>))"

definition mtx_unlock :: "(cxx_exn, 'db guarded, unit) prog" where
  "mtx_unlock = (\<lambda>s. if mtx s then (Ret (), s\<lparr>mtx := False\<rparr>) else (Undef, s))"

definition g_query ::
  "(string \<Rightarrow> 'db \<Rightarrow> (string list list \<times> 'db) option) \<Rightarrow> string \<Rightarrow> (cxx_exn, 'db guarded, string list list) prog" where
  "g_query q sql = (\<lambda>s. case db_query q sql (database s) of (r, d) \<Rightarrow> (r, s\<lparr>database := d\<rparr>))"

lemma run_lock [prog_simps]:
  "mtx_lock s = (if mtx s then (Hang, s) else (Ret (), s\<lparr>mtx := True\<rparr>))"
  "mtx_unlock s = (if mtx s then (Ret (), s\<lparr>mtx := False\<rparr>) else (Undef, s))"
  by (simp_all add: mtx_lock_def mtx_unlock_def)

lemma run_at [prog_simps]:
  "at data i j s = (if i < length data \<and> j < length (data ! i) then (Ret (data ! i ! j), s) else (Undef, s))"
  by (simp add: at_def prog_simps)

lemma run_of_std [prog_simps]:
  "of_std (Inl e) s = (Throw (Std e), s)" "of_std (Inr a) s = (Ret a, s)"
  by (simp_all add: prog_simps)

section \<open>Running a query under the contract\<close>

definition db_ok :: "('db \<Rightarrow> bool) \<Rightarrow> ('db \<Rightarrow> store) \<Rightarrow> 'db \<Rightarrow> bool" where
  "db_ok ok A db \<longleftrightarrow> ok db \<and> ready (A db)"

text \<open>The database after a query.\<close>

definition after :: "(string \<Rightarrow> 'db \<Rightarrow> (string list list \<times> 'db) option) \<Rightarrow> string \<Rightarrow> 'db \<Rightarrow> 'db" where
  "after q sql db = (case q sql db of None \<Rightarrow> db | Some (_, db') \<Rightarrow> db')"

text \<open>A text that holds no zero byte and parses as the statement \<open>s\<close>.\<close>

definition reads :: "string \<Rightarrow> stmt \<Rightarrow> bool" where
  "reads sql s \<longleftrightarrow> CHR 0x00 \<notin> set sql \<and> parse_sql sql = Some s"

lemma reads_parse: "reads sql s \<Longrightarrow> parse_sql (c_str sql) = Some s"
  by (simp add: reads_def c_str_id)

lemma reads_c_str: "reads sql s \<Longrightarrow> reads (c_str sql) s"
  by (simp add: reads_def c_str_id)

lemmas read_simps = reads_def text_simps parse_defs safe_no_nul is_code_safe to_string_no_nul

context sql_query
begin

lemma query_after:
  assumes "ok db" and "reads sql s" and "exec s (A db) = Some (rs, st')"
  shows "\<exists>rs'. q sql db = Some (rs', after q sql db) \<and> mset rs' = mset (map show_row rs) \<and>
    A (after q sql db) = st' \<and> ok (after q sql db)"
  using query_rows [OF assms(1) reads_parse [OF assms(2)] assms(3)] by (auto simp: after_def)

text \<open>A statement without result rows.\<close>

lemma effect_run:
  assumes ok: "db_ok ok A db" and sql: "reads sql s"
    and ex: "\<lbrakk>wf_store (A db); ready (A db)\<rbrakk> \<Longrightarrow>
      \<exists>st'. exec s (A db) = Some ([], st') \<and> ready st' \<and> view st' = F (view (A db))"
  shows "db_query q sql db = (Ret [], after q sql db)"
    and "view (A (after q sql db)) = F (view (A db))" and "db_ok ok A (after q sql db)"
proof -
  have "wf_store (A db)" "ready (A db)" using ok by (auto simp: db_ok_def tables_wf_q)
  then obtain st' where st': "exec s (A db) = Some ([], st')" "ready st'" "view st' = F (view (A db))"
    using ex by blast
  have "ok db" using ok by (simp add: db_ok_def)
  from query_after [OF this sql st'(1)]
  show "db_query q sql db = (Ret [], after q sql db)"
    "view (A (after q sql db)) = F (view (A db))" "db_ok ok A (after q sql db)"
    using st' by (auto simp: db_query_def db_ok_def)
qed

text \<open>A selection by a key, which has at most one row.\<close>

lemma select_run:
  assumes ok: "db_ok ok A db" and sql: "reads sql s"
    and ex: "\<lbrakk>wf_store (A db); ready (A db)\<rbrakk> \<Longrightarrow> exec s (A db) = Some (R (view (A db)), A db)"
    and le: "length (R (view (A db))) \<le> 1"
  shows "db_query q sql db = (Ret (map show_row (R (view (A db)))), after q sql db)"
    and "view (A (after q sql db)) = view (A db)" and "db_ok ok A (after q sql db)"
proof -
  have ok': "ok db" "wf_store (A db)" "ready (A db)" using ok by (auto simp: db_ok_def tables_wf_q)
  let ?R = "R (view (A db))"
  obtain rs' where rs': "q sql db = Some (rs', after q sql db)" "mset rs' = mset (map show_row ?R)"
    "A (after q sql db) = A db" "ok (after q sql db)"
    using query_after [OF ok'(1) sql ex] ok' by blast
  have "rs' = map show_row ?R"
    using rs'(2) le by (cases ?R) (auto simp: mset_single_list)
  with rs' ok' show "db_query q sql db = (Ret (map show_row ?R), after q sql db)"
    "view (A (after q sql db)) = view (A db)" "db_ok ok A (after q sql db)"
    by (auto simp: db_query_def db_ok_def)
qed

text \<open>A selection of any number of rows: the engine chooses their order.\<close>

lemma select_all_run:
  assumes ok: "db_ok ok A db" and sql: "reads sql s"
    and ex: "\<lbrakk>wf_store (A db); ready (A db)\<rbrakk> \<Longrightarrow> exec s (A db) = Some (R, A db)"
  shows "\<exists>data. db_query q sql db = (Ret data, after q sql db) \<and> mset data = mset (map show_row R)"
    and "view (A (after q sql db)) = view (A db)" and "db_ok ok A (after q sql db)"
proof -
  have ok': "ok db" "wf_store (A db)" "ready (A db)" using ok by (auto simp: db_ok_def tables_wf_q)
  obtain rs' where rs': "q sql db = Some (rs', after q sql db)" "mset rs' = mset (map show_row R)"
    "A (after q sql db) = A db" "ok (after q sql db)"
    using query_after [OF ok'(1) sql ex] ok' by blast
  with ok' show "\<exists>data. db_query q sql db = (Ret data, after q sql db) \<and> mset data = mset (map show_row R)"
    "view (A (after q sql db)) = view (A db)" "db_ok ok A (after q sql db)"
    by (auto simp: db_query_def db_ok_def)
qed

lemma db_ok_codes: "db_ok ok A db \<Longrightarrow> group_codes_ok (view (A db))"
  by (simp add: db_ok_def tables_wf_q view_codes_ok)

end

text \<open>From here on, statements are known by their effect on the view only.\<close>

declare exec.simps [simp del]

end
