(* ===== verification/Permissions.thy ===== *)
theory Permissions
  imports Prelude
begin

text \<open>The class \<open>Permissions\<close> of \<open>Database.cpp\<close>: five levels, named by a string.\<close>

record Permission =
  permission_string :: string
  permission_level :: int

text \<open>\<open>operator==\<close> compares the levels only.\<close>

definition Permission_eq :: "Permission \<Rightarrow> Permission \<Rightarrow> bool" where
  "Permission_eq a b \<longleftrightarrow> permission_level b = permission_level a"

definition Perm_Admin :: Permission where
  "Perm_Admin = \<lparr>permission_string = ''admin'', permission_level = 4\<rparr>"
definition Perm_FullControl :: Permission where
  "Perm_FullControl = \<lparr>permission_string = ''fc'', permission_level = 3\<rparr>"
definition Perm_ReadWrite :: Permission where
  "Perm_ReadWrite = \<lparr>permission_string = ''rw'', permission_level = 2\<rparr>"
definition Perm_Read :: Permission where
  "Perm_Read = \<lparr>permission_string = ''r'', permission_level = 1\<rparr>"
definition Perm_Non :: Permission where
  "Perm_Non = \<lparr>permission_string = '''', permission_level = 0\<rparr>"

lemmas Perm_defs = Perm_Admin_def Perm_FullControl_def Perm_ReadWrite_def Perm_Read_def Perm_Non_def

definition getPermission :: "string \<Rightarrow> Permission" where
  "getPermission user_permission =
    (if user_permission = permission_string Perm_Admin then Perm_Admin
     else if user_permission = permission_string Perm_FullControl then Perm_FullControl
     else if user_permission = permission_string Perm_ReadWrite then Perm_ReadWrite
     else if user_permission = permission_string Perm_Read then Perm_Read
     else Perm_Non)"

definition isAuthorized :: "Permission \<Rightarrow> Permission \<Rightarrow> bool" where
  "isAuthorized user_permission requested_permission \<longleftrightarrow>
     permission_level user_permission \<ge> permission_level requested_permission"

definition isAuthorized_str :: "string \<Rightarrow> Permission \<Rightarrow> bool" where
  "isAuthorized_str user_permission requested_permission \<longleftrightarrow>
     isAuthorized (getPermission user_permission) requested_permission"

text \<open>The levels, ordered as the names suggest.\<close>

abbreviation is_admin :: "string \<Rightarrow> bool" where
  "is_admin s \<equiv> s = ''admin''"

abbreviation may_control :: "string \<Rightarrow> bool" where
  "may_control s \<equiv> s = ''admin'' \<or> s = ''fc''"

abbreviation may_write :: "string \<Rightarrow> bool" where
  "may_write s \<equiv> s = ''admin'' \<or> s = ''fc'' \<or> s = ''rw''"

lemma isAuthorized_status [simp]:
  "isAuthorized (getPermission s) Perm_Admin \<longleftrightarrow> is_admin s"
  "isAuthorized (getPermission s) Perm_FullControl \<longleftrightarrow> may_control s"
  "isAuthorized (getPermission s) Perm_ReadWrite \<longleftrightarrow> may_write s"
  by (simp_all add: isAuthorized_def getPermission_def Perm_defs)

lemma admin_level [simp]:
  "permission_level (getPermission s) = permission_level Perm_Admin \<longleftrightarrow> is_admin s"
  by (simp add: getPermission_def Perm_defs)

lemma non_status [simp]:
  "Permission_eq (getPermission s) Perm_Non \<longleftrightarrow> s \<notin> {''admin'', ''fc'', ''rw'', ''r''}"
  by (auto simp: Permission_eq_def getPermission_def Perm_defs)

end
