(* ===== verification/GroupOps.thy ===== *)
theory GroupOps
  imports Guarded Permissions
begin

text \<open>
  \<open>PublicGroup.cpp\<close>: groups of users with a status each.  First the SQL texts, as the member
  functions splice them, then the operations statement by statement.  The current date is a
  parameter (\<open>DataBase::get_current_time\<close> reads the clock).  Five of the functions are declared \<open>throw()\<close> and throw;
  the compiler of the project file does not check that, so the exception goes to the caller.
\<close>

abbreviation apos :: string where
  "apos \<equiv> [quote]"

section \<open>SQL texts\<close>

definition sql_insert_group :: "string \<Rightarrow> string \<Rightarrow> string \<Rightarrow> string" where
  "sql_insert_group group_name admin time_now =
     ''INSERT INTO PublicGroups (name, admin, creation_date, number_of_users) '' @
     ''VALUES ('' @ apos @ group_name @ apos @ '', '' @ apos @ admin @ apos @ '', '' @ apos @
     time_now @ apos @ '', 1);''"

definition sql_last_group :: string where
  "sql_last_group = ''SELECT code FROM PublicGroups ORDER BY code DESC LIMIT 1;''"

definition sql_insert_admin :: "string \<Rightarrow> string \<Rightarrow> string \<Rightarrow> string" where
  "sql_insert_admin group_code admin status =
     ''INSERT INTO Users_In_Groups VALUES('' @ group_code @ '','' @ apos @ admin @ apos @ '', '' @
     apos @ status @ apos @ '');''"

definition sql_delete_group :: "string \<Rightarrow> string" where
  "sql_delete_group group_code = ''DELETE FROM PublicGroups WHERE code ='' @ group_code @ '';''"

definition sql_delete_members :: "string \<Rightarrow> string" where
  "sql_delete_members group_code =
     ''DELETE FROM Users_In_Groups WHERE group_code ='' @ group_code @ '';''"

definition sql_delete_items :: "string \<Rightarrow> string" where
  "sql_delete_items group_code = ''DELETE FROM Lists WHERE group_code ='' @ group_code @ '';''"

definition sql_insert_member :: "string \<Rightarrow> string \<Rightarrow> string \<Rightarrow> string" where
  "sql_insert_member group_code username status =
     ''INSERT INTO Users_In_Groups VALUES('' @ group_code @ '','' @ apos @ username @ apos @ '','' @
     apos @ status @ apos @ '');''"

definition sql_set_count :: "int \<Rightarrow> string \<Rightarrow> string" where
  "sql_set_count number_of_users group_code =
     ''UPDATE PublicGroups SET number_of_users ='' @ to_string number_of_users @ '' WHERE code ='' @
     group_code @ '';''"

definition sql_delete_member :: "string \<Rightarrow> string \<Rightarrow> string" where
  "sql_delete_member group_code username =
     ''DELETE FROM Users_In_Groups WHERE group_code='' @ group_code @ '' AND username='' @ apos @
     username @ apos @ '';''"

definition sql_set_status :: "string \<Rightarrow> string \<Rightarrow> string \<Rightarrow> string" where
  "sql_set_status new_status group_code username =
     ''UPDATE Users_In_Groups SET status ='' @ apos @ new_status @ apos @ '' WHERE group_code ='' @
     group_code @ '' AND username ='' @ apos @ username @ apos @ '';''"

definition sql_users_in_group :: "string \<Rightarrow> string" where
  "sql_users_in_group group_code =
     ''SELECT group_code,username,status FROM Users_In_Groups WHERE group_code ='' @ group_code @ '';''"

definition sql_groups_of_user :: "string \<Rightarrow> string" where
  "sql_groups_of_user username =
     ''SELECT * FROM Users_In_Groups WHERE username ='' @ apos @ username @ apos @ '';''"

definition sql_member :: "string \<Rightarrow> string \<Rightarrow> string" where
  "sql_member group_code username =
     ''SELECT * FROM Users_In_Groups WHERE username ='' @ apos @ username @ apos @
     '' and group_code ='' @ group_code @ '';''"

definition sql_count :: "string \<Rightarrow> string" where
  "sql_count group_code =
     ''SELECT number_of_users FROM PublicGroups WHERE code ='' @ group_code @ '';''"

definition sql_group_name :: "string \<Rightarrow> string" where
  "sql_group_name group_code = ''SELECT name from PublicGroups WHERE code='' @ group_code"

section \<open>Operations\<close>

text \<open>The constructor keeps a reference to the database; the mutex starts free.\<close>

definition PublicGroup_ctor :: "'db \<Rightarrow> 'db guarded" where
  "PublicGroup_ctor db = \<lparr>database = db, mtx = False\<rparr>"

type_synonym 'db engine = "string \<Rightarrow> 'db \<Rightarrow> (string list list \<times> 'db) option"

definition isUserExistsInGroup :: "'db engine \<Rightarrow> string \<Rightarrow> string \<Rightarrow> (cxx_exn, 'db guarded, bool) prog" where
  "isUserExistsInGroup q group_code username =
     bnd (g_query q (sql_member group_code username)) (\<lambda>data.
       if data = DataBase_Empty then ret False else ret True)"

definition getNumberOfUsersInGroup :: "'db engine \<Rightarrow> string \<Rightarrow> (cxx_exn, 'db guarded, int) prog" where
  "getNumberOfUsersInGroup q group_code =
     bnd (g_query q (sql_count group_code)) (\<lambda>data.
     bnd (at data 0 0) (\<lambda>str. of_std (stoi str)))"

definition getUserPermission :: "'db engine \<Rightarrow> string \<Rightarrow> string \<Rightarrow> (cxx_exn, 'db guarded, Permission) prog" where
  "getUserPermission q group_code username =
     bnd (g_query q (sql_member group_code username)) (\<lambda>data.
     bnd (at data 0 2) (\<lambda>status. ret (getPermission status)))"

definition getGroupName :: "'db engine \<Rightarrow> string \<Rightarrow> (cxx_exn, 'db guarded, string) prog" where
  "getGroupName q group_code = bnd (g_query q (sql_group_name group_code)) (\<lambda>data. at data 0 0)"

definition getAllUsersInGroup :: "'db engine \<Rightarrow> string \<Rightarrow> (cxx_exn, 'db guarded, string list list) prog" where
  "getAllUsersInGroup q group_code = g_query q (sql_users_in_group group_code)"

definition getAllGroupsOfUser :: "'db engine \<Rightarrow> string \<Rightarrow> (cxx_exn, 'db guarded, string list list) prog" where
  "getAllGroupsOfUser q username = g_query q (sql_groups_of_user username)"

definition createGroup :: "'db engine \<Rightarrow> string \<Rightarrow> string \<Rightarrow> string \<Rightarrow> (cxx_exn, 'db guarded, string) prog" where
  "createGroup q time_now group_name admin =
     thn mtx_lock
    (thn (g_query q (c_str (sql_insert_group group_name admin time_now)))
    (bnd (g_query q sql_last_group) (\<lambda>data.
       if data = DataBase_Empty then thn mtx_unlock (throw_own FailedCreateGroupException)
       else
         bnd (at data 0 0) (\<lambda>group_code.
         thn (g_query q (sql_insert_admin group_code admin ''admin''))
        (thn mtx_unlock
         (ret group_code))))))"

text \<open>
  In \<open>removeGroup\<close> and \<open>addUser\<close> the exception object of the permission check is built but
  not thrown: the mutex is unlocked and the function goes on.
\<close>

definition removeGroup :: "'db engine \<Rightarrow> string \<Rightarrow> string \<Rightarrow> (cxx_exn, 'db guarded, unit) prog" where
  "removeGroup q effector group_code =
     thn mtx_lock
    (bnd (isUserExistsInGroup q group_code effector) (\<lambda>found.
       if found = False then thn mtx_unlock (throw_own (NoSuchUserInTheGroupException ''''))
       else
         bnd (getUserPermission q group_code effector) (\<lambda>status.
         thn (if \<not> isAuthorized status Perm_Admin then mtx_unlock else ret ())
        (thn (g_query q (sql_delete_group group_code))
        (thn (g_query q (sql_delete_members group_code))
        (thn (g_query q (sql_delete_items group_code))
             mtx_unlock))))))"

definition addUser :: "'db engine \<Rightarrow> string \<Rightarrow> string \<Rightarrow> string \<Rightarrow> string \<Rightarrow> (cxx_exn, 'db guarded, unit) prog" where
  "addUser q effector group_code username status =
     thn mtx_lock
    (bnd (isUserExistsInGroup q group_code effector) (\<lambda>found.
       if found = False then thn mtx_unlock (throw_own (NoSuchUserInTheGroupException ''''))
       else
         bnd (getNumberOfUsersInGroup q group_code) (\<lambda>number_of_users.
         if number_of_users = 4
         then thn mtx_unlock (throw_own (FullGroupException ''PublicGroup() -- adduser()''))
         else
           bnd (isUserExistsInGroup q group_code username) (\<lambda>present.
           if present = True then thn mtx_unlock (throw_own SystemException)
           else
             bnd (getUserPermission q group_code effector) (\<lambda>effector_status.
             thn (if \<not> isAuthorized effector_status Perm_FullControl then mtx_unlock else ret ())
            (if Permission_eq (getPermission status) Perm_Non
             then thn mtx_unlock (throw_own SystemException)
             else
               thn (g_query q (sql_insert_member group_code username status))
              (bnd (int_add number_of_users 1) (\<lambda>number_of_users.
               thn (g_query q (sql_set_count number_of_users group_code))
                   mtx_unlock))))))))"

definition removeUser :: "'db engine \<Rightarrow> string \<Rightarrow> string \<Rightarrow> string \<Rightarrow> (cxx_exn, 'db guarded, unit) prog" where
  "removeUser q effector group_code username =
     thn mtx_lock
    (bnd (isUserExistsInGroup q group_code effector) (\<lambda>found.
       if found = False then thn mtx_unlock (throw_own (NoSuchUserInTheGroupException ''''))
       else
         bnd (isUserExistsInGroup q group_code username) (\<lambda>present.
         if present = False then thn mtx_unlock (throw_own (NoSuchUserInTheGroupException ''''))
         else
           bnd (getUserPermission q group_code effector) (\<lambda>status.
           if \<not> isAuthorized status Perm_FullControl
           then thn mtx_unlock (throw_own (PermissionIsDeniedException ''''))
           else
             bnd (getUserPermission q group_code username) (\<lambda>target.
             if permission_level target = permission_level Perm_Admin
             then thn mtx_unlock (throw_own (PermissionIsDeniedException ''''))
             else
               bnd (getNumberOfUsersInGroup q group_code) (\<lambda>number_of_users.
               thn (g_query q (sql_delete_member group_code username))
              (bnd (int_add number_of_users (- 1)) (\<lambda>n.
               thn (g_query q (sql_set_count n group_code))
                   mtx_unlock))))))))"

definition setUserStatus ::
  "'db engine \<Rightarrow> string \<Rightarrow> string \<Rightarrow> string \<Rightarrow> string \<Rightarrow> (cxx_exn, 'db guarded, unit) prog" where
  "setUserStatus q effector group_code username new_status =
     thn mtx_lock
    (bnd (isUserExistsInGroup q group_code effector) (\<lambda>found.
       if found = False then thn mtx_unlock (throw_own (NoSuchUserInTheGroupException ''''))
       else
         bnd (isUserExistsInGroup q group_code username) (\<lambda>present.
         if present = False then thn mtx_unlock (throw_own (NoSuchUserInTheGroupException ''''))
         else
           bnd (getUserPermission q group_code effector) (\<lambda>status.
           if \<not> isAuthorized status Perm_FullControl
           then thn mtx_unlock (throw_own (PermissionIsDeniedException ''''))
           else
             bnd (getUserPermission q group_code username) (\<lambda>target.
             if permission_level target = permission_level Perm_Admin
             then thn mtx_unlock (throw_own (PermissionIsDeniedException ''''))
             else
               thn (g_query q (sql_set_status new_status group_code username))
                   mtx_unlock)))))"

section \<open>Every text is the statement it is meant to be\<close>

lemma reads_insert_group:
  "safe_text n \<Longrightarrow> safe_text a \<Longrightarrow> safe_text d \<Longrightarrow> reads (sql_insert_group n a d)
     (InsertAuto PublicGroups [C_name, C_admin, C_creation_date, C_number_of_users]
       [VText n, VText a, VText d, VInt 1])"
  by (simp add: sql_insert_group_def read_simps digit_val_def)

lemma reads_last_group: "reads sql_last_group (SelectMax C_code PublicGroups)"
  by (simp add: sql_last_group_def read_simps digit_val_def)

lemma reads_insert_admin:
  "is_code g \<Longrightarrow> safe_text u \<Longrightarrow> safe_text s \<Longrightarrow>
   reads (sql_insert_admin g u s) (InsertRow Users_In_Groups [VInt (code_val g), VText u, VText s])"
  by (simp add: sql_insert_admin_def read_simps)

lemma reads_insert_member:
  "is_code g \<Longrightarrow> safe_text u \<Longrightarrow> safe_text s \<Longrightarrow>
   reads (sql_insert_member g u s) (InsertRow Users_In_Groups [VInt (code_val g), VText u, VText s])"
  by (simp add: sql_insert_member_def read_simps)

lemma reads_delete_group:
  "is_code g \<Longrightarrow> reads (sql_delete_group g) (Delete PublicGroups [[(OCol C_code, OLit (VInt (code_val g)))]])"
  by (simp add: sql_delete_group_def read_simps)

lemma reads_delete_members:
  "is_code g \<Longrightarrow>
   reads (sql_delete_members g) (Delete Users_In_Groups [[(OCol C_group_code, OLit (VInt (code_val g)))]])"
  by (simp add: sql_delete_members_def read_simps)

lemma reads_delete_items:
  "is_code g \<Longrightarrow> reads (sql_delete_items g) (Delete Lists [[(OCol C_group_code, OLit (VInt (code_val g)))]])"
  by (simp add: sql_delete_items_def read_simps)

lemma reads_set_count:
  "is_code g \<Longrightarrow> fits_int n \<Longrightarrow> reads (sql_set_count n g)
     (Update PublicGroups [(C_number_of_users, VInt n)] [[(OCol C_code, OLit (VInt (code_val g)))]])"
  by (simp add: sql_set_count_def read_simps)

lemma reads_delete_member:
  "is_code g \<Longrightarrow> safe_text u \<Longrightarrow> reads (sql_delete_member g u)
     (Delete Users_In_Groups [[(OCol C_group_code, OLit (VInt (code_val g))), (OCol C_username, OLit (VText u))]])"
  by (simp add: sql_delete_member_def read_simps)

lemma reads_set_status:
  "is_code g \<Longrightarrow> safe_text u \<Longrightarrow> safe_text s \<Longrightarrow> reads (sql_set_status s g u)
     (Update Users_In_Groups [(C_status, VText s)]
       [[(OCol C_group_code, OLit (VInt (code_val g))), (OCol C_username, OLit (VText u))]])"
  by (simp add: sql_set_status_def read_simps)

lemma reads_users_in_group:
  "is_code g \<Longrightarrow> reads (sql_users_in_group g)
     (Select (Some [C_group_code, C_username, C_status]) Users_In_Groups
       [[(OCol C_group_code, OLit (VInt (code_val g)))]])"
  by (simp add: sql_users_in_group_def read_simps)

lemma reads_groups_of_user:
  "safe_text u \<Longrightarrow> reads (sql_groups_of_user u)
     (Select None Users_In_Groups [[(OCol C_username, OLit (VText u))]])"
  by (simp add: sql_groups_of_user_def read_simps)

lemma reads_member:
  "is_code g \<Longrightarrow> safe_text u \<Longrightarrow> reads (sql_member g u)
     (Select None Users_In_Groups
       [[(OCol C_username, OLit (VText u)), (OCol C_group_code, OLit (VInt (code_val g)))]])"
  by (simp add: sql_member_def read_simps)

lemma reads_count:
  "is_code g \<Longrightarrow> reads (sql_count g)
     (Select (Some [C_number_of_users]) PublicGroups [[(OCol C_code, OLit (VInt (code_val g)))]])"
  by (simp add: sql_count_def read_simps)

lemma reads_group_name:
  "is_code g \<Longrightarrow> reads (sql_group_name g)
     (Select (Some [C_name]) PublicGroups [[(OCol C_code, OLit (VInt (code_val g)))]])"
  by (simp add: sql_group_name_def read_simps lex_code_end)

end
