(* ===== verification/GroupFacts.thy ===== *)
theory GroupFacts
  imports GroupOps
begin

text \<open>
  What the operations of \<open>PublicGroup\<close> do, over maps: for each an abstract program on
  \<open>ilist guarded\<close> (the tables as maps, and the mutex) and the proof that the code refines it for
  every engine that meets the contract \<open>sql_query\<close>.  Then the invariant of groups: the counter
  of a group is the number of its members, a group has one to four members, its creator stays a
  member with full rights, and members and items belong to groups that exist.
\<close>

section \<open>Abstract programs\<close>

abbreviation "group_of v k \<equiv> groups_tab v k"
abbreviation "status_of v k u \<equiv> members_tab v (k, u)"

text \<open>An operation that raises an exception after giving the mutex back, or one that leaves with
  the mutex held.\<close>

definition set_member :: "int \<Rightarrow> string \<Rightarrow> string \<Rightarrow> ilist \<Rightarrow> ilist" where
  "set_member k u s v = v\<lparr>members_tab := (members_tab v)((k, u) \<mapsto> s)\<rparr>"

definition drop_member :: "int \<Rightarrow> string \<Rightarrow> ilist \<Rightarrow> ilist" where
  "drop_member k u v = v\<lparr>members_tab := (members_tab v)((k, u) := None)\<rparr>"

definition set_count :: "int \<Rightarrow> int \<Rightarrow> ilist \<Rightarrow> ilist" where
  "set_count k n v =
     v\<lparr>groups_tab := (groups_tab v)(k := map_option (\<lambda>i. i\<lparr>g_users := n\<rparr>) (groups_tab v k))\<rparr>"

definition new_group :: "int \<Rightarrow> group_info \<Rightarrow> ilist \<Rightarrow> ilist" where
  "new_group k i v = v\<lparr>groups_tab := (groups_tab v)(k \<mapsto> i), last_group := k\<rparr>"

definition erase_group :: "int \<Rightarrow> ilist \<Rightarrow> ilist" where
  "erase_group k v =
     v\<lparr>groups_tab := (groups_tab v)(k := None),
       members_tab := (\<lambda>x. if fst x = k then None else members_tab v x),
       items_tab := (\<lambda>x. if fst x = k then None else items_tab v x)\<rparr>"

definition locked :: "('s guarded \<Rightarrow> ('e, 'a) outcome \<times> 's guarded) \<Rightarrow> 's guarded \<Rightarrow> ('e, 'a) outcome \<times> 's guarded" where
  "locked f s = (if mtx s then (Hang, s) else f s)"

definition spec_createGroup ::
  "string \<Rightarrow> string \<Rightarrow> string \<Rightarrow> ilist guarded \<Rightarrow> (cxx_exn, string) outcome \<times> ilist guarded" where
  "spec_createGroup time_now n a = locked (\<lambda>s.
     let v = database s; k = last_group v + 1;
         i = \<lparr>g_name = n, g_admin = a, g_date = time_now, g_users = 1\<rparr>
     in if k < 2 ^ 63
        then (Ret (to_string k),
              s\<lparr>database := (if status_of v k a = None then set_member k a ''admin'' (new_group k i v)
                             else new_group k i v)\<rparr>)
        else if dom (groups_tab v) = {} then (Throw (Own FailedCreateGroupException), s)
        else let m = Max (dom (groups_tab v)) in
             (Ret (to_string m),
              s\<lparr>database := (if status_of v m a = None then set_member m a ''admin'' v else v)\<rparr>))"

definition spec_removeGroup :: "string \<Rightarrow> int \<Rightarrow> ilist guarded \<Rightarrow> (cxx_exn, unit) outcome \<times> ilist guarded" where
  "spec_removeGroup e k = locked (\<lambda>s.
     case status_of (database s) k e of
       None \<Rightarrow> (Throw (Own (NoSuchUserInTheGroupException '''')), s)
     | Some st \<Rightarrow>
         (if is_admin st then Ret () else Undef, s\<lparr>database := erase_group k (database s)\<rparr>))"

definition spec_addUser ::
  "string \<Rightarrow> int \<Rightarrow> string \<Rightarrow> string \<Rightarrow> ilist guarded \<Rightarrow> (cxx_exn, unit) outcome \<times> ilist guarded" where
  "spec_addUser e k u status = locked (\<lambda>s. let v = database s in
     case status_of v k e of
       None \<Rightarrow> (Throw (Own (NoSuchUserInTheGroupException '''')), s)
     | Some st \<Rightarrow>
       (case group_of v k of
          None \<Rightarrow> (Undef, s\<lparr>mtx := True\<rparr>)
        | Some i \<Rightarrow>
          (case stoi (to_string (g_users i)) of
             Inl x \<Rightarrow> (Throw (Std x), s\<lparr>mtx := True\<rparr>)
           | Inr n \<Rightarrow>
             if n = 4 then (Throw (Own (FullGroupException ''PublicGroup() -- adduser()'')), s)
             else if status_of v k u \<noteq> None then (Throw (Own SystemException), s)
             else if status \<notin> {''admin'', ''fc'', ''rw'', ''r''}
             then (if may_control st then Throw (Own SystemException) else Undef, s)
             else if \<not> fits_int (n + 1)
             then (Undef, s\<lparr>database := set_member k u status v, mtx := may_control st\<rparr>)
             else (if may_control st then Ret () else Undef,
                   s\<lparr>database := set_count k (n + 1) (set_member k u status v)\<rparr>))))"

definition spec_removeUser ::
  "string \<Rightarrow> int \<Rightarrow> string \<Rightarrow> ilist guarded \<Rightarrow> (cxx_exn, unit) outcome \<times> ilist guarded" where
  "spec_removeUser e k u = locked (\<lambda>s. let v = database s in
     case (status_of v k e, status_of v k u) of
       (Some st, Some target) \<Rightarrow>
         if \<not> may_control st \<or> is_admin target
         then (Throw (Own (PermissionIsDeniedException '''')), s)
         else
           (case group_of v k of
              None \<Rightarrow> (Undef, s\<lparr>mtx := True\<rparr>)
            | Some i \<Rightarrow>
              (case stoi (to_string (g_users i)) of
                 Inl x \<Rightarrow> (Throw (Std x), s\<lparr>mtx := True\<rparr>)
               | Inr n \<Rightarrow>
                 if \<not> fits_int (n - 1) then (Undef, s\<lparr>database := drop_member k u v, mtx := True\<rparr>)
                 else (Ret (), s\<lparr>database := set_count k (n - 1) (drop_member k u v)\<rparr>)))
     | _ \<Rightarrow> (Throw (Own (NoSuchUserInTheGroupException '''')), s))"

definition spec_setUserStatus ::
  "string \<Rightarrow> int \<Rightarrow> string \<Rightarrow> string \<Rightarrow> ilist guarded \<Rightarrow> (cxx_exn, unit) outcome \<times> ilist guarded" where
  "spec_setUserStatus e k u new_status = locked (\<lambda>s. let v = database s in
     case (status_of v k e, status_of v k u) of
       (Some st, Some target) \<Rightarrow>
         if \<not> may_control st \<or> is_admin target
         then (Throw (Own (PermissionIsDeniedException '''')), s)
         else (Ret (), s\<lparr>database := set_member k u new_status v\<rparr>)
     | _ \<Rightarrow> (Throw (Own (NoSuchUserInTheGroupException '''')), s))"

section \<open>Running the statements\<close>

definition g_ok :: "('db \<Rightarrow> bool) \<Rightarrow> ('db \<Rightarrow> store) \<Rightarrow> 'db guarded \<Rightarrow> bool" where
  "g_ok ok A s \<longleftrightarrow> db_ok ok A (database s)"

definition g_abs :: "('db \<Rightarrow> store) \<Rightarrow> 'db guarded \<Rightarrow> ilist guarded" where
  "g_abs A s = \<lparr>database = view (A (database s)), mtx = mtx s\<rparr>"

named_theorems query_runs "the outcome of a query under the contract"

lemma run_g_query [prog_simps]:
  "db_query q sql (database s) = (r, d) \<Longrightarrow> g_query q sql s = (r, s\<lparr>database := d\<rparr>)"
  by (simp add: g_query_def)

lemma run_int_add [prog_simps]:
  "int_add a b s = (if fits_int (a + b) then Ret (a + b) else Undef, s)"
  by (simp add: int_add_def prog_simps)

lemma show_member_row [simp]: "show_row (member_row (k, u) s) = [to_string k, u, s]"
  by (simp add: show_row_def)

lemma show_row_simps [simp]: "show_row (v # vs) = show_value v # show_row vs" "show_row [] = []"
  by (simp_all add: show_row_def)

lemma project_cells [simp]:
  "project PublicGroups (Some [C_number_of_users]) [w, x, y, z, n] = [n]"
  "project PublicGroups (Some [C_name]) [w, x, y, z, n] = [x]"
  "project Users_In_Groups (Some [C_group_code, C_username, C_status]) [k, u, st] = [k, u, st]"
  by (simp_all add: project_def cell_def)

lemma cond_ok_keys:
  "cond_ok Users_In_Groups [[(OCol C_username, OLit (VText u)), (OCol C_group_code, OLit (VInt g))]]"
  "cond_ok Users_In_Groups [[(OCol C_group_code, OLit (VInt g)), (OCol C_username, OLit (VText u))]]"
  "cond_ok Users_In_Groups [[(OCol C_group_code, OLit (VInt g))]]"
  "cond_ok Users_In_Groups [[(OCol C_username, OLit (VText u))]]"
  "cond_ok PublicGroups [[(OCol C_code, OLit (VInt g))]]"
  "known_cols PublicGroups [C_number_of_users]" "known_cols PublicGroups [C_name]"
  "known_cols Users_In_Groups [C_group_code, C_username, C_status]"
  by (simp_all add: cond_ok_def known_cols_def)

text \<open>The statements that change a table, on the view.\<close>

lemma exec_insert_member:
  "\<lbrakk>wf_store st; ready st; safe_text u; safe_text s\<rbrakk> \<Longrightarrow>
   \<exists>st'. exec (InsertRow Users_In_Groups [VInt k, VText u, VText s]) st = Some ([], st') \<and> ready st' \<and>
     view st' = (if status_of (view st) k u = None then set_member k u s (view st) else view st)"
  unfolding set_member_def by (rule insert_member) (simp_all add: safe_no_nul)

lemma exec_insert_group:
  "\<lbrakk>wf_store st; ready st; safe_text n; safe_text a; safe_text d\<rbrakk> \<Longrightarrow>
   \<exists>st'. exec (InsertAuto PublicGroups [C_name, C_admin, C_creation_date, C_number_of_users]
      [VText n, VText a, VText d, VInt 1]) st = Some ([], st') \<and> ready st' \<and>
     view st' = (if last_group (view st) + 1 < 2 ^ 63
       then new_group (last_group (view st) + 1)
         \<lparr>g_name = n, g_admin = a, g_date = d, g_users = 1\<rparr> (view st)
       else view st)"
  using insert_group [of st n a d 1] by (simp only: new_group_def Let_def safe_no_nul not_False_eq_True simp_thms)

lemma exec_set_count:
  "\<lbrakk>wf_store st; ready st\<rbrakk> \<Longrightarrow>
   \<exists>st'. exec (Update PublicGroups [(C_number_of_users, VInt n)] [[(OCol C_code, OLit (VInt k))]]) st =
     Some ([], st') \<and> ready st' \<and> view st' = set_count k n (view st)"
  unfolding set_count_def by (rule update_group_count)

lemma exec_set_status:
  "\<lbrakk>wf_store st; ready st; safe_text s\<rbrakk> \<Longrightarrow>
   \<exists>st'. exec (Update Users_In_Groups [(C_status, VText s)]
      [[(OCol C_group_code, OLit (VInt k)), (OCol C_username, OLit (VText u))]]) st = Some ([], st') \<and>
     ready st' \<and>
     view st' = (if status_of (view st) k u = None then view st else set_member k u s (view st))"
  using update_member_status [of st s k u]
  by (cases "status_of (view st) k u") (simp_all add: set_member_def safe_no_nul fun_upd_idem)

lemma exec_delete_member:
  "\<lbrakk>wf_store st; ready st\<rbrakk> \<Longrightarrow>
   \<exists>st'. exec (Delete Users_In_Groups [[(OCol C_group_code, OLit (VInt k)),
      (OCol C_username, OLit (VText u))]]) st = Some ([], st') \<and> ready st' \<and>
     view st' = drop_member k u (view st)"
  unfolding drop_member_def by (rule delete_member)

lemma safe_statuses [simp]:
  "safe_text ''admin''" "safe_text ''fc''" "safe_text ''rw''" "safe_text ''r''" "safe_text ''''"
  by (simp_all add: safe_text_def)

lemma Max_new_group:
  assumes "group_codes_ok v"
  shows "Max (dom (groups_tab (new_group (last_group v + 1) i v))) = last_group v + 1"
proof -
  have "finite (dom (groups_tab v))" "\<And>y j. groups_tab v y = Some j \<Longrightarrow> y \<le> last_group v"
    using assms by (auto simp: group_codes_ok_def dom_def)
  then show ?thesis
    by (intro Max_eqI) (force simp: new_group_def split: if_splits)+
qed

lemma code_to_string:
  assumes "0 \<le> n" and "n < 2 ^ 63"
  shows "is_code (to_string n)" and "code_val (to_string n) = n"
  using assms dec_digits_all [of "nat n"]
  by (simp_all add: is_code_def code_val_def to_string_def nat_less_iff dec_digits_nonempty)

context sql_query
begin

lemma member_query:
  assumes "db_ok ok A db" and "is_code g" and "safe_text u"
  shows "db_query q (sql_member g u) db =
      (Ret (map show_row (case status_of (view (A db)) (code_val g) u of None \<Rightarrow> []
        | Some s \<Rightarrow> [member_row (code_val g, u) s])), after q (sql_member g u) db)"
    and "view (A (after q (sql_member g u) db)) = view (A db)"
    and "db_ok ok A (after q (sql_member g u) db)"
  by (rule select_run [OF assms(1) reads_member [OF assms(2,3)],
        where R = "\<lambda>v. case status_of v (code_val g) u of None \<Rightarrow> [] | Some s \<Rightarrow> [member_row (code_val g, u) s]"],
      simp_all add: exec_Select_all cond_ok_keys filter_member split: option.split)+

lemma count_query:
  assumes "db_ok ok A db" and "is_code g"
  shows "db_query q (sql_count g) db =
      (Ret (map show_row (case group_of (view (A db)) (code_val g) of None \<Rightarrow> []
        | Some i \<Rightarrow> [[VInt (g_users i)]])), after q (sql_count g) db)"
    and "view (A (after q (sql_count g) db)) = view (A db)"
    and "db_ok ok A (after q (sql_count g) db)"
  by (rule select_run [OF assms(1) reads_count [OF assms(2)],
        where R = "\<lambda>v. case group_of v (code_val g) of None \<Rightarrow> [] | Some i \<Rightarrow> [[VInt (g_users i)]]"],
      simp_all add: exec_Select_cols cond_ok_keys filter_group split: option.split)+

lemma group_name_query:
  assumes "db_ok ok A db" and "is_code g"
  shows "db_query q (sql_group_name g) db =
      (Ret (map show_row (case group_of (view (A db)) (code_val g) of None \<Rightarrow> []
        | Some i \<Rightarrow> [[VText (g_name i)]])), after q (sql_group_name g) db)"
    and "view (A (after q (sql_group_name g) db)) = view (A db)"
    and "db_ok ok A (after q (sql_group_name g) db)"
  by (rule select_run [OF assms(1) reads_group_name [OF assms(2)],
        where R = "\<lambda>v. case group_of v (code_val g) of None \<Rightarrow> [] | Some i \<Rightarrow> [[VText (g_name i)]]"],
      simp_all add: exec_Select_cols cond_ok_keys filter_group split: option.split)+

lemma last_group_query:
  assumes "db_ok ok A db"
  shows "db_query q sql_last_group db =
      (Ret (map show_row (if dom (groups_tab (view (A db))) = {} then []
        else [[VInt (Max (dom (groups_tab (view (A db)))))]])), after q sql_last_group db)"
    and "view (A (after q sql_last_group db)) = view (A db)"
    and "db_ok ok A (after q sql_last_group db)"
  by (rule select_run [OF assms(1) reads_last_group,
        where R = "\<lambda>v. if dom (groups_tab v) = {} then [] else [[VInt (Max (dom (groups_tab v)))]]"],
      simp_all add: select_max_group del: dom_eq_empty_conv)+

lemmas query_lookups =
  member_query(2,3) count_query(2,3) group_name_query(2,3) last_group_query(2,3)

lemma run_isUserExistsInGroup:
  "db_ok ok A (database s) \<Longrightarrow> is_code g \<Longrightarrow> safe_text u \<Longrightarrow>
   isUserExistsInGroup q g u s =
     (Ret (status_of (view (A (database s))) (code_val g) u \<noteq> None),
      s\<lparr>database := after q (sql_member g u) (database s)\<rparr>)"
  by (simp add: isUserExistsInGroup_def prog_simps member_query(1) DataBase_Empty_def split: option.split)

lemma run_getUserPermission:
  "db_ok ok A (database s) \<Longrightarrow> is_code g \<Longrightarrow> safe_text u \<Longrightarrow>
   status_of (view (A (database s))) (code_val g) u = Some st \<Longrightarrow>
   getUserPermission q g u s =
     (Ret (getPermission st), s\<lparr>database := after q (sql_member g u) (database s)\<rparr>)"
  by (simp add: getUserPermission_def prog_simps member_query(1))

lemma run_getNumberOfUsersInGroup:
  assumes "db_ok ok A (database s)" and "is_code g"
  shows "group_of (view (A (database s))) (code_val g) = None \<Longrightarrow>
      getNumberOfUsersInGroup q g s = (Undef, s\<lparr>database := after q (sql_count g) (database s)\<rparr>)"
    and "group_of (view (A (database s))) (code_val g) = Some i \<Longrightarrow>
      getNumberOfUsersInGroup q g s =
        of_std (stoi (to_string (g_users i))) (s\<lparr>database := after q (sql_count g) (database s)\<rparr>)"
  using assms by (simp_all add: getNumberOfUsersInGroup_def prog_simps count_query(1))

lemma run_getGroupName:
  "db_ok ok A (database s) \<Longrightarrow> is_code g \<Longrightarrow>
   getGroupName q g s =
     (case group_of (view (A (database s))) (code_val g) of None \<Rightarrow> Undef | Some i \<Rightarrow> Ret (g_name i),
      s\<lparr>database := after q (sql_group_name g) (database s)\<rparr>)"
  by (simp add: getGroupName_def prog_simps group_name_query(1) split: option.split)

lemmas group_reads = run_isUserExistsInGroup run_getUserPermission run_getNumberOfUsersInGroup
  run_getGroupName query_lookups

text \<open>The statements that change a table.\<close>

lemma insert_member_query:
  assumes "db_ok ok A db" and "is_code g" and "safe_text u" and "safe_text st"
  shows "db_query q (sql_insert_member g u st) db = (Ret [], after q (sql_insert_member g u st) db)"
    and "view (A (after q (sql_insert_member g u st) db)) = (\<lambda>v. if status_of v (code_val g) u = None then set_member (code_val g) u st v else v) (view (A db))"
    and "db_ok ok A (after q (sql_insert_member g u st) db)"
  by (rule effect_run [OF assms(1) reads_insert_member [OF assms(2,3,4)], where F = "\<lambda>v. if status_of v (code_val g) u = None then set_member (code_val g) u st v else v"];
      rule exec_insert_member; simp add: assms)+

lemma insert_admin_query:
  assumes "db_ok ok A db" and "is_code g" and "safe_text u" and "safe_text st"
  shows "db_query q (sql_insert_admin g u st) db = (Ret [], after q (sql_insert_admin g u st) db)"
    and "view (A (after q (sql_insert_admin g u st) db)) = (\<lambda>v. if status_of v (code_val g) u = None then set_member (code_val g) u st v else v) (view (A db))"
    and "db_ok ok A (after q (sql_insert_admin g u st) db)"
  by (rule effect_run [OF assms(1) reads_insert_admin [OF assms(2,3,4)], where F = "\<lambda>v. if status_of v (code_val g) u = None then set_member (code_val g) u st v else v"];
      rule exec_insert_member; simp add: assms)+

lemma insert_group_query:
  assumes "db_ok ok A db" and "safe_text n" and "safe_text a" and "safe_text d"
  shows "db_query q (sql_insert_group n a d) db = (Ret [], after q (sql_insert_group n a d) db)"
    and "view (A (after q (sql_insert_group n a d) db)) = (\<lambda>v. if last_group v + 1 < 2 ^ 63
      then new_group (last_group v + 1) \<lparr>g_name = n, g_admin = a, g_date = d, g_users = 1\<rparr> v else v) (view (A db))"
    and "db_ok ok A (after q (sql_insert_group n a d) db)"
  by (rule effect_run [OF assms(1) reads_insert_group [OF assms(2,3,4)], where F = "\<lambda>v. if last_group v + 1 < 2 ^ 63
      then new_group (last_group v + 1) \<lparr>g_name = n, g_admin = a, g_date = d, g_users = 1\<rparr> v else v"];
      rule exec_insert_group; simp add: assms)+

lemma set_count_query:
  assumes "db_ok ok A db" and "is_code g" and "fits_int n"
  shows "db_query q (sql_set_count n g) db = (Ret [], after q (sql_set_count n g) db)"
    and "view (A (after q (sql_set_count n g) db)) = (set_count (code_val g) n) (view (A db))"
    and "db_ok ok A (after q (sql_set_count n g) db)"
  by (rule effect_run [OF assms(1) reads_set_count [OF assms(2,3)], where F = "set_count (code_val g) n"];
      rule exec_set_count; simp add: assms)+

lemma set_status_query:
  assumes "db_ok ok A db" and "is_code g" and "safe_text u" and "safe_text st"
  shows "db_query q (sql_set_status st g u) db = (Ret [], after q (sql_set_status st g u) db)"
    and "view (A (after q (sql_set_status st g u) db)) = (\<lambda>v. if status_of v (code_val g) u = None then v else set_member (code_val g) u st v) (view (A db))"
    and "db_ok ok A (after q (sql_set_status st g u) db)"
  by (rule effect_run [OF assms(1) reads_set_status [OF assms(2,3,4)], where F = "\<lambda>v. if status_of v (code_val g) u = None then v else set_member (code_val g) u st v"];
      rule exec_set_status; simp add: assms)+

lemma delete_member_query:
  assumes "db_ok ok A db" and "is_code g" and "safe_text u"
  shows "db_query q (sql_delete_member g u) db = (Ret [], after q (sql_delete_member g u) db)"
    and "view (A (after q (sql_delete_member g u) db)) = (drop_member (code_val g) u) (view (A db))"
    and "db_ok ok A (after q (sql_delete_member g u) db)"
  by (rule effect_run [OF assms(1) reads_delete_member [OF assms(2,3)], where F = "drop_member (code_val g) u"];
      rule exec_delete_member; simp add: assms)+

lemma erase_group_queries:
  assumes "db_ok ok A db" and "is_code g"
  shows "db_query q (sql_delete_group g) db = (Ret [], after q (sql_delete_group g) db)"
    and "db_ok ok A (after q (sql_delete_group g) db)"
    and "db_query q (sql_delete_members g) db = (Ret [], after q (sql_delete_members g) db)"
    and "db_ok ok A (after q (sql_delete_members g) db)"
    and "db_query q (sql_delete_items g) db = (Ret [], after q (sql_delete_items g) db)"
    and "db_ok ok A (after q (sql_delete_items g) db)"
    and "view (A (after q (sql_delete_items g) (after q (sql_delete_members g) (after q (sql_delete_group g) db)))) =
      erase_group (code_val g) (view (A db))"
proof -
  let ?k = "code_val g"
  have grp: "db_query q (sql_delete_group g) d = (Ret [], after q (sql_delete_group g) d) \<and>
      view (A (after q (sql_delete_group g) d)) = (view (A d))\<lparr>groups_tab := (groups_tab (view (A d)))(?k := None)\<rparr> \<and>
      db_ok ok A (after q (sql_delete_group g) d)" if "db_ok ok A d" for d
    by (intro conjI; rule effect_run [OF that reads_delete_group [OF assms(2)],
          where F = "\<lambda>v. v\<lparr>groups_tab := (groups_tab v)(?k := None)\<rparr>"]) (simp_all add: delete_group)
  have mem: "db_query q (sql_delete_members g) d = (Ret [], after q (sql_delete_members g) d) \<and>
      view (A (after q (sql_delete_members g) d)) =
        (view (A d))\<lparr>members_tab := (\<lambda>x. if fst x = ?k then None else members_tab (view (A d)) x)\<rparr> \<and>
      db_ok ok A (after q (sql_delete_members g) d)" if "db_ok ok A d" for d
    by (intro conjI; rule effect_run [OF that reads_delete_members [OF assms(2)],
          where F = "\<lambda>v. v\<lparr>members_tab := (\<lambda>x. if fst x = ?k then None else members_tab v x)\<rparr>"])
       (simp_all add: delete_members)
  have itm: "db_query q (sql_delete_items g) d = (Ret [], after q (sql_delete_items g) d) \<and>
      view (A (after q (sql_delete_items g) d)) =
        (view (A d))\<lparr>items_tab := (\<lambda>x. if fst x = ?k then None else items_tab (view (A d)) x)\<rparr> \<and>
      db_ok ok A (after q (sql_delete_items g) d)" if "db_ok ok A d" for d
    by (intro conjI; rule effect_run [OF that reads_delete_items [OF assms(2)],
          where F = "\<lambda>v. v\<lparr>items_tab := (\<lambda>x. if fst x = ?k then None else items_tab v x)\<rparr>"])
       (simp_all add: delete_items)
  show "db_query q (sql_delete_group g) db = (Ret [], after q (sql_delete_group g) db)"
    "db_ok ok A (after q (sql_delete_group g) db)"
    "db_query q (sql_delete_members g) db = (Ret [], after q (sql_delete_members g) db)"
    "db_ok ok A (after q (sql_delete_members g) db)"
    "db_query q (sql_delete_items g) db = (Ret [], after q (sql_delete_items g) db)"
    "db_ok ok A (after q (sql_delete_items g) db)"
    using grp mem itm assms(1) by blast+
  show "view (A (after q (sql_delete_items g) (after q (sql_delete_members g) (after q (sql_delete_group g) db)))) =
      erase_group ?k (view (A db))"
    using grp mem itm assms(1) by (simp add: erase_group_def cong: if_cong)
qed

lemmas group_writes = insert_member_query insert_admin_query insert_group_query set_count_query
  set_status_query delete_member_query erase_group_queries

section \<open>Refinement\<close>

lemma removeUser_refines:
  assumes "is_code g" and "safe_text e" and "safe_text u"
  shows "refines (g_ok ok A) (g_abs A) (removeUser q e g u) (spec_removeUser e (code_val g) u)"
  using assms
  by (intro refinesI)
     (simp add: removeUser_def spec_removeUser_def locked_def g_ok_def g_abs_def Let_def prog_simps
        group_reads group_writes split: option.split sum.split)

lemma setUserStatus_refines:
  assumes "is_code g" and "safe_text e" and "safe_text u" and "safe_text n"
  shows "refines (g_ok ok A) (g_abs A) (setUserStatus q e g u n) (spec_setUserStatus e (code_val g) u n)"
  using assms
  by (intro refinesI)
     (simp add: setUserStatus_def spec_setUserStatus_def locked_def g_ok_def g_abs_def Let_def prog_simps
        group_reads group_writes split: option.split)

lemma addUser_refines:
  assumes "is_code g" and "safe_text e" and "safe_text u" and "safe_text n"
  shows "refines (g_ok ok A) (g_abs A) (addUser q e g u n) (spec_addUser e (code_val g) u n)"
  using assms
  by (intro refinesI)
     (simp add: addUser_def spec_addUser_def locked_def g_ok_def g_abs_def Let_def prog_simps
        group_reads group_writes split: option.split sum.split)

lemma removeGroup_refines:
  assumes "is_code g" and "safe_text e"
  shows "refines (g_ok ok A) (g_abs A) (removeGroup q e g) (spec_removeGroup e (code_val g))"
  using assms
  by (intro refinesI)
     (simp add: removeGroup_def spec_removeGroup_def locked_def g_ok_def g_abs_def Let_def prog_simps
        group_reads group_writes split: option.split)

lemma sql_insert_group_c_str:
  "safe_text n \<Longrightarrow> safe_text a \<Longrightarrow> safe_text d \<Longrightarrow> c_str (sql_insert_group n a d) = sql_insert_group n a d"
  using reads_insert_group [of n a d] by (simp add: reads_def c_str_id)

text \<open>The code read back is the largest one; its row gets the administrator.\<close>

lemma createGroup_tail:
  assumes ok: "db_ok ok A d" and ne: "dom (groups_tab (view (A d))) \<noteq> {}" and a: "safe_text a"
  shows "\<exists>d'. bnd (g_query q sql_last_group) (\<lambda>data.
       if data = DataBase_Empty then thn mtx_unlock (throw_own FailedCreateGroupException)
       else bnd (at data 0 0) (\<lambda>group_code.
         thn (g_query q (sql_insert_admin group_code a ''admin'')) (thn mtx_unlock (ret group_code))))
       (s\<lparr>mtx := True, database := d\<rparr>) =
      (Ret (to_string (Max (dom (groups_tab (view (A d)))))), s\<lparr>database := d', mtx := False\<rparr>) \<and>
     db_ok ok A d' \<and>
     view (A d') = (let m = Max (dom (groups_tab (view (A d)))) in
       if status_of (view (A d)) m a = None then set_member m a ''admin'' (view (A d)) else view (A d))"
proof -
  let ?m = "Max (dom (groups_tab (view (A d))))"
  have cok: "group_codes_ok (view (A d))" using ok by (rule db_ok_codes)
  with ne have "?m \<in> dom (groups_tab (view (A d)))" by (intro Max_in) (simp_all add: group_codes_ok_def)
  with cok have "0 < ?m" "?m \<le> last_group (view (A d))" "last_group (view (A d)) < 2 ^ 63"
    unfolding group_codes_ok_def by blast+
  then have code: "is_code (to_string ?m)" "code_val (to_string ?m) = ?m" by (simp_all add: code_to_string)
  have ok': "db_ok ok A (after q sql_last_group d)" "view (A (after q sql_last_group d)) = view (A d)"
    using last_group_query [OF ok] by simp_all
  note ins = insert_admin_query [OF ok'(1) code(1) a safe_statuses(1)]
  show ?thesis
    using ne ins code ok'
    by (intro exI [of _ "after q (sql_insert_admin (to_string ?m) a ''admin'') (after q sql_last_group d)"])
       (simp add: prog_simps last_group_query(1) [OF ok] DataBase_Empty_def Let_def)
qed

lemma createGroup_refines:
  assumes "safe_text now" and "safe_text n" and "safe_text a"
  shows "refines (g_ok ok A) (g_abs A) (createGroup q now n a) (spec_createGroup now n a)"
proof (rule refinesI)
  fix s :: "'db guarded" assume s: "g_ok ok A s"
  then have ok: "db_ok ok A (database s)" by (simp add: g_ok_def)
  let ?v = "view (A (database s))" and ?d = "after q (sql_insert_group n a now) (database s)"
  let ?k = "last_group ?v + 1"
  note ins = insert_group_query [OF ok assms(2,3,1)]
  note tail = createGroup_tail [OF ins(3) _ assms(3), of s]
  have run: "createGroup q now n a s = (if mtx s then (Hang, s) else
      bnd (g_query q sql_last_group) (\<lambda>data.
       if data = DataBase_Empty then thn mtx_unlock (throw_own FailedCreateGroupException)
       else bnd (at data 0 0) (\<lambda>group_code.
         thn (g_query q (sql_insert_admin group_code a ''admin'')) (thn mtx_unlock (ret group_code))))
       (s\<lparr>mtx := True, database := ?d\<rparr>))"
    using ins(1) by (simp add: createGroup_def sql_insert_group_c_str assms prog_simps)
  have cok: "group_codes_ok ?v" using ok by (rule db_ok_codes)
  show "\<exists>s'. createGroup q now n a s = (fst (spec_createGroup now n a (g_abs A s)), s') \<and>
      g_ok ok A s' \<and> g_abs A s' = snd (spec_createGroup now n a (g_abs A s))"
  proof (cases "?k < 2 ^ 63")
    case True
    let ?i = "\<lparr>g_name = n, g_admin = a, g_date = now, g_users = 1\<rparr>"
    have v: "view (A ?d) = new_group ?k ?i ?v" using ins(2) True by simp
    have "Max (dom (groups_tab (view (A ?d)))) = ?k"
      unfolding v by (rule Max_new_group [OF cok])
    then show ?thesis
      using tail v True run s
      by (auto simp: spec_createGroup_def locked_def g_ok_def g_abs_def Let_def new_group_def)
  next
    case False
    have v: "view (A ?d) = ?v" using ins(2) False by simp
    show ?thesis
    proof (cases "dom (groups_tab ?v) = {}")
      case True
      then show ?thesis
        using run False v s ins(3) last_group_query [OF ins(3)]
        by (auto simp: spec_createGroup_def locked_def g_ok_def g_abs_def Let_def prog_simps DataBase_Empty_def)
    next
      case ne: False
      then show ?thesis
        using tail v False run s
        by (auto simp: spec_createGroup_def locked_def g_ok_def g_abs_def Let_def)
    qed
  qed
qed

end

end
