(* ===== verification/GroupInvariant.thy ===== *)
theory GroupInvariant
  imports GroupFacts
begin

text \<open>
  The invariant of the groups, and that every operation of \<open>PublicGroup\<close> keeps it in every
  outcome, undefined behaviour included.
\<close>

section \<open>The invariant, group by group\<close>

definition members_of :: "ilist \<Rightarrow> int \<Rightarrow> string set" where
  "members_of v k = {u. status_of v k u \<noteq> None}"

definition group_at :: "ilist \<Rightarrow> int \<Rightarrow> bool" where
  "group_at v k \<longleftrightarrow>
    (case group_of v k of
       None \<Rightarrow> members_of v k = {} \<and> (\<forall>x. items_tab v (k, x) = None)
     | Some i \<Rightarrow> finite (members_of v k) \<and> g_users i = int (card (members_of v k)) \<and> g_users i \<le> 4 \<and>
         status_of v k (g_admin i) = Some ''admin'')"

definition group_inv :: "ilist \<Rightarrow> bool" where
  "group_inv v \<longleftrightarrow> group_codes_ok v \<and> (\<forall>k. group_at v k)"

lemma group_invI: "group_codes_ok v \<Longrightarrow> (\<And>k. group_at v k) \<Longrightarrow> group_inv v"
  by (simp add: group_inv_def)

lemma group_invD:
  assumes "group_inv v" and "group_of v k = Some i"
  shows "finite (members_of v k)" "g_users i = int (card (members_of v k))" "g_users i \<le> 4"
    "status_of v k (g_admin i) = Some ''admin''" "0 < g_users i"
proof -
  have "group_at v k" using assms(1) by (simp add: group_inv_def)
  then show "finite (members_of v k)" "g_users i = int (card (members_of v k))" "g_users i \<le> 4"
    "status_of v k (g_admin i) = Some ''admin''"
    by (simp_all add: group_at_def assms(2))
  then show "0 < g_users i" by (auto simp: card_gt_0_iff members_of_def)
qed

lemma group_inv_member:
  assumes "group_inv v" and "status_of v k u = Some s"
  shows "\<exists>i. group_of v k = Some i"
proof -
  have "group_at v k" using assms(1) by (simp add: group_inv_def)
  with assms(2) show ?thesis by (auto simp: group_at_def members_of_def split: option.splits)
qed

lemma tab_simps [simp]:
  "groups_tab (set_member k u s v) = groups_tab v" "groups_tab (drop_member k u v) = groups_tab v"
  "items_tab (set_member k u s v) = items_tab v" "items_tab (drop_member k u v) = items_tab v"
  "items_tab (set_count k n v) = items_tab v" "items_tab (new_group k i v) = items_tab v"
  "last_group (set_member k u s v) = last_group v" "last_group (drop_member k u v) = last_group v"
  "last_group (set_count k n v) = last_group v" "last_group (erase_group k v) = last_group v"
  "last_group (new_group k i v) = k" "members_tab (new_group k i v) = members_tab v"
  "members_tab (set_count k n v) = members_tab v"
  "group_of (set_count k n v) k' = (if k' = k then map_option (\<lambda>i. i\<lparr>g_users := n\<rparr>) (group_of v k) else group_of v k')"
  "group_of (new_group k i v) k' = (if k' = k then Some i else group_of v k')"
  "group_of (erase_group k v) k' = (if k' = k then None else group_of v k')"
  "status_of (set_member k u s v) k' u' = (if k' = k \<and> u' = u then Some s else status_of v k' u')"
  "status_of (drop_member k u v) k' u' = (if k' = k \<and> u' = u then None else status_of v k' u')"
  "status_of (erase_group k v) k' u' = (if k' = k then None else status_of v k' u')"
  "items_tab (erase_group k v) (k', x) = (if k' = k then None else items_tab v (k', x))"
  by (simp_all add: set_member_def drop_member_def set_count_def new_group_def erase_group_def)

lemma members_of_simps [simp]:
  "members_of (set_member k u s v) k' = (if k' = k then insert u (members_of v k) else members_of v k')"
  "members_of (drop_member k u v) k' = (if k' = k then members_of v k - {u} else members_of v k')"
  "members_of (set_count k n v) k' = members_of v k'"
  "members_of (new_group k i v) k' = members_of v k'"
  "members_of (erase_group k v) k' = (if k' = k then {} else members_of v k')"
  by (auto simp: members_of_def split: if_splits)

text \<open>An operation on one group leaves the others alone.\<close>

lemma group_at_other [simp]:
  "k' \<noteq> k \<Longrightarrow> group_at (set_member k u s v) k' = group_at v k'"
  "k' \<noteq> k \<Longrightarrow> group_at (drop_member k u v) k' = group_at v k'"
  "k' \<noteq> k \<Longrightarrow> group_at (set_count k n v) k' = group_at v k'"
  "k' \<noteq> k \<Longrightarrow> group_at (new_group k i v) k' = group_at v k'"
  "k' \<noteq> k \<Longrightarrow> group_at (erase_group k v) k' = group_at v k'"
  by (simp_all add: group_at_def split: option.split)

lemma group_inv_at:
  assumes "group_inv v" and "group_codes_ok v'" and "group_at v' k"
    and "\<And>k'. k' \<noteq> k \<Longrightarrow> group_at v' k' = group_at v k'"
  shows "group_inv v'"
proof (rule group_invI)
  fix k' show "group_at v' k'"
    using assms by (cases "k' = k") (simp_all add: group_inv_def)
qed (rule assms(2))

lemma group_codes_keep:
  "dom (groups_tab v') \<subseteq> dom (groups_tab v) \<Longrightarrow> last_group v' = last_group v \<Longrightarrow>
   group_codes_ok v \<Longrightarrow> group_codes_ok v'"
  unfolding group_codes_ok_def by (auto intro: finite_subset)

lemma group_codes_simps [simp]:
  "group_codes_ok v \<Longrightarrow> group_codes_ok (set_member k u s v)"
  "group_codes_ok v \<Longrightarrow> group_codes_ok (drop_member k u v)"
  "group_codes_ok v \<Longrightarrow> group_codes_ok (set_count k n v)"
  "group_codes_ok v \<Longrightarrow> group_codes_ok (erase_group k v)"
  by (rule group_codes_keep [of _ v]; auto split: if_splits)+

lemma group_codes_new:
  assumes "group_codes_ok v" and "last_group v + 1 < 2 ^ 63"
  shows "group_codes_ok (new_group (last_group v + 1) i v)"
proof -
  have "dom (groups_tab (new_group k i v)) = insert k (dom (groups_tab v))" for k
    by (auto split: if_splits)
  moreover have "g \<le> last_group v + 1" if "g \<in> dom (groups_tab v)" for g
  proof -
    have "g \<le> last_group v" using assms(1) that unfolding group_codes_ok_def by blast
    then show ?thesis by simp
  qed
  ultimately show ?thesis using assms by (simp add: group_codes_ok_def)
qed

lemma inv_codes: "group_inv v \<Longrightarrow> group_codes_ok v"
  by (simp add: group_inv_def)

lemma count_fits:
  assumes "group_inv v" and "group_of v k = Some i"
  shows "stoi (to_string (g_users i)) = Inr (g_users i)" "fits_int (g_users i + 1)" "fits_int (g_users i - 1)"
  using group_invD [OF assms] by (simp_all add: stoi_to_string fits_int_def INT_MIN_def INT_MAX_def)

section \<open>The changes keep it\<close>

lemma inv_set_status:
  assumes inv: "group_inv v" and old: "status_of v k u = Some st" "\<not> is_admin st"
  shows "group_inv (set_member k u s v)"
proof -
  obtain i where i: "group_of v k = Some i" using group_inv_member [OF inv old(1)] by blast
  have "insert u (members_of v k) = members_of v k" using old by (auto simp: members_of_def)
  moreover have "g_admin i \<noteq> u" using group_invD(4) [OF inv i] old by auto
  ultimately have "group_at (set_member k u s v) k"
    using group_invD [OF inv i] by (simp add: group_at_def i)
  then show ?thesis using inv_codes [OF inv] by (intro group_inv_at [OF inv, of _ k]) simp_all
qed

lemma inv_add_member:
  assumes inv: "group_inv v" and i: "group_of v k = Some i" and new: "status_of v k u = None"
    and room: "g_users i \<noteq> 4"
  shows "group_inv (set_count k (g_users i + 1) (set_member k u s v))"
proof -
  have "u \<notin> members_of v k" using new by (simp add: members_of_def)
  then have "card (insert u (members_of v k)) = Suc (card (members_of v k))"
    using group_invD(1) [OF inv i] by simp
  moreover have "g_admin i \<noteq> u" using group_invD(4) [OF inv i] new by auto
  ultimately have "group_at (set_count k (g_users i + 1) (set_member k u s v)) k"
    unfolding group_at_def using group_invD(1-4) [OF inv i] room i by simp
  then show ?thesis using inv_codes [OF inv] by (intro group_inv_at [OF inv, of _ k]) simp_all
qed

lemma inv_drop_member:
  assumes inv: "group_inv v" and i: "group_of v k = Some i"
    and old: "status_of v k u = Some st" "\<not> is_admin st"
  shows "group_inv (set_count k (g_users i - 1) (drop_member k u v))"
proof -
  have "u \<in> members_of v k" using old by (simp add: members_of_def)
  then have "card (members_of v k) = Suc (card (members_of v k - {u}))"
    using group_invD(1) [OF inv i] by (rule card.remove [rotated])
  then have "int (card (members_of v k - {u})) = g_users i - 1"
    using group_invD(2) [OF inv i] by linarith
  moreover have "g_admin i \<noteq> u" using group_invD(4) [OF inv i] old by auto
  ultimately have "group_at (set_count k (g_users i - 1) (drop_member k u v)) k"
    unfolding group_at_def using group_invD(1,3,4) [OF inv i] i by simp
  then show ?thesis using inv_codes [OF inv] by (intro group_inv_at [OF inv, of _ k]) simp_all
qed

lemma inv_erase_group:
  assumes "group_inv v"
  shows "group_inv (erase_group k v)"
proof -
  have "group_at (erase_group k v) k" by (simp add: group_at_def)
  then show ?thesis using inv_codes [OF assms] by (intro group_inv_at [OF assms, of _ k]) simp_all
qed

lemma inv_new_group:
  assumes inv: "group_inv v" and room: "last_group v + 1 < 2 ^ 63" and "g_users i = 1"
  shows "status_of v (last_group v + 1) a = None"
    and "group_inv (set_member (last_group v + 1) (g_admin i) ''admin'' (new_group (last_group v + 1) i v))"
proof -
  let ?k = "last_group v + 1"
  have "group_of v ?k = None"
    using inv_codes [OF inv] by (cases "group_of v ?k") (auto simp: group_codes_ok_def dom_def)
  moreover have "group_at v ?k" using inv by (simp add: group_inv_def)
  ultimately have empty: "members_of v ?k = {}" by (simp add: group_at_def)
  then show "status_of v ?k a = None" by (auto simp: members_of_def)
  have "group_at (set_member ?k (g_admin i) ''admin'' (new_group ?k i v)) ?k"
    using empty assms(3) by (simp add: group_at_def)
  then show "group_inv (set_member ?k (g_admin i) ''admin'' (new_group ?k i v))"
    using group_codes_new [OF inv_codes [OF inv] room]
    by (intro group_inv_at [OF inv, of _ ?k]) simp_all
qed

section \<open>The operations keep it, and stay in their normal outcomes\<close>

lemma removeUser_inv:
  assumes "group_inv (database s)"
  shows "group_inv (database (snd (spec_removeUser e k u s)))"
  using assms group_inv_member [OF assms] count_fits [OF assms] inv_drop_member [OF assms]
  by (fastforce simp: spec_removeUser_def locked_def Let_def split: option.split)

lemma addUser_inv:
  assumes "group_inv (database s)"
  shows "group_inv (database (snd (spec_addUser e k u st s)))"
  using assms group_inv_member [OF assms] count_fits [OF assms] inv_add_member [OF assms]
  by (fastforce simp: spec_addUser_def locked_def Let_def split: option.split)

lemma setUserStatus_inv:
  assumes "group_inv (database s)"
  shows "group_inv (database (snd (spec_setUserStatus e k u n s)))"
  using assms inv_set_status [OF assms]
  by (auto simp: spec_setUserStatus_def locked_def Let_def split: option.split)

lemma removeGroup_inv:
  assumes "group_inv (database s)"
  shows "group_inv (database (snd (spec_removeGroup e k s)))"
  using assms inv_erase_group [OF assms]
  by (auto simp: spec_removeGroup_def locked_def split: option.split)

text \<open>While codes are left.\<close>

lemma createGroup_inv:
  assumes "group_inv (database s)" and "last_group (database s) + 1 < 2 ^ 63"
  shows "group_inv (database (snd (spec_createGroup now n a s)))"
proof -
  let ?v = "database s" and ?i = "\<lparr>g_name = n, g_admin = a, g_date = now, g_users = 1\<rparr>"
  have "status_of ?v (last_group ?v + 1) a = None"
    "group_inv (set_member (last_group ?v + 1) a ''admin'' (new_group (last_group ?v + 1) ?i ?v))"
    using inv_new_group [OF assms, of ?i] by simp_all
  with assms show ?thesis by (simp add: spec_createGroup_def locked_def Let_def)
qed

end
