(* ===== verification/ListOps.thy ===== *)
theory ListOps
  imports GroupInvariant
begin

text \<open>
  \<open>PublicLists.cpp\<close>: the items of a group's list.  The component has a mutex of its own and
  looks the members up itself.  \<open>stoi\<close> may throw between \<open>lock\<close> and \<open>unlock\<close>.
\<close>

section \<open>SQL texts\<close>

definition sql_list_member :: "string \<Rightarrow> string \<Rightarrow> string" where
  "sql_list_member group_code username =
     ''SELECT * FROM Users_In_Groups WHERE group_code ='' @ group_code @ '' AND username ='' @ apos @
     username @ apos @ '';''"

definition sql_item :: "string \<Rightarrow> string \<Rightarrow> string" where
  "sql_item group_code item_name =
     ''SELECT * FROM Lists WHERE group_code ='' @ group_code @ '' AND item_name ='' @ apos @ item_name @
     apos @ '';''"

definition sql_item_row :: "string \<Rightarrow> string \<Rightarrow> string" where
  "sql_item_row group_code key =
     ''SELECT * FROM Lists WHERE group_code='' @ group_code @ '' AND item_name='' @ apos @ key @ apos @ '';''"

definition sql_quantity :: "string \<Rightarrow> string \<Rightarrow> string" where
  "sql_quantity group_code item_name =
     ''SELECT quantity FROM Lists WHERE group_code ='' @ group_code @ '' AND item_name ='' @ apos @
     item_name @ apos @ '';''"

definition sql_all_items :: "string \<Rightarrow> string" where
  "sql_all_items group_code = ''SELECT * FROM Lists WHERE group_code='' @ group_code @ '';''"

definition sql_insert_item :: "string \<Rightarrow> string \<Rightarrow> string \<Rightarrow> string \<Rightarrow> string" where
  "sql_insert_item group_code item_name quantity remarks =
     ''INSERT INTO Lists VALUES('' @ group_code @ '','' @ apos @ item_name @ apos @ '','' @ quantity @
     '','' @ apos @ remarks @ apos @ '');''"

definition sql_delete_item :: "string \<Rightarrow> string \<Rightarrow> string" where
  "sql_delete_item group_code item_name =
     ''DELETE FROM Lists WHERE group_code ='' @ group_code @ '' AND item_name ='' @ apos @ item_name @
     apos @ '';''"

definition sql_set_quantity :: "string \<Rightarrow> string \<Rightarrow> string \<Rightarrow> string" where
  "sql_set_quantity quantity group_code item_name =
     ''UPDATE Lists SET quantity = '' @ quantity @ '' WHERE group_code ='' @ group_code @
     '' AND item_name='' @ apos @ item_name @ apos @ '';''"

definition sql_update_item :: "string \<Rightarrow> string \<Rightarrow> string \<Rightarrow> string \<Rightarrow> string \<Rightarrow> string" where
  "sql_update_item new_name new_quantity new_remarks group_code key =
     ''UPDATE Lists SET '' @ ''item_name ='' @ apos @ new_name @ apos @ '','' @
     ''quantity ='' @ new_quantity @ '','' @ ''remarks ='' @ apos @ new_remarks @ apos @ '' '' @
     ''WHERE group_code ='' @ group_code @ '' AND item_name='' @ apos @ key @ apos @ '';''"

section \<open>Operations\<close>

text \<open>The class has the two fields of \<open>PublicGroup\<close>, with a mutex of its own.\<close>

type_synonym 'db public_lists = "'db guarded"

definition PublicLists_ctor :: "'db \<Rightarrow> 'db public_lists" where
  "PublicLists_ctor db = \<lparr>database = db, mtx = False\<rparr>"

definition lists_isUserExistsInGroup :: "'db engine \<Rightarrow> string \<Rightarrow> string \<Rightarrow> (cxx_exn, 'db guarded, bool) prog" where
  "lists_isUserExistsInGroup q group_code username =
     bnd (g_query q (sql_list_member group_code username)) (\<lambda>data. ret (\<not> data = DataBase_Empty))"

definition isItemExistsInList :: "'db engine \<Rightarrow> string \<Rightarrow> string \<Rightarrow> (cxx_exn, 'db guarded, bool) prog" where
  "isItemExistsInList q group_code item_name =
     bnd (g_query q (sql_item group_code item_name)) (\<lambda>data. ret (data \<noteq> DataBase_Empty))"

definition lists_getPermission :: "'db engine \<Rightarrow> string \<Rightarrow> string \<Rightarrow> (cxx_exn, 'db guarded, Permission) prog" where
  "lists_getPermission q group_code username =
     bnd (g_query q (sql_member group_code username)) (\<lambda>data.
     bnd (at data 0 2) (\<lambda>status. ret (getPermission status)))"

definition getQuantity :: "'db engine \<Rightarrow> string \<Rightarrow> string \<Rightarrow> (cxx_exn, 'db guarded, string) prog" where
  "getQuantity q group_code item_name =
     bnd (g_query q (sql_quantity group_code item_name)) (\<lambda>data. at data 0 0)"

definition getAllItemsInGroup :: "'db engine \<Rightarrow> string \<Rightarrow> (cxx_exn, 'db guarded, string list list) prog" where
  "getAllItemsInGroup q group_code = g_query q (sql_all_items group_code)"

text \<open>The empty string passes.\<close>

fun isNumber :: "string \<Rightarrow> bool" where
  "isNumber [] = True"
| "isNumber (c # str) = (if \<not> is_digit c then False else isNumber str)"

definition incItem :: "'db engine \<Rightarrow> string \<Rightarrow> string \<Rightarrow> string \<Rightarrow> (cxx_exn, 'db guarded, unit) prog" where
  "incItem q group_code item_name inc =
     bnd (getQuantity q group_code item_name) (\<lambda>old.
     bnd (of_std (stoi old)) (\<lambda>n.
     bnd (of_std (stoi inc)) (\<lambda>d.
     bnd (int_add n d) (\<lambda>sum.
     thn (g_query q (sql_set_quantity (to_string sum) group_code item_name)) (ret ())))))"

definition decItem :: "'db engine \<Rightarrow> string \<Rightarrow> string \<Rightarrow> string \<Rightarrow> (cxx_exn, 'db guarded, unit) prog" where
  "decItem q group_code item_name dec = incItem q group_code item_name (''-'' @ dec)"

definition addItem ::
  "'db engine \<Rightarrow> string \<Rightarrow> string \<Rightarrow> string \<Rightarrow> string \<Rightarrow> string \<Rightarrow> (cxx_exn, 'db guarded, unit) prog" where
  "addItem q effector group_code item_name quantity remarks =
     thn mtx_lock
    (bnd (lists_isUserExistsInGroup q group_code effector) (\<lambda>found.
       if found = False then thn mtx_unlock (throw_own (NoSuchUserInTheGroupException ''''))
       else
         bnd (lists_getPermission q group_code effector) (\<lambda>status.
         if \<not> isAuthorized status Perm_ReadWrite
         then thn mtx_unlock (throw_own (PermissionIsDeniedException ''''))
         else
           bnd (isItemExistsInList q group_code item_name) (\<lambda>present.
           thn (if present then incItem q group_code item_name quantity
                else thn (g_query q (sql_insert_item group_code item_name quantity remarks)) (ret ()))
               mtx_unlock))))"

definition removeItem ::
  "'db engine \<Rightarrow> string \<Rightarrow> string \<Rightarrow> string \<Rightarrow> (cxx_exn, 'db guarded, unit) prog" where
  "removeItem q effector group_code item_name =
     thn mtx_lock
    (bnd (lists_isUserExistsInGroup q group_code effector) (\<lambda>found.
       if found = False then thn mtx_unlock (throw_own (NoSuchUserInTheGroupException ''''))
       else
         bnd (lists_getPermission q group_code effector) (\<lambda>status.
         if \<not> isAuthorized status Perm_ReadWrite
         then thn mtx_unlock (throw_own (PermissionIsDeniedException ''''))
         else
           bnd (isItemExistsInList q group_code item_name) (\<lambda>present.
           if \<not> present then thn mtx_unlock (throw_own SystemException)
           else thn (g_query q (sql_delete_item group_code item_name)) mtx_unlock))))"

definition updateItem ::
  "'db engine \<Rightarrow> string \<Rightarrow> string \<Rightarrow> string \<Rightarrow> string \<Rightarrow> string \<Rightarrow> string \<Rightarrow> (cxx_exn, 'db guarded, unit) prog" where
  "updateItem q effector group_code key new_name new_quantity new_remarks =
     thn mtx_lock
    (bnd (lists_isUserExistsInGroup q group_code effector) (\<lambda>found.
       if found = False then thn mtx_unlock (throw_own (NoSuchUserInTheGroupException ''''))
       else
         bnd (lists_getPermission q group_code effector) (\<lambda>status.
         if \<not> isAuthorized status Perm_ReadWrite
         then thn mtx_unlock (throw_own (PermissionIsDeniedException ''''))
         else
           bnd (isItemExistsInList q group_code key) (\<lambda>present.
           if \<not> present then thn mtx_unlock (throw_own SystemException)
           else
             bnd (g_query q (sql_item_row group_code key)) (\<lambda>data.
             bnd (at data 0 1) (\<lambda>last_name.
             bnd (at data 0 2) (\<lambda>last_quantity.
             bnd (at data 0 3) (\<lambda>last_remarks.
             if last_name = new_name \<and> last_quantity = new_quantity \<and> last_remarks = new_remarks
             then thn mtx_unlock (throw_own SystemException)
             else if \<not> isNumber new_quantity then thn mtx_unlock (throw_own SystemException)
             else
               bnd (of_std (stoi new_quantity)) (\<lambda>n.
               if n \<le> 0 then thn mtx_unlock (throw_own SystemException)
               else
                 thn (g_query q (sql_update_item new_name new_quantity new_remarks group_code key))
                     mtx_unlock)))))))))"

lemma isNumber_iff: "isNumber s \<longleftrightarrow> (\<forall>c \<in> set s. is_digit c)"
  by (induction s) auto

section \<open>Every text is the statement it is meant to be\<close>

lemma reads_list_member:
  "is_code g \<Longrightarrow> safe_text u \<Longrightarrow> reads (sql_list_member g u)
     (Select None Users_In_Groups
       [[(OCol C_group_code, OLit (VInt (code_val g))), (OCol C_username, OLit (VText u))]])"
  by (simp add: sql_list_member_def read_simps)

lemma reads_item:
  "is_code g \<Longrightarrow> safe_text i \<Longrightarrow> reads (sql_item g i)
     (Select None Lists
       [[(OCol C_group_code, OLit (VInt (code_val g))), (OCol C_item_name, OLit (VText i))]])"
  by (simp add: sql_item_def read_simps)

lemma reads_item_row:
  "is_code g \<Longrightarrow> safe_text i \<Longrightarrow> reads (sql_item_row g i)
     (Select None Lists
       [[(OCol C_group_code, OLit (VInt (code_val g))), (OCol C_item_name, OLit (VText i))]])"
  by (simp add: sql_item_row_def read_simps)

lemma reads_quantity:
  "is_code g \<Longrightarrow> safe_text i \<Longrightarrow> reads (sql_quantity g i)
     (Select (Some [C_quantity]) Lists
       [[(OCol C_group_code, OLit (VInt (code_val g))), (OCol C_item_name, OLit (VText i))]])"
  by (simp add: sql_quantity_def read_simps)

lemma reads_all_items:
  "is_code g \<Longrightarrow>
   reads (sql_all_items g) (Select None Lists [[(OCol C_group_code, OLit (VInt (code_val g)))]])"
  by (simp add: sql_all_items_def read_simps)

lemma reads_insert_item:
  "is_code g \<Longrightarrow> safe_text i \<Longrightarrow> is_code n \<Longrightarrow> safe_text m \<Longrightarrow> reads (sql_insert_item g i n m)
     (InsertRow Lists [VInt (code_val g), VText i, VInt (code_val n), VText m])"
  by (simp add: sql_insert_item_def read_simps)

lemma reads_delete_item:
  "is_code g \<Longrightarrow> safe_text i \<Longrightarrow> reads (sql_delete_item g i)
     (Delete Lists [[(OCol C_group_code, OLit (VInt (code_val g))), (OCol C_item_name, OLit (VText i))]])"
  by (simp add: sql_delete_item_def read_simps)

lemma reads_set_quantity:
  "is_code g \<Longrightarrow> safe_text i \<Longrightarrow> fits_int n \<Longrightarrow> reads (sql_set_quantity (to_string n) g i)
     (Update Lists [(C_quantity, VInt n)]
       [[(OCol C_group_code, OLit (VInt (code_val g))), (OCol C_item_name, OLit (VText i))]])"
  by (simp add: sql_set_quantity_def read_simps)

lemma reads_update_item:
  "is_code g \<Longrightarrow> safe_text k \<Longrightarrow> safe_text i \<Longrightarrow> is_code n \<Longrightarrow> safe_text m \<Longrightarrow>
   reads (sql_update_item i n m g k)
     (Update Lists [(C_item_name, VText i), (C_quantity, VInt (code_val n)), (C_remarks, VText m)]
       [[(OCol C_group_code, OLit (VInt (code_val g))), (OCol C_item_name, OLit (VText k))]])"
  by (simp add: sql_update_item_def read_simps)

end
