(* ===== verification/ListFacts.thy ===== *)
theory ListFacts
  imports ListOps
begin

text \<open>
  The operations of \<open>PublicLists\<close> over maps: abstract programs, refinement, and the invariant of
  the groups.  Where \<open>stoi\<close> throws, or the sum of two quantities overflows, the abstract programs
  leave with the mutex held.
\<close>

section \<open>Abstract programs\<close>

abbreviation "item_of v k i \<equiv> items_tab v (k, i)"

definition set_item :: "int \<Rightarrow> string \<Rightarrow> int \<times> string \<Rightarrow> ilist \<Rightarrow> ilist" where
  "set_item k i x v = v\<lparr>items_tab := (items_tab v)((k, i) \<mapsto> x)\<rparr>"

definition drop_item :: "int \<Rightarrow> string \<Rightarrow> ilist \<Rightarrow> ilist" where
  "drop_item k i v = v\<lparr>items_tab := (items_tab v)((k, i) := None)\<rparr>"

text \<open>Renaming an item to the name of another one is a violation of the key: nothing changes.\<close>

definition change_item :: "int \<Rightarrow> string \<Rightarrow> string \<Rightarrow> int \<times> string \<Rightarrow> ilist \<Rightarrow> ilist" where
  "change_item k i i' x v =
     (if i' = i \<or> item_of v k i' = None then set_item k i' x (drop_item k i v) else v)"

definition spec_writer ::
  "string \<Rightarrow> int \<Rightarrow> (ilist guarded \<Rightarrow> (cxx_exn, unit) outcome \<times> ilist guarded) \<Rightarrow> ilist guarded \<Rightarrow>
   (cxx_exn, unit) outcome \<times> ilist guarded" where
  "spec_writer e k f = locked (\<lambda>s.
     case status_of (database s) k e of
       None \<Rightarrow> (Throw (Own (NoSuchUserInTheGroupException '''')), s)
     | Some st \<Rightarrow> if may_write st then f s else (Throw (Own (PermissionIsDeniedException '''')), s))"

definition spec_addItem ::
  "string \<Rightarrow> int \<Rightarrow> string \<Rightarrow> string \<Rightarrow> string \<Rightarrow> ilist guarded \<Rightarrow> (cxx_exn, unit) outcome \<times> ilist guarded" where
  "spec_addItem e k i quantity m = spec_writer e k (\<lambda>s. let v = database s in
     case item_of v k i of
       None \<Rightarrow> (Ret (), s\<lparr>database := set_item k i (code_val quantity, m) v\<rparr>)
     | Some (n, m') \<Rightarrow>
         (case (stoi (to_string n), stoi quantity) of
            (Inr n, Inr d) \<Rightarrow>
              if fits_int (n + d) then (Ret (), s\<lparr>database := set_item k i (n + d, m') v\<rparr>)
              else (Undef, s\<lparr>mtx := True\<rparr>)
          | (Inr n, Inl x) \<Rightarrow> (Throw (Std x), s\<lparr>mtx := True\<rparr>)
          | (Inl x, _) \<Rightarrow> (Throw (Std x), s\<lparr>mtx := True\<rparr>)))"

definition spec_removeItem ::
  "string \<Rightarrow> int \<Rightarrow> string \<Rightarrow> ilist guarded \<Rightarrow> (cxx_exn, unit) outcome \<times> ilist guarded" where
  "spec_removeItem e k i = spec_writer e k (\<lambda>s. let v = database s in
     if item_of v k i = None then (Throw (Own SystemException), s)
     else (Ret (), s\<lparr>database := drop_item k i v\<rparr>))"

definition spec_updateItem ::
  "string \<Rightarrow> int \<Rightarrow> string \<Rightarrow> string \<Rightarrow> string \<Rightarrow> string \<Rightarrow> ilist guarded \<Rightarrow>
   (cxx_exn, unit) outcome \<times> ilist guarded" where
  "spec_updateItem e k key i quantity m = spec_writer e k (\<lambda>s. let v = database s in
     case item_of v k key of
       None \<Rightarrow> (Throw (Own SystemException), s)
     | Some (n, m') \<Rightarrow>
         if (key = i \<and> to_string n = quantity \<and> m' = m) \<or> \<not> (\<forall>c \<in> set quantity. is_digit c)
         then (Throw (Own SystemException), s)
         else
           (case stoi quantity of
              Inl x \<Rightarrow> (Throw (Std x), s\<lparr>mtx := True\<rparr>)
            | Inr n' \<Rightarrow>
                if n' \<le> 0 then (Throw (Own SystemException), s)
                else (Ret (), s\<lparr>database := change_item k key i (n', m) v\<rparr>)))"

section \<open>Running the statements\<close>

lemma cond_ok_items:
  "cond_ok Lists [[(OCol C_group_code, OLit (VInt g)), (OCol C_item_name, OLit (VText i))]]"
  "cond_ok Lists [[(OCol C_group_code, OLit (VInt g))]]"
  "known_cols Lists [C_quantity]"
  by (simp_all add: cond_ok_def known_cols_def)

lemma project_quantity [simp]: "project Lists (Some [C_quantity]) [w, x, y, z] = [y]"
  by (simp add: project_def cell_def)

lemma digits_code:
  assumes "\<forall>c \<in> set ds. is_digit c" and "stoi ds = Inr n"
  shows "is_code ds" and "code_val ds = n"
proof -
  have "ds \<noteq> []" using assms(2) by (auto simp: stoi_def)
  with assms have "int (dec_val ds) \<le> INT_MAX" "n = int (dec_val ds)"
    by (auto simp: stoi_digits split: if_splits)
  with \<open>ds \<noteq> []\<close> assms(1) show "is_code ds" "code_val ds = n"
    by (simp_all add: is_code_def code_val_def INT_MAX_def)
qed

lemma exec_insert_item:
  "\<lbrakk>wf_store st; ready st; safe_text i; safe_text m\<rbrakk> \<Longrightarrow>
   \<exists>st'. exec (InsertRow Lists [VInt k, VText i, VInt n, VText m]) st = Some ([], st') \<and> ready st' \<and>
     view st' = (if item_of (view st) k i = None then set_item k i (n, m) (view st) else view st)"
  unfolding set_item_def by (rule insert_item) (simp_all add: safe_no_nul)

lemma exec_delete_item:
  "\<lbrakk>wf_store st; ready st\<rbrakk> \<Longrightarrow>
   \<exists>st'. exec (Delete Lists [[(OCol C_group_code, OLit (VInt k)), (OCol C_item_name, OLit (VText i))]]) st =
     Some ([], st') \<and> ready st' \<and> view st' = drop_item k i (view st)"
  unfolding drop_item_def by (rule delete_item)

lemma exec_set_quantity:
  "\<lbrakk>wf_store st; ready st\<rbrakk> \<Longrightarrow>
   \<exists>st'. exec (Update Lists [(C_quantity, VInt n)]
      [[(OCol C_group_code, OLit (VInt k)), (OCol C_item_name, OLit (VText i))]]) st = Some ([], st') \<and>
     ready st' \<and> view st' = (case item_of (view st) k i of None \<Rightarrow> view st
       | Some x \<Rightarrow> set_item k i (n, snd x) (view st))"
  using update_item_quantity [of st n k i]
  by (cases "item_of (view st) k i") (simp_all add: set_item_def fun_upd_idem)

lemma change_item_unfold:
  "change_item k i i' x v = (if i' = i \<or> item_of v k i' = None
     then v\<lparr>items_tab := (items_tab v)((k, i) := None, (k, i') \<mapsto> x)\<rparr> else v)"
  by (simp add: change_item_def set_item_def drop_item_def)

lemma exec_update_item:
  "\<lbrakk>wf_store st; ready st; safe_text i'; safe_text m; item_of (view st) k i \<noteq> None\<rbrakk> \<Longrightarrow>
   \<exists>st'. exec (Update Lists [(C_item_name, VText i'), (C_quantity, VInt n), (C_remarks, VText m)]
      [[(OCol C_group_code, OLit (VInt k)), (OCol C_item_name, OLit (VText i))]]) st = Some ([], st') \<and>
     ready st' \<and> view st' = change_item k i i' (n, m) (view st)"
  unfolding change_item_unfold by (rule update_item) (simp_all add: safe_no_nul)

context sql_query
begin

lemma list_member_query:
  assumes "db_ok ok A db" and "is_code g" and "safe_text u"
  shows "db_query q (sql_list_member g u) db =
      (Ret (map show_row (case status_of (view (A db)) (code_val g) u of None \<Rightarrow> []
        | Some s \<Rightarrow> [member_row (code_val g, u) s])), after q (sql_list_member g u) db)"
    and "view (A (after q (sql_list_member g u) db)) = view (A db)"
    and "db_ok ok A (after q (sql_list_member g u) db)"
  by (rule select_run [OF assms(1) reads_list_member [OF assms(2,3)],
        where R = "\<lambda>v. case status_of v (code_val g) u of None \<Rightarrow> [] | Some s \<Rightarrow> [member_row (code_val g, u) s]"],
      simp_all add: exec_Select_all cond_ok_keys filter_member_swapped split: option.split)+

lemma item_query:
  assumes "db_ok ok A db" and "is_code g" and "safe_text i"
  shows "db_query q (sql_item g i) db =
      (Ret (map show_row (case item_of (view (A db)) (code_val g) i of None \<Rightarrow> []
        | Some x \<Rightarrow> [item_row (code_val g, i) x])), after q (sql_item g i) db)"
    and "view (A (after q (sql_item g i) db)) = view (A db)"
    and "db_ok ok A (after q (sql_item g i) db)"
  by (rule select_run [OF assms(1) reads_item [OF assms(2,3)],
        where R = "\<lambda>v. case item_of v (code_val g) i of None \<Rightarrow> [] | Some x \<Rightarrow> [item_row (code_val g, i) x]"],
      simp_all add: exec_Select_all cond_ok_items filter_item split: option.split)+

lemma item_row_query:
  assumes "db_ok ok A db" and "is_code g" and "safe_text i"
  shows "db_query q (sql_item_row g i) db =
      (Ret (map show_row (case item_of (view (A db)) (code_val g) i of None \<Rightarrow> []
        | Some x \<Rightarrow> [item_row (code_val g, i) x])), after q (sql_item_row g i) db)"
    and "view (A (after q (sql_item_row g i) db)) = view (A db)"
    and "db_ok ok A (after q (sql_item_row g i) db)"
  by (rule select_run [OF assms(1) reads_item_row [OF assms(2,3)],
        where R = "\<lambda>v. case item_of v (code_val g) i of None \<Rightarrow> [] | Some x \<Rightarrow> [item_row (code_val g, i) x]"],
      simp_all add: exec_Select_all cond_ok_items filter_item split: option.split)+

lemma quantity_query:
  assumes "db_ok ok A db" and "is_code g" and "safe_text i"
  shows "db_query q (sql_quantity g i) db =
      (Ret (map show_row (case item_of (view (A db)) (code_val g) i of None \<Rightarrow> []
        | Some x \<Rightarrow> [[VInt (fst x)]])), after q (sql_quantity g i) db)"
    and "view (A (after q (sql_quantity g i) db)) = view (A db)"
    and "db_ok ok A (after q (sql_quantity g i) db)"
  by (rule select_run [OF assms(1) reads_quantity [OF assms(2,3)],
        where R = "\<lambda>v. case item_of v (code_val g) i of None \<Rightarrow> [] | Some x \<Rightarrow> [[VInt (fst x)]]"],
      simp_all add: exec_Select_cols cond_ok_items filter_item split: option.split)+

lemma insert_item_query:
  assumes "db_ok ok A db" and "is_code g" and "safe_text i" and "is_code n" and "safe_text m"
  shows "db_query q (sql_insert_item g i n m) db = (Ret [], after q (sql_insert_item g i n m) db)"
    and "view (A (after q (sql_insert_item g i n m) db)) =
      (\<lambda>v. if item_of v (code_val g) i = None then set_item (code_val g) i (code_val n, m) v else v) (view (A db))"
    and "db_ok ok A (after q (sql_insert_item g i n m) db)"
  by (rule effect_run [OF assms(1) reads_insert_item [OF assms(2-5)],
        where F = "\<lambda>v. if item_of v (code_val g) i = None then set_item (code_val g) i (code_val n, m) v else v"];
      rule exec_insert_item; simp add: assms)+

lemma delete_item_query:
  assumes "db_ok ok A db" and "is_code g" and "safe_text i"
  shows "db_query q (sql_delete_item g i) db = (Ret [], after q (sql_delete_item g i) db)"
    and "view (A (after q (sql_delete_item g i) db)) = drop_item (code_val g) i (view (A db))"
    and "db_ok ok A (after q (sql_delete_item g i) db)"
  by (rule effect_run [OF assms(1) reads_delete_item [OF assms(2,3)], where F = "drop_item (code_val g) i"];
      rule exec_delete_item; simp add: assms)+

lemma set_quantity_query:
  assumes "db_ok ok A db" and "is_code g" and "safe_text i" and "fits_int n"
  shows "db_query q (sql_set_quantity (to_string n) g i) db =
      (Ret [], after q (sql_set_quantity (to_string n) g i) db)"
    and "view (A (after q (sql_set_quantity (to_string n) g i) db)) =
      (\<lambda>v. case item_of v (code_val g) i of None \<Rightarrow> v | Some x \<Rightarrow> set_item (code_val g) i (n, snd x) v) (view (A db))"
    and "db_ok ok A (after q (sql_set_quantity (to_string n) g i) db)"
  by (rule effect_run [OF assms(1) reads_set_quantity [OF assms(2-4)],
        where F = "\<lambda>v. case item_of v (code_val g) i of None \<Rightarrow> v | Some x \<Rightarrow> set_item (code_val g) i (n, snd x) v"];
      rule exec_set_quantity; simp add: assms)+

lemma update_item_query:
  assumes "db_ok ok A db" and "is_code g" and "safe_text k" and "safe_text i" and "is_code n" and "safe_text m"
    and "item_of (view (A db)) (code_val g) k \<noteq> None"
  shows "db_query q (sql_update_item i n m g k) db = (Ret [], after q (sql_update_item i n m g k) db)"
    and "view (A (after q (sql_update_item i n m g k) db)) =
      change_item (code_val g) k i (code_val n, m) (view (A db))"
    and "db_ok ok A (after q (sql_update_item i n m g k) db)"
  by (rule effect_run [OF assms(1) reads_update_item [OF assms(2-6)],
        where F = "change_item (code_val g) k i (code_val n, m)"];
      rule exec_update_item; use assms in simp)+

lemma run_lists_isUserExistsInGroup:
  "db_ok ok A (database s) \<Longrightarrow> is_code g \<Longrightarrow> safe_text u \<Longrightarrow>
   lists_isUserExistsInGroup q g u s =
     (Ret (status_of (view (A (database s))) (code_val g) u \<noteq> None),
      s\<lparr>database := after q (sql_list_member g u) (database s)\<rparr>)"
  by (simp add: lists_isUserExistsInGroup_def prog_simps list_member_query(1) DataBase_Empty_def split: option.split)

lemma run_lists_getPermission:
  "db_ok ok A (database s) \<Longrightarrow> is_code g \<Longrightarrow> safe_text u \<Longrightarrow>
   status_of (view (A (database s))) (code_val g) u = Some st \<Longrightarrow>
   lists_getPermission q g u s =
     (Ret (getPermission st), s\<lparr>database := after q (sql_member g u) (database s)\<rparr>)"
  by (simp add: lists_getPermission_def prog_simps member_query(1))

lemma run_isItemExistsInList:
  "db_ok ok A (database s) \<Longrightarrow> is_code g \<Longrightarrow> safe_text i \<Longrightarrow>
   isItemExistsInList q g i s =
     (Ret (item_of (view (A (database s))) (code_val g) i \<noteq> None),
      s\<lparr>database := after q (sql_item g i) (database s)\<rparr>)"
  by (simp add: isItemExistsInList_def prog_simps item_query(1) DataBase_Empty_def split: option.split)

lemma run_getQuantity:
  "db_ok ok A (database s) \<Longrightarrow> is_code g \<Longrightarrow> safe_text i \<Longrightarrow>
   item_of (view (A (database s))) (code_val g) i = Some x \<Longrightarrow>
   getQuantity q g i s = (Ret (to_string (fst x)), s\<lparr>database := after q (sql_quantity g i) (database s)\<rparr>)"
  by (simp add: getQuantity_def prog_simps quantity_query(1))

lemmas list_reads = run_lists_isUserExistsInGroup run_lists_getPermission run_isItemExistsInList
  run_getQuantity item_row_query(1) list_member_query(2,3) item_query(2,3) item_row_query(2,3)
  quantity_query(2,3) member_query(2,3)

lemmas list_writes = insert_item_query delete_item_query set_quantity_query update_item_query

section \<open>Refinement\<close>

lemmas list_specs = spec_writer_def locked_def g_ok_def g_abs_def

lemma removeItem_refines:
  assumes "is_code g" and "safe_text e" and "safe_text i"
  shows "refines (g_ok ok A) (g_abs A) (removeItem q e g i) (spec_removeItem e (code_val g) i)"
  using assms
  by (intro refinesI)
     (simp add: removeItem_def spec_removeItem_def list_specs Let_def prog_simps list_reads list_writes
        split: option.split)

lemma addItem_refines:
  assumes "is_code g" and "safe_text e" and "safe_text i" and "is_code n" and "safe_text m"
  shows "refines (g_ok ok A) (g_abs A) (addItem q e g i n m) (spec_addItem e (code_val g) i n m)"
  using assms
  by (intro refinesI)
     (simp add: addItem_def incItem_def spec_addItem_def list_specs Let_def prog_simps list_reads list_writes
        split: option.split sum.split)

lemma updateItem_refines:
  assumes "is_code g" and "safe_text e" and "safe_text key" and "safe_text i" and "safe_text m"
  shows "refines (g_ok ok A) (g_abs A) (updateItem q e g key i n m) (spec_updateItem e (code_val g) key i n m)"
  using assms
  by (intro refinesI)
     (simp add: updateItem_def spec_updateItem_def list_specs Let_def prog_simps list_reads list_writes
        isNumber_iff digits_code split: option.split sum.split)

end

end
