(* ===== verification/Listings.thy ===== *)
theory Listings
  imports ListFacts
begin

text \<open>
  The queries with any number of result rows: the members of a group, the groups of a user, the
  items of a group.  The engine chooses the order of the rows, so each lemma gives the rows as a
  list without repetition whose set is known.
\<close>

section \<open>Rows in some order\<close>

lemma mset_map_ex:
  "mset data = mset (map g R) \<Longrightarrow> \<exists>R'. mset R' = mset R \<and> data = map g R'"
proof (induction data arbitrary: R)
  case (Cons d ds)
  then have "d \<in> set (map g R)" by (metis list.set_intros(1) mset_eq_setD)
  then obtain r where r: "r \<in> set R" "d = g r" by auto
  then obtain R1 R2 where R: "R = R1 @ r # R2" by (meson split_list)
  have "mset ds = mset (map g (R1 @ R2))" using Cons.prems by (simp add: R r(2))
  from Cons.IH [OF this] obtain R' where "mset R' = mset (R1 @ R2)" "ds = map g R'" by blast
  then show ?case by (intro exI [of _ "r # R'"]) (simp add: R r(2))
qed simp

lemma rows_list:
  assumes data: "mset data = mset (map g R)" and "distinct R" and R: "set R = mk ` X"
    and "inj_on mk X" and g: "\<And>x. x \<in> X \<Longrightarrow> g (mk x) = h x"
  shows "\<exists>xs. data = map h xs \<and> distinct xs \<and> set xs = X"
proof -
  obtain R' where R': "mset R' = mset R" "data = map g R'" using mset_map_ex [OF data] by blast
  then have set': "set R' = mk ` X" using R mset_eq_setD by metis
  define xs where "xs = map (the_inv_into X mk) R'"
  have mk: "map mk xs = R'"
    using set' f_the_inv_into_f [OF \<open>inj_on mk X\<close>] by (auto simp: xs_def intro: map_idI)
  have xs: "set xs = X"
    using set' the_inv_into_f_f [OF \<open>inj_on mk X\<close>] by (force simp: xs_def)
  have "distinct R'" using R'(1) \<open>distinct R\<close> by (metis mset_eq_imp_distinct_iff)
  then have "distinct xs" using mk by (metis distinct_map)
  moreover have "data = map h xs"
    using R'(2) g xs by (auto simp flip: mk)
  ultimately show ?thesis using xs by blast
qed

section \<open>The listings\<close>

context sql_query
begin

lemma getAllUsersInGroup_run:
  assumes ok: "db_ok ok A (database s)" and "is_code g"
  shows "\<exists>us. getAllUsersInGroup q g s =
      (Ret (map (\<lambda>(u, st). [to_string (code_val g), u, st]) us),
       s\<lparr>database := after q (sql_users_in_group g) (database s)\<rparr>) \<and>
    distinct us \<and> set us = {(u, st). status_of (view (A (database s))) (code_val g) u = Some st}"
    and "view (A (after q (sql_users_in_group g) (database s))) = view (A (database s))"
    and "db_ok ok A (after q (sql_users_in_group g) (database s))"
proof -
  let ?st = "A (database s)" and ?k = "code_val g"
  have wf: "wf_store ?st" "ready ?st" using ok by (auto simp: db_ok_def tables_wf_q)
  let ?R = "filter (holds Users_In_Groups [[(OCol C_group_code, OLit (VInt ?k))]]) (rows ?st Users_In_Groups)"
  let ?P = "project Users_In_Groups (Some [C_group_code, C_username, C_status])"
  note run = select_all_run [OF ok reads_users_in_group [OF assms(2)], of "map ?P ?R"]
  have ex: "exec (Select (Some [C_group_code, C_username, C_status]) Users_In_Groups
      [[(OCol C_group_code, OLit (VInt ?k))]]) ?st = Some (map ?P ?R, ?st)"
    using wf by (simp add: exec_Select_cols cond_ok_keys)
  obtain data where data: "db_query q (sql_users_in_group g) (database s) =
      (Ret data, after q (sql_users_in_group g) (database s))"
    "mset data = mset (map (\<lambda>r. show_row (?P r)) ?R)"
    using run(1) [OF ex] by (auto simp: comp_def)
  have "\<exists>us. data = map (\<lambda>(u, st). [to_string ?k, u, st]) us \<and> distinct us \<and>
      set us = {(u, st). status_of (view ?st) ?k u = Some st}"
    using data(2) members_of_group [OF wf(1), of ?k]
    by (intro rows_list [where mk = "\<lambda>(u, st). member_row (?k, u) st"]) (auto simp: inj_on_def)
  with data(1) show "\<exists>us. getAllUsersInGroup q g s = (Ret (map (\<lambda>(u, st). [to_string ?k, u, st]) us),
       s\<lparr>database := after q (sql_users_in_group g) (database s)\<rparr>) \<and> distinct us \<and>
      set us = {(u, st). status_of (view ?st) ?k u = Some st}"
    by (auto simp: getAllUsersInGroup_def prog_simps)
  show "view (A (after q (sql_users_in_group g) (database s))) = view ?st"
    "db_ok ok A (after q (sql_users_in_group g) (database s))"
    using run(2,3) [OF ex] by simp_all
qed

lemma getAllGroupsOfUser_run:
  assumes ok: "db_ok ok A (database s)" and "safe_text u"
  shows "\<exists>gs. getAllGroupsOfUser q u s =
      (Ret (map (\<lambda>(k, st). [to_string k, u, st]) gs),
       s\<lparr>database := after q (sql_groups_of_user u) (database s)\<rparr>) \<and>
    distinct gs \<and> set gs = {(k, st). status_of (view (A (database s))) k u = Some st}"
    and "view (A (after q (sql_groups_of_user u) (database s))) = view (A (database s))"
    and "db_ok ok A (after q (sql_groups_of_user u) (database s))"
proof -
  let ?st = "A (database s)"
  have wf: "wf_store ?st" "ready ?st" using ok by (auto simp: db_ok_def tables_wf_q)
  let ?R = "filter (holds Users_In_Groups [[(OCol C_username, OLit (VText u))]]) (rows ?st Users_In_Groups)"
  note run = select_all_run [OF ok reads_groups_of_user [OF assms(2)], of ?R]
  have ex: "exec (Select None Users_In_Groups [[(OCol C_username, OLit (VText u))]]) ?st = Some (?R, ?st)"
    using wf by (simp add: exec_Select_all cond_ok_keys)
  obtain data where data: "db_query q (sql_groups_of_user u) (database s) =
      (Ret data, after q (sql_groups_of_user u) (database s))" "mset data = mset (map show_row ?R)"
    using run(1) [OF ex] by blast
  have "\<exists>gs. data = map (\<lambda>(k, st). [to_string k, u, st]) gs \<and> distinct gs \<and>
      set gs = {(k, st). status_of (view ?st) k u = Some st}"
    using data(2) groups_of_member [OF wf(1), of u]
    by (intro rows_list [where mk = "\<lambda>(k, st). member_row (k, u) st"]) (auto simp: inj_on_def)
  with data(1) show "\<exists>gs. getAllGroupsOfUser q u s = (Ret (map (\<lambda>(k, st). [to_string k, u, st]) gs),
       s\<lparr>database := after q (sql_groups_of_user u) (database s)\<rparr>) \<and> distinct gs \<and>
      set gs = {(k, st). status_of (view ?st) k u = Some st}"
    by (auto simp: getAllGroupsOfUser_def prog_simps)
  show "view (A (after q (sql_groups_of_user u) (database s))) = view ?st"
    "db_ok ok A (after q (sql_groups_of_user u) (database s))"
    using run(2,3) [OF ex] by simp_all
qed

lemma getAllItemsInGroup_run:
  assumes ok: "db_ok ok A (database s)" and "is_code g"
  shows "\<exists>its. getAllItemsInGroup q g s =
      (Ret (map (\<lambda>(i, n, m). [to_string (code_val g), i, to_string n, m]) its),
       s\<lparr>database := after q (sql_all_items g) (database s)\<rparr>) \<and>
    distinct its \<and> set its = {(i, n, m). item_of (view (A (database s))) (code_val g) i = Some (n, m)}"
    and "view (A (after q (sql_all_items g) (database s))) = view (A (database s))"
    and "db_ok ok A (after q (sql_all_items g) (database s))"
proof -
  let ?st = "A (database s)" and ?k = "code_val g"
  have wf: "wf_store ?st" "ready ?st" using ok by (auto simp: db_ok_def tables_wf_q)
  let ?R = "filter (holds Lists [[(OCol C_group_code, OLit (VInt ?k))]]) (rows ?st Lists)"
  note run = select_all_run [OF ok reads_all_items [OF assms(2)], of ?R]
  have ex: "exec (Select None Lists [[(OCol C_group_code, OLit (VInt ?k))]]) ?st = Some (?R, ?st)"
    using wf by (simp add: exec_Select_all cond_ok_items)
  obtain data where data: "db_query q (sql_all_items g) (database s) =
      (Ret data, after q (sql_all_items g) (database s))" "mset data = mset (map show_row ?R)"
    using run(1) [OF ex] by blast
  have "\<exists>its. data = map (\<lambda>(i, n, m). [to_string ?k, i, to_string n, m]) its \<and> distinct its \<and>
      set its = {(i, n, m). item_of (view ?st) ?k i = Some (n, m)}"
    using data(2) items_of_group [OF wf(1), of ?k]
    by (intro rows_list [where mk = "\<lambda>(i, n, m). item_row (?k, i) (n, m)"]) (auto simp: inj_on_def image_iff)
  with data(1) show "\<exists>its. getAllItemsInGroup q g s =
      (Ret (map (\<lambda>(i, n, m). [to_string ?k, i, to_string n, m]) its),
       s\<lparr>database := after q (sql_all_items g) (database s)\<rparr>) \<and> distinct its \<and>
      set its = {(i, n, m). item_of (view ?st) ?k i = Some (n, m)}"
    by (auto simp: getAllItemsInGroup_def prog_simps)
  show "view (A (after q (sql_all_items g) (database s))) = view ?st"
    "db_ok ok A (after q (sql_all_items g) (database s))"
    using run(2,3) [OF ex] by simp_all
qed

end

end
