(* ===== verification/Packets.thy ===== *)
theory Packets
  imports Listings
begin

text \<open>
  \<open>UsersPackets.cpp\<close>: messages kept for users who are offline.  The operations are statements
  on the database alone.
\<close>

definition sql_user_packets :: "string \<Rightarrow> string" where
  "sql_user_packets username =
     ''SELECT message FROM UsersPackets WHERE username ='' @ apos @ username @ apos @ '';''"

definition sql_delete_packets :: "string \<Rightarrow> string" where
  "sql_delete_packets username =
     ''DELETE FROM UsersPackets WHERE username='' @ apos @ username @ apos @ '';''"

definition sql_insert_packet :: "string \<Rightarrow> string \<Rightarrow> string" where
  "sql_insert_packet username packet =
     ''INSERT INTO UsersPackets (username, message) VALUES('' @ apos @ username @ apos @ '','' @ apos @
     packet @ apos @ '');''"

text \<open>The object is its reference to the database.\<close>

definition UsersPackets_ctor :: "'db \<Rightarrow> 'db" where
  "UsersPackets_ctor db = db"

definition getAllUserPackets :: "'db engine \<Rightarrow> string \<Rightarrow> (cxx_exn, 'db, string list list) prog" where
  "getAllUserPackets q username = db_query q (sql_user_packets username)"

definition deleteAllUserPackets :: "'db engine \<Rightarrow> string \<Rightarrow> (cxx_exn, 'db, unit) prog" where
  "deleteAllUserPackets q username = thn (db_query q (sql_delete_packets username)) (ret ())"

definition addUserPacket :: "'db engine \<Rightarrow> string \<Rightarrow> string \<Rightarrow> (cxx_exn, 'db, unit) prog" where
  "addUserPacket q username packet = thn (db_query q (sql_insert_packet username packet)) (ret ())"

section \<open>Abstract programs\<close>

definition save_packet :: "string \<Rightarrow> string \<Rightarrow> ilist \<Rightarrow> ilist" where
  "save_packet u m v =
    (let c = last_packet v + 1 in
     if c < 2 ^ 63 then v\<lparr>packets_tab := (packets_tab v)(c \<mapsto> (u, m)), last_packet := c\<rparr> else v)"

definition clear_packets :: "string \<Rightarrow> ilist \<Rightarrow> ilist" where
  "clear_packets u v = v\<lparr>packets_tab := (\<lambda>c. case packets_tab v c of None \<Rightarrow> None
     | Some (w, m) \<Rightarrow> if w = u then None else Some (w, m))\<rparr>"

section \<open>Every text is the statement it is meant to be\<close>

lemma reads_user_packets:
  "safe_text u \<Longrightarrow> reads (sql_user_packets u)
     (Select (Some [C_message]) UsersPackets [[(OCol C_username, OLit (VText u))]])"
  by (simp add: sql_user_packets_def read_simps)

lemma reads_delete_packets:
  "safe_text u \<Longrightarrow> reads (sql_delete_packets u) (Delete UsersPackets [[(OCol C_username, OLit (VText u))]])"
  by (simp add: sql_delete_packets_def read_simps)

lemma reads_insert_packet:
  "safe_text u \<Longrightarrow> safe_text m \<Longrightarrow>
   reads (sql_insert_packet u m) (InsertAuto UsersPackets [C_username, C_message] [VText u, VText m])"
  by (simp add: sql_insert_packet_def read_simps)

section \<open>Refinement\<close>

lemma exec_insert_packet:
  "\<lbrakk>wf_store st; ready st; safe_text u; safe_text m\<rbrakk> \<Longrightarrow>
   \<exists>st'. exec (InsertAuto UsersPackets [C_username, C_message] [VText u, VText m]) st = Some ([], st') \<and>
     ready st' \<and> view st' = save_packet u m (view st)"
  unfolding save_packet_def using insert_packet [of st u m] by (simp only: safe_no_nul not_False_eq_True simp_thms Let_def)

lemma exec_delete_packets:
  "\<lbrakk>wf_store st; ready st\<rbrakk> \<Longrightarrow>
   \<exists>st'. exec (Delete UsersPackets [[(OCol C_username, OLit (VText u))]]) st = Some ([], st') \<and>
     ready st' \<and> view st' = clear_packets u (view st)"
  unfolding clear_packets_def by (rule delete_packets)

context sql_query
begin

lemma insert_packet_query:
  assumes "db_ok ok A db" and "safe_text u" and "safe_text m"
  shows "db_query q (sql_insert_packet u m) db = (Ret [], after q (sql_insert_packet u m) db)"
    and "view (A (after q (sql_insert_packet u m) db)) = save_packet u m (view (A db))"
    and "db_ok ok A (after q (sql_insert_packet u m) db)"
  by (rule effect_run [OF assms(1) reads_insert_packet [OF assms(2,3)], where F = "save_packet u m"];
      rule exec_insert_packet; simp add: assms)+

lemma delete_packets_query:
  assumes "db_ok ok A db" and "safe_text u"
  shows "db_query q (sql_delete_packets u) db = (Ret [], after q (sql_delete_packets u) db)"
    and "view (A (after q (sql_delete_packets u) db)) = clear_packets u (view (A db))"
    and "db_ok ok A (after q (sql_delete_packets u) db)"
  by (rule effect_run [OF assms(1) reads_delete_packets [OF assms(2)], where F = "clear_packets u"];
      rule exec_delete_packets; simp add: assms)+

lemma addUserPacket_refines:
  assumes "safe_text u" and "safe_text m"
  shows "refines (db_ok ok A) (\<lambda>d. view (A d)) (addUserPacket q u m) (modify (save_packet u m))"
  using assms by (intro refinesI) (simp add: addUserPacket_def prog_simps insert_packet_query)

lemma deleteAllUserPackets_refines:
  assumes "safe_text u"
  shows "refines (db_ok ok A) (\<lambda>d. view (A d)) (deleteAllUserPackets q u) (modify (clear_packets u))"
  using assms by (intro refinesI) (simp add: deleteAllUserPackets_def prog_simps delete_packets_query)

lemma getAllUserPackets_run:
  assumes ok: "db_ok ok A db" and "safe_text u"
  shows "\<exists>ps d. getAllUserPackets q u db = (Ret (map (\<lambda>(c, m). [m]) ps), d) \<and> distinct ps \<and>
    set ps = {(c, m). packets_tab (view (A db)) c = Some (u, m)} \<and> view (A d) = view (A db) \<and> db_ok ok A d"
proof -
  let ?st = "A db" and ?P = "project UsersPackets (Some [C_message])"
  have wf: "wf_store ?st" "ready ?st" using ok by (auto simp: db_ok_def tables_wf_q)
  let ?R = "filter (holds UsersPackets [[(OCol C_username, OLit (VText u))]]) (rows ?st UsersPackets)"
  have cols: "project UsersPackets (Some [C_message]) [w, x, y] = [y]" for w x y
    by (simp add: project_def cell_def)
  have ex: "exec (Select (Some [C_message]) UsersPackets [[(OCol C_username, OLit (VText u))]]) ?st =
      Some (map ?P ?R, ?st)"
    using wf by (simp add: exec_Select_cols cond_ok_def known_cols_def)
  note run = select_all_run [OF ok reads_user_packets [OF assms(2)] ex]
  obtain data where data: "db_query q (sql_user_packets u) db = (Ret data, after q (sql_user_packets u) db)"
    "mset data = mset (map (\<lambda>r. show_row (?P r)) ?R)"
    using run(1) by (auto simp: comp_def)
  have "\<exists>ps. data = map (\<lambda>(c, m). [m]) ps \<and> distinct ps \<and>
      set ps = {(c, m). packets_tab (view ?st) c = Some (u, m)}"
    using data(2) packets_of_user [OF wf(1), of u]
    by (intro rows_list [where mk = "\<lambda>(c, m). packet_row c (u, m)"]) (auto simp: inj_on_def cols)
  with data(1) run(2,3) show ?thesis by (auto simp: getAllUserPackets_def)
qed

end

end
