(* ===== verification/Accounts.thy ===== *)
theory Accounts
  imports Guarded
begin

text \<open>
  \<open>Users.cpp\<close>: accounts in the database, and the two maps of who is online.  \<open>getUsername\<close>
  and \<open>getSock\<close> use \<open>operator[]\<close> of \<open>std::map\<close>, which inserts a default value for a missing
  key: reading the map changes it.  \<open>Login\<close> and \<open>Register\<close> are declared \<open>throw()\<close> and throw; the compiler of
  the project file does not check that, so the exception goes to the caller.
\<close>

section \<open>State and operations\<close>

record 'db users =
  users_database :: 'db
  online_users :: "int \<Rightarrow> string option"
  online_users_opposite :: "string \<Rightarrow> int option"

definition Users_ctor :: "'db \<Rightarrow> 'db users" where
  "Users_ctor db = \<lparr>users_database = db, online_users = Map.empty, online_users_opposite = Map.empty\<rparr>"

definition u_query ::
  "(string \<Rightarrow> 'db \<Rightarrow> (string list list \<times> 'db) option) \<Rightarrow> string \<Rightarrow> (cxx_exn, 'db users, string list list) prog" where
  "u_query q sql =
     (\<lambda>s. case db_query q sql (users_database s) of (r, d) \<Rightarrow> (r, s\<lparr>users_database := d\<rparr>))"

definition sql_login :: "string \<Rightarrow> string \<Rightarrow> string" where
  "sql_login username password =
     ''select * from Users where username = '' @ [quote] @ username @ [quote] @ '' and password = '' @
     [quote] @ password @ [quote] @ '';''"

definition sql_registered :: "string \<Rightarrow> string" where
  "sql_registered username =
     ''select * from Users where username = '' @ [quote] @ username @ [quote] @ '';''"

definition sql_insert_user :: "string \<Rightarrow> string \<Rightarrow> string" where
  "sql_insert_user username password =
     ''INSERT INTO Users VALUES('' @ [quote] @ username @ [quote] @ '','' @ [quote] @ password @ [quote] @
     '');''"

definition sql_exists :: "string \<Rightarrow> string" where
  "sql_exists username = ''SELECT * FROM Users WHERE username ='' @ [quote] @ username @ [quote] @ '';''"

definition MAX_USERNAME_LENGTH :: int where "MAX_USERNAME_LENGTH = 20"
definition MIN_USERNAME_LENGTH :: int where "MIN_USERNAME_LENGTH = 4"
definition MAX_PASSWORD_LENGTH :: int where "MAX_PASSWORD_LENGTH = 20"
definition MIN_PASSWORD_LENGTH :: int where "MIN_PASSWORD_LENGTH = 6"

definition is_valid_username :: "int \<Rightarrow> bool" where
  "is_valid_username len \<longleftrightarrow>
     (if len \<ge> MIN_USERNAME_LENGTH \<and> len \<le> MAX_USERNAME_LENGTH then True else False)"

definition is_valid_password :: "int \<Rightarrow> bool" where
  "is_valid_password len \<longleftrightarrow>
     (if len \<ge> MIN_PASSWORD_LENGTH \<and> len \<le> MAX_PASSWORD_LENGTH then True else False)"

definition users_add :: "int \<Rightarrow> string \<Rightarrow> (cxx_exn, 'db users, unit) prog" where
  "users_add sock username =
     thn (modify (\<lambda>s. s\<lparr>online_users := (online_users s)(sock \<mapsto> username)\<rparr>))
         (modify (\<lambda>s. s\<lparr>online_users_opposite := (online_users_opposite s)(username \<mapsto> sock)\<rparr>))"

definition users_remove :: "int \<Rightarrow> string \<Rightarrow> (cxx_exn, 'db users, unit) prog" where
  "users_remove sock username =
     thn (modify (\<lambda>s. s\<lparr>online_users := (online_users s)(sock := None)\<rparr>))
         (modify (\<lambda>s. s\<lparr>online_users_opposite := (online_users_opposite s)(username := None)\<rparr>))"

definition getUsername :: "int \<Rightarrow> (cxx_exn, 'db users, string) prog" where
  "getUsername sock =
     bnd (gets (\<lambda>s. online_users s sock)) (\<lambda>found.
       case found of
         Some username \<Rightarrow> ret username
       | None \<Rightarrow> thn (modify (\<lambda>s. s\<lparr>online_users := (online_users s)(sock \<mapsto> '''')\<rparr>)) (ret ''''))"

definition getSock :: "string \<Rightarrow> (cxx_exn, 'db users, int) prog" where
  "getSock username =
     bnd (gets (\<lambda>s. online_users_opposite s username)) (\<lambda>found.
       case found of
         Some sock \<Rightarrow> ret sock
       | None \<Rightarrow>
           thn (modify (\<lambda>s. s\<lparr>online_users_opposite := (online_users_opposite s)(username \<mapsto> 0)\<rparr>)) (ret 0))"

definition isLogin_sock :: "int \<Rightarrow> (cxx_exn, 'db users, bool) prog" where
  "isLogin_sock sock = gets (\<lambda>s. if online_users s sock = None then False else True)"

definition isLogin_name :: "string \<Rightarrow> (cxx_exn, 'db users, bool) prog" where
  "isLogin_name username = gets (\<lambda>s. if online_users_opposite s username = None then False else True)"

definition isExist ::
  "(string \<Rightarrow> 'db \<Rightarrow> (string list list \<times> 'db) option) \<Rightarrow> string \<Rightarrow> (cxx_exn, 'db users, bool) prog" where
  "isExist q username =
     bnd (u_query q (sql_exists username)) (\<lambda>data. if data = DataBase_Empty then ret False else ret True)"

definition Login ::
  "(string \<Rightarrow> 'db \<Rightarrow> (string list list \<times> 'db) option) \<Rightarrow> int \<Rightarrow> string \<Rightarrow> string \<Rightarrow> (cxx_exn, 'db users, unit) prog" where
  "Login q sock username password =
    (let is_valid = is_valid_username (int (length username)) = True \<and>
           is_valid_password (int (length password)) = True in
     if \<not> is_valid then throw_own InvalidUsernameOrPasswordException
     else
       bnd (u_query q (sql_login username password)) (\<lambda>data.
       if data = DataBase_Empty then throw_own WrongUsernameOrPasswordException
       else
         bnd (gets online_users) (\<lambda>by_sock.
         bnd (gets online_users_opposite) (\<lambda>by_name.
         if by_sock \<noteq> Map.empty \<and> by_sock sock = None \<and> by_name username \<noteq> None
         then throw_own UserNotAvilableException
         else users_add sock username))))"

definition Register ::
  "(string \<Rightarrow> 'db \<Rightarrow> (string list list \<times> 'db) option) \<Rightarrow> string \<Rightarrow> string \<Rightarrow> (cxx_exn, 'db users, unit) prog" where
  "Register q username password =
    (let is_valid = is_valid_username (int (length username)) = True \<and>
           is_valid_password (int (length password)) = True in
     if \<not> is_valid then throw_own InvalidUsernameOrPasswordException
     else
       bnd (u_query q (sql_registered username)) (\<lambda>data.
       if data \<noteq> DataBase_Empty then throw_own UserNotAvilableException
       else thn (u_query q (sql_insert_user username password)) (ret ())))"

definition Logout_sock :: "int \<Rightarrow> (cxx_exn, 'db users, unit) prog" where
  "Logout_sock sock = bnd (getUsername sock) (\<lambda>username. users_remove sock username)"

definition Logout_name :: "string \<Rightarrow> (cxx_exn, 'db users, unit) prog" where
  "Logout_name username = bnd (getSock username) (\<lambda>sock. users_remove sock username)"

section \<open>Abstract programs\<close>

definition valid_credentials :: "string \<Rightarrow> string \<Rightarrow> bool" where
  "valid_credentials u p \<longleftrightarrow> 4 \<le> length u \<and> length u \<le> 20 \<and> 6 \<le> length p \<and> length p \<le> 20"

definition put_online :: "int \<Rightarrow> string \<Rightarrow> 'db users \<Rightarrow> 'db users" where
  "put_online sock u s =
     s\<lparr>online_users := (online_users s)(sock \<mapsto> u),
       online_users_opposite := (online_users_opposite s)(u \<mapsto> sock)\<rparr>"

definition put_offline :: "int \<Rightarrow> string \<Rightarrow> 'db users \<Rightarrow> 'db users" where
  "put_offline sock u s =
     s\<lparr>online_users := (online_users s)(sock := None),
       online_users_opposite := (online_users_opposite s)(u := None)\<rparr>"

definition spec_Login ::
  "int \<Rightarrow> string \<Rightarrow> string \<Rightarrow> ilist users \<Rightarrow> (cxx_exn, unit) outcome \<times> ilist users" where
  "spec_Login sock u p s =
     (if \<not> valid_credentials u p then (Throw (Own InvalidUsernameOrPasswordException), s)
      else if users_tab (users_database s) u \<noteq> Some p
      then (Throw (Own WrongUsernameOrPasswordException), s)
      else if online_users s \<noteq> Map.empty \<and> online_users s sock = None \<and> online_users_opposite s u \<noteq> None
      then (Throw (Own UserNotAvilableException), s)
      else (Ret (), put_online sock u s))"

definition spec_Register ::
  "string \<Rightarrow> string \<Rightarrow> ilist users \<Rightarrow> (cxx_exn, unit) outcome \<times> ilist users" where
  "spec_Register u p s = (let v = users_database s in
     if \<not> valid_credentials u p then (Throw (Own InvalidUsernameOrPasswordException), s)
     else if users_tab v u \<noteq> None then (Throw (Own UserNotAvilableException), s)
     else (Ret (), s\<lparr>users_database := v\<lparr>users_tab := (users_tab v)(u \<mapsto> p)\<rparr>\<rparr>))"

definition u_ok :: "('db \<Rightarrow> bool) \<Rightarrow> ('db \<Rightarrow> store) \<Rightarrow> 'db users \<Rightarrow> bool" where
  "u_ok ok A s \<longleftrightarrow> db_ok ok A (users_database s)"

definition u_abs :: "('db \<Rightarrow> store) \<Rightarrow> 'db users \<Rightarrow> ilist users" where
  "u_abs A s = \<lparr>users_database = view (A (users_database s)), online_users = online_users s,
     online_users_opposite = online_users_opposite s\<rparr>"

section \<open>Every text is the statement it is meant to be\<close>

lemma reads_login:
  "safe_text u \<Longrightarrow> safe_text p \<Longrightarrow> reads (sql_login u p)
     (Select None Users [[(OCol C_username, OLit (VText u)), (OCol C_password, OLit (VText p))]])"
  by (simp add: sql_login_def read_simps)

lemma reads_registered:
  "safe_text u \<Longrightarrow> reads (sql_registered u) (Select None Users [[(OCol C_username, OLit (VText u))]])"
  by (simp add: sql_registered_def read_simps)

lemma reads_exists:
  "safe_text u \<Longrightarrow> reads (sql_exists u) (Select None Users [[(OCol C_username, OLit (VText u))]])"
  by (simp add: sql_exists_def read_simps)

lemma reads_insert_user:
  "safe_text u \<Longrightarrow> safe_text p \<Longrightarrow> reads (sql_insert_user u p) (InsertRow Users [VText u, VText p])"
  by (simp add: sql_insert_user_def read_simps)

section \<open>Refinement\<close>

lemma run_u_query [prog_simps]:
  "db_query q sql (users_database s) = (r, d) \<Longrightarrow> u_query q sql s = (r, s\<lparr>users_database := d\<rparr>)"
  by (simp add: u_query_def)

lemma run_online [prog_simps]:
  "users_add sock u s = (Ret (), put_online sock u s)"
  "users_remove sock u s = (Ret (), put_offline sock u s)"
  "isLogin_sock sock s = (Ret (online_users s sock \<noteq> None), s)"
  "isLogin_name u s = (Ret (online_users_opposite s u \<noteq> None), s)"
  by (simp_all add: users_add_def users_remove_def put_online_def put_offline_def isLogin_sock_def
      isLogin_name_def prog_simps)

lemma run_getUsername [prog_simps]:
  "getUsername sock s = (case online_users s sock of
     Some u \<Rightarrow> (Ret u, s)
   | None \<Rightarrow> (Ret '''', s\<lparr>online_users := (online_users s)(sock \<mapsto> '''')\<rparr>))"
  by (simp add: getUsername_def prog_simps split: option.split)

lemma run_getSock [prog_simps]:
  "getSock u s = (case online_users_opposite s u of
     Some sock \<Rightarrow> (Ret sock, s)
   | None \<Rightarrow> (Ret 0, s\<lparr>online_users_opposite := (online_users_opposite s)(u \<mapsto> 0)\<rparr>))"
  by (simp add: getSock_def prog_simps split: option.split)

lemma valid_iff:
  "is_valid_username (int (length u)) \<and> is_valid_password (int (length p)) \<longleftrightarrow> valid_credentials u p"
  by (auto simp: is_valid_username_def is_valid_password_def valid_credentials_def
      MIN_USERNAME_LENGTH_def MAX_USERNAME_LENGTH_def MIN_PASSWORD_LENGTH_def MAX_PASSWORD_LENGTH_def)

lemma cond_ok_users:
  "cond_ok Users [[(OCol C_username, OLit (VText u))]]"
  "cond_ok Users [[(OCol C_username, OLit (VText u)), (OCol C_password, OLit (VText p))]]"
  by (simp_all add: cond_ok_def)

lemma exec_insert_user:
  "\<lbrakk>wf_store st; ready st; safe_text u; safe_text p\<rbrakk> \<Longrightarrow>
   \<exists>st'. exec (InsertRow Users [VText u, VText p]) st = Some ([], st') \<and> ready st' \<and>
     view st' = (if users_tab (view st) u = None
       then (view st)\<lparr>users_tab := (users_tab (view st))(u \<mapsto> p)\<rparr> else view st)"
  by (rule insert_user) (simp_all add: safe_no_nul)

context sql_query
begin

lemma login_query:
  assumes "db_ok ok A db" and "safe_text u" and "safe_text p"
  shows "db_query q (sql_login u p) db =
      (Ret (map show_row (if users_tab (view (A db)) u = Some p then [user_row u p] else [])),
       after q (sql_login u p) db)"
    and "view (A (after q (sql_login u p) db)) = view (A db)"
    and "db_ok ok A (after q (sql_login u p) db)"
  by (rule select_run [OF assms(1) reads_login [OF assms(2,3)],
        where R = "\<lambda>v. if users_tab v u = Some p then [user_row u p] else []"],
      simp_all add: exec_Select_all cond_ok_users filter_login)+

lemma registered_query:
  assumes "db_ok ok A db" and "safe_text u"
  shows "db_query q (sql_registered u) db =
      (Ret (map show_row (case users_tab (view (A db)) u of None \<Rightarrow> [] | Some p \<Rightarrow> [user_row u p])),
       after q (sql_registered u) db)"
    and "view (A (after q (sql_registered u) db)) = view (A db)"
    and "db_ok ok A (after q (sql_registered u) db)"
  by (rule select_run [OF assms(1) reads_registered [OF assms(2)],
        where R = "\<lambda>v. case users_tab v u of None \<Rightarrow> [] | Some p \<Rightarrow> [user_row u p]"],
      simp_all add: exec_Select_all cond_ok_users filter_user split: option.split)+

lemma exists_query:
  assumes "db_ok ok A db" and "safe_text u"
  shows "db_query q (sql_exists u) db =
      (Ret (map show_row (case users_tab (view (A db)) u of None \<Rightarrow> [] | Some p \<Rightarrow> [user_row u p])),
       after q (sql_exists u) db)"
    and "view (A (after q (sql_exists u) db)) = view (A db)"
    and "db_ok ok A (after q (sql_exists u) db)"
  by (rule select_run [OF assms(1) reads_exists [OF assms(2)],
        where R = "\<lambda>v. case users_tab v u of None \<Rightarrow> [] | Some p \<Rightarrow> [user_row u p]"],
      simp_all add: exec_Select_all cond_ok_users filter_user split: option.split)+

lemma insert_user_query:
  assumes "db_ok ok A db" and "safe_text u" and "safe_text p"
  shows "db_query q (sql_insert_user u p) db = (Ret [], after q (sql_insert_user u p) db)"
    and "view (A (after q (sql_insert_user u p) db)) =
      (\<lambda>v. if users_tab v u = None then v\<lparr>users_tab := (users_tab v)(u \<mapsto> p)\<rparr> else v) (view (A db))"
    and "db_ok ok A (after q (sql_insert_user u p) db)"
  by (rule effect_run [OF assms(1) reads_insert_user [OF assms(2,3)],
        where F = "\<lambda>v. if users_tab v u = None then v\<lparr>users_tab := (users_tab v)(u \<mapsto> p)\<rparr> else v"];
      rule exec_insert_user; simp add: assms)+

lemma run_isExist:
  "db_ok ok A (users_database s) \<Longrightarrow> safe_text u \<Longrightarrow>
   isExist q u s = (Ret (users_tab (view (A (users_database s))) u \<noteq> None),
     s\<lparr>users_database := after q (sql_exists u) (users_database s)\<rparr>)"
  by (simp add: isExist_def prog_simps exists_query(1) DataBase_Empty_def split: option.split)

lemma Login_refines:
  assumes "safe_text u" and "safe_text p"
  shows "refines (u_ok ok A) (u_abs A) (Login q sock u p) (spec_Login sock u p)"
  using assms
  by (intro refinesI)
     (simp add: Login_def valid_iff spec_Login_def u_ok_def u_abs_def put_online_def Let_def prog_simps
        login_query DataBase_Empty_def)

lemma Register_refines:
  assumes "safe_text u" and "safe_text p"
  shows "refines (u_ok ok A) (u_abs A) (Register q u p) (spec_Register u p)"
  using assms
  by (intro refinesI)
     (simp add: Register_def valid_iff spec_Register_def u_ok_def u_abs_def Let_def prog_simps
        registered_query insert_user_query DataBase_Empty_def split: option.split)

end

end
