(* ===== verification/Demo.thy ===== *)
theory Demo
  imports Packets Accounts
begin

text \<open>
  A small concrete database on the reference engine: four accounts, one group with an
  administrator, a member with the right to write and one with the right to read, and one item.
  It shows that the hypotheses of the properties can hold.
\<close>

definition demo :: store where
  "demo = \<lparr>created = (\<lambda>_. True),
     rows = (\<lambda>t. case t of
        Users \<Rightarrow> [[VText ''amit'', VText ''secret1''], [VText ''dana'', VText ''secret2''],
                   [VText ''noam'', VText ''secret3''], [VText ''gili'', VText ''secret4'']]
      | PublicGroups \<Rightarrow> [[VInt 1, VText ''home'', VText ''amit'', VText ''2017-01-01'', VInt 3]]
      | Users_In_Groups \<Rightarrow>
          [[VInt 1, VText ''amit'', VText ''admin''], [VInt 1, VText ''dana'', VText ''fc''],
           [VInt 1, VText ''noam'', VText ''r'']]
      | Lists \<Rightarrow> [[VInt 1, VText ''milk'', VInt 2, VText ''fresh'']]
      | UsersPackets \<Rightarrow> []),
     seq = (\<lambda>t. case t of PublicGroups \<Rightarrow> 1 | _ \<Rightarrow> 0)\<rparr>"

definition demo_q :: "store engine" where
  "demo_q = query ref_sqlite"

definition id_abs :: "store \<Rightarrow> store" where
  "id_abs = (\<lambda>db. db)"

lemma distinct_singleton: "distinct xs \<Longrightarrow> set xs = {x} \<Longrightarrow> xs = [x]"
  by (cases xs) (auto simp: subset_singleton_iff)

lemma g_abs_mtx [simp]: "mtx (g_abs A s) = mtx s"
  by (simp add: g_abs_def)

lemma demo_engine: "sql_query demo_q id_abs wf_store"
  unfolding demo_q_def id_abs_def by (rule ref_engine.stmt.sql_query_axioms)

lemma demo_rows [simp]:
  "rows demo Users = [[VText ''amit'', VText ''secret1''], [VText ''dana'', VText ''secret2''],
     [VText ''noam'', VText ''secret3''], [VText ''gili'', VText ''secret4'']]"
  "rows demo PublicGroups = [[VInt 1, VText ''home'', VText ''amit'', VText ''2017-01-01'', VInt 3]]"
  "rows demo Users_In_Groups = [[VInt 1, VText ''amit'', VText ''admin''], [VInt 1, VText ''dana'', VText ''fc''],
     [VInt 1, VText ''noam'', VText ''r'']]"
  "rows demo Lists = [[VInt 1, VText ''milk'', VInt 2, VText ''fresh'']]"
  "rows demo UsersPackets = []"
  "seq demo PublicGroups = 1" "seq demo UsersPackets = 0" "created demo t"
  by (simp_all add: demo_def)

lemma demo_wf: "wf_store demo"
proof -
  have "wf_table t (rows demo t)" for t
    by (cases t) (simp_all add: wf_table_def wt_row_def)
  moreover have "0 \<le> seq demo t \<and> seq demo t < 2 ^ 63" for t
    by (cases t) (simp_all add: demo_def)
  moreover have "0 < int_cell t C_code r \<and> int_cell t C_code r \<le> seq demo t"
    if "autoincrement t" "r \<in> set (rows demo t)" for t r
    using that by (cases t) (auto simp: int_cell_auto)
  ultimately show ?thesis by (simp add: wf_store_def)
qed

lemma demo_ready: "ready demo"
  by (simp add: ready_def)

lemma demo_ok: "db_ok wf_store id_abs demo"
  by (simp add: db_ok_def id_abs_def demo_wf demo_ready)

lemma demo_view [simp]:
  "users_tab (view demo) = [''gili'' \<mapsto> ''secret4'', ''noam'' \<mapsto> ''secret3'', ''dana'' \<mapsto> ''secret2'', ''amit'' \<mapsto> ''secret1'']"
  "groups_tab (view demo) =
     [1 \<mapsto> \<lparr>g_name = ''home'', g_admin = ''amit'', g_date = ''2017-01-01'', g_users = 3\<rparr>]"
  "members_tab (view demo) = [(1, ''noam'') \<mapsto> ''r'', (1, ''dana'') \<mapsto> ''fc'', (1, ''amit'') \<mapsto> ''admin'']"
  "items_tab (view demo) = [(1, ''milk'') \<mapsto> (2, ''fresh'')]"
  "packets_tab (view demo) = Map.empty"
  "last_group (view demo) = 1" "last_packet (view demo) = 0"
  by (simp_all add: view_def entry_defs)

lemma demo_inv: "group_inv (view demo)"
proof (rule group_invI)
  show "group_codes_ok (view demo)" using view_codes_ok [OF demo_wf] .
  fix k show "group_at (view demo) k"
  proof (cases "k = 1")
    case True
    then have "members_of (view demo) k = {''amit'', ''dana'', ''noam''}"
      by (auto simp: members_of_def)
    then show ?thesis using True by (simp add: group_at_def)
  next
    case False
    then show ?thesis by (simp add: group_at_def members_of_def)
  qed
qed

lemma demo_code: "is_code ''1''" "code_val ''1'' = 1" "is_code ''5''" "code_val ''5'' = 5"
  by (simp_all add: is_code_def code_val_def is_digit_def dec_val_def digit_val_def)

lemma demo_names [simp]:
  "safe_text ''amit''" "safe_text ''dana''" "safe_text ''noam''" "safe_text ''lior''"
  "safe_text ''secret1''" "safe_text ''secret9''" "safe_text ''milk''" "safe_text ''bread''"
  "safe_text ''2017-01-01''" "safe_text ''office''" "safe_text ''@200|1|milk||''"
  "safe_text ''gili''"
  by (simp_all add: safe_text_def)

lemma to_string_demo [simp]: "to_string 1 = ''1''" "to_string 2 = ''2''"
  by (simp_all add: to_string_def dec_digits.simps digit_char_def char_of_def bit_iff_odd)

definition demo_guarded :: "store guarded" where
  "demo_guarded = \<lparr>database = demo, mtx = False\<rparr>"

definition demo_users :: "store users" where
  "demo_users = \<lparr>users_database = demo, online_users = Map.empty, online_users_opposite = Map.empty\<rparr>"

lemma demo_simps [simp]:
  "database demo_guarded = demo" "mtx demo_guarded = False" "id_abs d = d"
  by (simp_all add: demo_guarded_def id_abs_def)

lemma demo_g_ok: "g_ok wf_store id_abs demo_guarded"
  by (simp add: g_ok_def demo_guarded_def demo_ok)

lemma demo_g_abs: "g_abs id_abs demo_guarded = \<lparr>database = view demo, mtx = False\<rparr>"
  by (simp add: g_abs_def demo_guarded_def id_abs_def)

lemma demo_u_ok: "u_ok wf_store id_abs demo_users"
  by (simp add: u_ok_def demo_users_def demo_ok)

lemma demo_u_abs:
  "u_abs id_abs demo_users = \<lparr>users_database = view demo, online_users = Map.empty, online_users_opposite = Map.empty\<rparr>"
  by (simp add: u_abs_def demo_users_def id_abs_def)

end
