(* ===== verification/Invariants.thy ===== *)
theory Invariants
  imports Packets Accounts
begin

text \<open>
  The invariant of the groups under the operations of every component, and the relation
  \<open>acts\<close>: one call of an operation by a user, with arguments that can be spliced into SQL, on the
  database all components share (\<open>db_call\<close> when it does not matter by whom).
\<close>

section \<open>Items, accounts and packets\<close>

lemma item_tab_simps [simp]:
  "groups_tab (set_item k i x v) = groups_tab v" "groups_tab (drop_item k i v) = groups_tab v"
  "members_tab (set_item k i x v) = members_tab v" "members_tab (drop_item k i v) = members_tab v"
  "last_group (set_item k i x v) = last_group v" "last_group (drop_item k i v) = last_group v"
  "items_tab (set_item k i x v) = (items_tab v)((k, i) \<mapsto> x)"
  "items_tab (drop_item k i v) = (items_tab v)((k, i) := None)"
  by (simp_all add: set_item_def drop_item_def)

lemma inv_items:
  assumes inv: "group_inv v" and same: "groups_tab v' = groups_tab v" "members_tab v' = members_tab v"
      "last_group v' = last_group v"
    and items: "\<And>k i. items_tab v' (k, i) \<noteq> None \<Longrightarrow> group_of v k \<noteq> None"
  shows "group_inv v'"
proof (rule group_invI)
  show "group_codes_ok v'"
    using inv_codes [OF inv] by (simp add: group_codes_ok_def same)
  fix k
  have "group_at v k" using inv by (simp add: group_inv_def)
  moreover have "members_of v' k = members_of v k" by (simp add: members_of_def same)
  moreover have "group_of v k = None \<Longrightarrow> item_of v' k x = None" for x
    using items [of k x] by (cases "item_of v' k x") simp_all
  ultimately show "group_at v' k"
    by (cases "group_of v k") (simp_all add: group_at_def same)
qed

lemma group_inv_item:
  assumes "group_inv v" and "items_tab v (k, i) \<noteq> None"
  shows "group_of v k \<noteq> None"
proof -
  have "group_at v k" using assms(1) by (simp add: group_inv_def)
  with assms(2) show ?thesis by (auto simp: group_at_def split: option.splits)
qed

lemma inv_set_item:
  assumes inv: "group_inv v" and "group_of v k \<noteq> None"
  shows "group_inv (set_item k i x v)"
  by (rule inv_items [OF inv])
     (use assms group_inv_item [OF inv] in \<open>fastforce split: if_splits\<close>)+

lemma inv_drop_item:
  assumes inv: "group_inv v"
  shows "group_inv (drop_item k i v)"
  by (rule inv_items [OF inv]) (use group_inv_item [OF inv] in \<open>fastforce split: if_splits\<close>)+

lemma inv_change_item:
  assumes inv: "group_inv v" and "group_of v k \<noteq> None"
  shows "group_inv (change_item k i i' x v)"
  using inv_set_item [OF inv_drop_item [OF inv]] assms by (simp add: change_item_def)

lemma addItem_inv:
  assumes "group_inv (database s)"
  shows "group_inv (database (snd (spec_addItem e k i n m s)))"
  using assms group_inv_member [OF assms] inv_set_item [OF assms]
  by (fastforce simp: spec_addItem_def spec_writer_def locked_def Let_def split: option.split sum.split)

lemma removeItem_inv:
  assumes "group_inv (database s)"
  shows "group_inv (database (snd (spec_removeItem e k i s)))"
  using assms inv_drop_item [OF assms]
  by (auto simp: spec_removeItem_def spec_writer_def locked_def Let_def split: option.split)

lemma updateItem_inv:
  assumes "group_inv (database s)"
  shows "group_inv (database (snd (spec_updateItem e k key i n m s)))"
  using assms group_inv_member [OF assms] inv_change_item [OF assms]
  by (fastforce simp: spec_updateItem_def spec_writer_def locked_def Let_def split: option.split sum.split)

lemma Register_inv:
  assumes "group_inv (users_database s)"
  shows "group_inv (users_database (snd (spec_Register u p s)))"
proof -
  have "group_inv ((users_database s)\<lparr>users_tab := f\<rparr>)" for f
    by (rule inv_items [OF assms]) (use group_inv_item [OF assms] in auto)
  with assms show ?thesis by (simp add: spec_Register_def Let_def)
qed

lemma Login_inv:
  "group_inv (users_database s) \<Longrightarrow> group_inv (users_database (snd (spec_Login sock u p s)))"
  by (simp add: spec_Login_def put_online_def)

lemma packets_inv:
  assumes "group_inv v"
  shows "group_inv (save_packet u m v)" and "group_inv (clear_packets u v)"
proof -
  have "group_inv (v\<lparr>packets_tab := f, last_packet := c\<rparr>)" "group_inv (v\<lparr>packets_tab := f\<rparr>)" for f c
    by (rule inv_items [OF assms]; use group_inv_item [OF assms] in auto)+
  with assms show "group_inv (save_packet u m v)" "group_inv (clear_packets u v)"
    by (simp_all add: save_packet_def clear_packets_def Let_def)
qed

section \<open>Calls\<close>

text \<open>
  A call the handler makes for the user \<open>e\<close>; accounts and stored packets are everybody's.  Nobody
  calls \<open>deleteAllUserPackets\<close>: the only call of it is commented out.
\<close>

inductive acts :: "'db engine \<Rightarrow> ('db \<Rightarrow> store) \<Rightarrow> string \<Rightarrow> 'db \<Rightarrow> 'db \<Rightarrow> bool"
  for q :: "'db engine" and A :: "'db \<Rightarrow> store" and e :: string where
  call_createGroup: "\<lbrakk>safe_text now; safe_text n; safe_text e; last_group (view (A d)) + 1 < 2 ^ 63\<rbrakk> \<Longrightarrow>
    acts q A e d (database (snd (createGroup q now n e \<lparr>database = d, mtx = b\<rparr>)))"
| call_removeGroup: "\<lbrakk>is_code g; safe_text e\<rbrakk> \<Longrightarrow>
    acts q A e d (database (snd (removeGroup q e g \<lparr>database = d, mtx = b\<rparr>)))"
| call_addUser: "\<lbrakk>is_code g; safe_text e; safe_text u; safe_text st\<rbrakk> \<Longrightarrow>
    acts q A e d (database (snd (addUser q e g u st \<lparr>database = d, mtx = b\<rparr>)))"
| call_removeUser: "\<lbrakk>is_code g; safe_text e; safe_text u\<rbrakk> \<Longrightarrow>
    acts q A e d (database (snd (removeUser q e g u \<lparr>database = d, mtx = b\<rparr>)))"
| call_setUserStatus: "\<lbrakk>is_code g; safe_text e; safe_text u; safe_text st\<rbrakk> \<Longrightarrow>
    acts q A e d (database (snd (setUserStatus q e g u st \<lparr>database = d, mtx = b\<rparr>)))"
| call_addItem: "\<lbrakk>is_code g; safe_text e; safe_text i; is_code n; safe_text m\<rbrakk> \<Longrightarrow>
    acts q A e d (database (snd (addItem q e g i n m \<lparr>database = d, mtx = b\<rparr>)))"
| call_removeItem: "\<lbrakk>is_code g; safe_text e; safe_text i\<rbrakk> \<Longrightarrow>
    acts q A e d (database (snd (removeItem q e g i \<lparr>database = d, mtx = b\<rparr>)))"
| call_updateItem: "\<lbrakk>is_code g; safe_text e; safe_text key; safe_text i; safe_text m\<rbrakk> \<Longrightarrow>
    acts q A e d (database (snd (updateItem q e g key i n m \<lparr>database = d, mtx = b\<rparr>)))"
| call_Register: "\<lbrakk>safe_text u; safe_text p\<rbrakk> \<Longrightarrow>
    acts q A e d (users_database (snd (Register q u p
      \<lparr>users_database = d, online_users = on, online_users_opposite = op\<rparr>)))"
| call_Login: "\<lbrakk>safe_text u; safe_text p\<rbrakk> \<Longrightarrow>
    acts q A e d (users_database (snd (Login q sock u p
      \<lparr>users_database = d, online_users = on, online_users_opposite = op\<rparr>)))"
| call_addUserPacket: "\<lbrakk>safe_text u; safe_text m\<rbrakk> \<Longrightarrow> acts q A e d (snd (addUserPacket q u m d))"

inductive db_call :: "'db engine \<Rightarrow> ('db \<Rightarrow> store) \<Rightarrow> 'db \<Rightarrow> 'db \<Rightarrow> bool"
  for q :: "'db engine" and A :: "'db \<Rightarrow> store" where
  one_call: "acts q A e d d' \<Longrightarrow> db_call q A d d'"
| call_deleteAllUserPackets: "safe_text u \<Longrightarrow> db_call q A d (snd (deleteAllUserPackets q u d))"

inductive_cases db_callE: "db_call q A d d'"

section \<open>The same calls on the tables\<close>

text \<open>What a call does to the tables, as the abstract programs of the components say.\<close>

inductive spec_acts :: "string \<Rightarrow> ilist \<Rightarrow> ilist \<Rightarrow> bool" for e :: string where
  spec_createGroup_act: "\<lbrakk>database s = v; safe_text now; safe_text n; safe_text e; last_group v + 1 < 2 ^ 63\<rbrakk> \<Longrightarrow>
    spec_acts e v (database (snd (spec_createGroup now n e s)))"
| spec_removeGroup_act: "\<lbrakk>database s = v; safe_text e\<rbrakk> \<Longrightarrow>
    spec_acts e v (database (snd (spec_removeGroup e k s)))"
| spec_addUser_act: "\<lbrakk>database s = v; safe_text e; safe_text u; safe_text st\<rbrakk> \<Longrightarrow>
    spec_acts e v (database (snd (spec_addUser e k u st s)))"
| spec_removeUser_act: "\<lbrakk>database s = v; safe_text e; safe_text u\<rbrakk> \<Longrightarrow>
    spec_acts e v (database (snd (spec_removeUser e k u s)))"
| spec_setUserStatus_act: "\<lbrakk>database s = v; safe_text e; safe_text u; safe_text st\<rbrakk> \<Longrightarrow>
    spec_acts e v (database (snd (spec_setUserStatus e k u st s)))"
| spec_addItem_act: "\<lbrakk>database s = v; safe_text e; safe_text i; safe_text m\<rbrakk> \<Longrightarrow>
    spec_acts e v (database (snd (spec_addItem e k i n m s)))"
| spec_removeItem_act: "\<lbrakk>database s = v; safe_text e; safe_text i\<rbrakk> \<Longrightarrow>
    spec_acts e v (database (snd (spec_removeItem e k i s)))"
| spec_updateItem_act: "\<lbrakk>database s = v; safe_text e; safe_text key; safe_text i; safe_text m\<rbrakk> \<Longrightarrow>
    spec_acts e v (database (snd (spec_updateItem e k key i n m s)))"
| spec_Register_act: "\<lbrakk>users_database s = v; safe_text u; safe_text p\<rbrakk> \<Longrightarrow>
    spec_acts e v (users_database (snd (spec_Register u p s)))"
| spec_Login_act: "\<lbrakk>users_database s = v; safe_text u; safe_text p\<rbrakk> \<Longrightarrow>
    spec_acts e v (users_database (snd (spec_Login sock u p s)))"
| spec_packet_act: "\<lbrakk>safe_text u; safe_text m\<rbrakk> \<Longrightarrow> spec_acts e v (save_packet u m v)"

lemma refines_end:
  assumes "refines ok \<alpha> m M" and "ok s"
  shows "ok (snd (m s))" and "\<alpha> (snd (m s)) = snd (M (\<alpha> s))"
  using assms by (auto elim!: refinesE)

lemma guarded_act:
  assumes "d' = database (snd (m \<lparr>database = d, mtx = b\<rparr>))"
    and "refines (g_ok ok A) (g_abs A) m M" and "db_ok ok A d"
    and "\<And>s. database s = view (A d) \<Longrightarrow> spec_acts e (view (A d)) (database (snd (M s)))"
  shows "db_ok ok A d' \<and> spec_acts e (view (A d)) (view (A d'))"
  using refines_end [OF assms(2), of "\<lparr>database = d, mtx = b\<rparr>"] assms(1,3)
    assms(4) [of "g_abs A \<lparr>database = d, mtx = b\<rparr>"]
  by (auto simp: g_ok_def g_abs_def) (metis guarded.select_convs(1))

lemma users_act:
  assumes "d' = users_database (snd (m \<lparr>users_database = d, online_users = on, online_users_opposite = op\<rparr>))"
    and "refines (u_ok ok A) (u_abs A) m M" and "db_ok ok A d"
    and "\<And>s. users_database s = view (A d) \<Longrightarrow> spec_acts e (view (A d)) (users_database (snd (M s)))"
  shows "db_ok ok A d' \<and> spec_acts e (view (A d)) (view (A d'))"
  using refines_end [OF assms(2), of "\<lparr>users_database = d, online_users = on, online_users_opposite = op\<rparr>"] assms(1,3)
    assms(4) [of "u_abs A \<lparr>users_database = d, online_users = on, online_users_opposite = op\<rparr>"]
  by (auto simp: u_ok_def u_abs_def) (metis users.select_convs(1))

context sql_query
begin

text \<open>Every call is simulated: what holds of the tables can be proved on the abstract programs.\<close>

lemma acts_simulated:
  assumes "acts q A e d d'" and ok: "db_ok ok A d"
  shows "db_ok ok A d' \<and> spec_acts e (view (A d)) (view (A d'))"
  using assms(1)
proof cases
  case (call_createGroup now n b)
  then show ?thesis
    by (intro guarded_act [OF call_createGroup(1) createGroup_refines ok]) (auto intro: spec_createGroup_act)
next
  case (call_removeGroup g b)
  then show ?thesis
    by (intro guarded_act [OF call_removeGroup(1) removeGroup_refines ok]) (auto intro: spec_removeGroup_act)
next
  case (call_addUser g u st b)
  then show ?thesis
    by (intro guarded_act [OF call_addUser(1) addUser_refines ok]) (auto intro: spec_addUser_act)
next
  case (call_removeUser g u b)
  then show ?thesis
    by (intro guarded_act [OF call_removeUser(1) removeUser_refines ok]) (auto intro: spec_removeUser_act)
next
  case (call_setUserStatus g u st b)
  then show ?thesis
    by (intro guarded_act [OF call_setUserStatus(1) setUserStatus_refines ok]) (auto intro: spec_setUserStatus_act)
next
  case (call_addItem g i n m b)
  then show ?thesis
    by (intro guarded_act [OF call_addItem(1) addItem_refines ok]) (auto intro: spec_addItem_act)
next
  case (call_removeItem g i b)
  then show ?thesis
    by (intro guarded_act [OF call_removeItem(1) removeItem_refines ok]) (auto intro: spec_removeItem_act)
next
  case (call_updateItem g key i m n b)
  then show ?thesis
    by (intro guarded_act [OF call_updateItem(1) updateItem_refines ok]) (auto intro: spec_updateItem_act)
next
  case (call_Register u p on op)
  then show ?thesis
    by (intro users_act [OF call_Register(1) Register_refines ok]) (auto intro: spec_Register_act)
next
  case (call_Login u p sock on op)
  then show ?thesis
    by (intro users_act [OF call_Login(1) Login_refines ok]) (auto intro: spec_Login_act)
next
  case (call_addUserPacket u m)
  then show ?thesis
    using refines_end [OF addUserPacket_refines ok, of u m] by (simp add: prog_simps spec_packet_act)
qed

end

section \<open>The invariant\<close>

lemma spec_acts_inv: "spec_acts e v v' \<Longrightarrow> group_inv v \<Longrightarrow> group_inv v'"
  by (erule spec_acts.cases)
    (auto simp: createGroup_inv removeGroup_inv addUser_inv removeUser_inv setUserStatus_inv
      addItem_inv removeItem_inv updateItem_inv Register_inv Login_inv packets_inv)

text \<open>The invariant of the database, for the concrete state.\<close>

definition db_inv :: "('db \<Rightarrow> bool) \<Rightarrow> ('db \<Rightarrow> store) \<Rightarrow> 'db \<Rightarrow> bool" where
  "db_inv ok A d \<longleftrightarrow> db_ok ok A d \<and> group_inv (view (A d))"

context sql_query
begin

lemma acts_inv: "acts q A e d d' \<Longrightarrow> db_inv ok A d \<Longrightarrow> db_inv ok A d'"
  using acts_simulated spec_acts_inv unfolding db_inv_def by blast

lemma db_call_inv:
  assumes "db_call q A d d'" and inv: "db_inv ok A d"
  shows "db_inv ok A d'"
  using assms(1)
proof (rule db_callE)
  fix e assume "acts q A e d d'"
  then show "db_inv ok A d'" using inv by (rule acts_inv)
next
  fix u assume "d' = snd (deleteAllUserPackets q u d)" "safe_text u"
  then show "db_inv ok A d'"
    using refines_end [OF deleteAllUserPackets_refines, of u d] inv
    by (simp add: db_inv_def prog_simps packets_inv)
qed

lemma db_calls_inv:
  "(db_call q A)\<^sup>*\<^sup>* d d' \<Longrightarrow> db_inv ok A d \<Longrightarrow> db_inv ok A d'"
  by (induction rule: rtranclp_induct) (auto dest: db_call_inv)

end

section \<open>What stays\<close>

text \<open>Accounts are never changed, and what is stored for a user is never taken away.\<close>

definition packet_codes_ok :: "ilist \<Rightarrow> bool" where
  "packet_codes_ok v \<longleftrightarrow> (\<forall>c x. packets_tab v c = Some x \<longrightarrow> c \<le> last_packet v)"

lemma view_packet_codes:
  assumes "wf_store st"
  shows "packet_codes_ok (view st)"
proof -
  have "c \<le> seq st UsersPackets" if "map_of (map packet_entry (rows st UsersPackets)) c = Some x" for c x
  proof -
    have "packet_row c x \<in> set (rows st UsersPackets)"
      using that packets_t.lookup_iff [OF wf_tab [OF assms]] by simp
    moreover have "int_cell UsersPackets C_code (packet_row c x) = c" by (cases x) (simp add: int_cell_auto)
    ultimately show ?thesis using assms by (force simp: wf_store_def)
  qed
  then show ?thesis by (auto simp: packet_codes_ok_def view_def)
qed

lemma other_tabs [simp]:
  "users_tab (set_member k u st v) = users_tab v" "packets_tab (set_member k u st v) = packets_tab v"
  "users_tab (drop_member k u v) = users_tab v" "packets_tab (drop_member k u v) = packets_tab v"
  "users_tab (set_count k n v) = users_tab v" "packets_tab (set_count k n v) = packets_tab v"
  "users_tab (new_group k i v) = users_tab v" "packets_tab (new_group k i v) = packets_tab v"
  "users_tab (erase_group k v) = users_tab v" "packets_tab (erase_group k v) = packets_tab v"
  "users_tab (set_item k x y v) = users_tab v" "packets_tab (set_item k x y v) = packets_tab v"
  "users_tab (drop_item k x v) = users_tab v" "packets_tab (drop_item k x v) = packets_tab v"
  "users_tab (change_item k x x' y v) = users_tab v" "packets_tab (change_item k x x' y v) = packets_tab v"
  "users_tab (save_packet u m v) = users_tab v"
  by (simp_all add: set_member_def drop_member_def set_count_def new_group_def erase_group_def
      set_item_def drop_item_def change_item_def save_packet_def Let_def)

definition same_accounts :: "ilist \<Rightarrow> ilist \<Rightarrow> bool" where
  "same_accounts v v' \<longleftrightarrow> users_tab v' = users_tab v \<and> packets_tab v' = packets_tab v"

lemma groups_leave_accounts:
  "same_accounts (database s) (database (snd (spec_createGroup now n e s)))"
  "same_accounts (database s) (database (snd (spec_removeGroup e k s)))"
  "same_accounts (database s) (database (snd (spec_addUser e k u st s)))"
  "same_accounts (database s) (database (snd (spec_removeUser e k u s)))"
  "same_accounts (database s) (database (snd (spec_setUserStatus e k u st s)))"
  by (auto simp: same_accounts_def spec_createGroup_def spec_removeGroup_def spec_addUser_def
      spec_removeUser_def spec_setUserStatus_def locked_def Let_def split: option.split sum.split)

lemma items_leave_accounts:
  "same_accounts (database s) (database (snd (spec_addItem e k i n m s)))"
  "same_accounts (database s) (database (snd (spec_removeItem e k i s)))"
  "same_accounts (database s) (database (snd (spec_updateItem e k x i n m s)))"
  by (auto simp: same_accounts_def spec_addItem_def spec_removeItem_def spec_updateItem_def
      spec_writer_def locked_def Let_def split: option.split sum.split)

lemma spec_acts_accounts: "spec_acts e v v' \<Longrightarrow> map_le (users_tab v) (users_tab v')"
  by (erule spec_acts.cases;
      use groups_leave_accounts items_leave_accounts in \<open>fastforce simp: same_accounts_def
        spec_Register_def spec_Login_def put_online_def Let_def map_le_def\<close>)

lemma spec_acts_packets: "spec_acts e v v' \<Longrightarrow> packet_codes_ok v \<Longrightarrow> map_le (packets_tab v) (packets_tab v')"
  by (erule spec_acts.cases;
      use groups_leave_accounts items_leave_accounts in \<open>fastforce simp: same_accounts_def packet_codes_ok_def
        spec_Register_def spec_Login_def put_online_def save_packet_def Let_def map_le_def\<close>)

end
