(* ===== verification/Config.thy ===== *)
theory Config
  imports Prelude
begin

text \<open>
  \<open>Config.h\<close>: the message codes of the protocol and the binary search
  \<open>FIND_MSG_CODE\<close> over the table of known codes.
\<close>

section \<open>Message codes\<close>

definition EN_REGISTER :: int where [simp]: "EN_REGISTER = 1"
definition EN_LOGIN :: int where [simp]: "EN_LOGIN = 2"
definition EN_LOGOUT :: int where [simp]: "EN_LOGOUT = 3"

definition GR_GROUP_LIST :: int where [simp]: "GR_GROUP_LIST = 10"
definition GR_CREATE_GROUP :: int where [simp]: "GR_CREATE_GROUP = 11"
definition GR_JOIN_GROUP :: int where [simp]: "GR_JOIN_GROUP = 12"
definition GR_REMOVE_USER :: int where [simp]: "GR_REMOVE_USER = 13"
definition GR_CLOSE_GROUP :: int where [simp]: "GR_CLOSE_GROUP = 14"
definition GR_SET_STATUS :: int where [simp]: "GR_SET_STATUS = 15"
definition GR_INVITE_USER :: int where [simp]: "GR_INVITE_USER = 16"

definition LST_ADD_ITEM :: int where [simp]: "LST_ADD_ITEM = 20"
definition LST_REMOVE_ITEM :: int where [simp]: "LST_REMOVE_ITEM = 21"
definition LST_SET_ITEM :: int where [simp]: "LST_SET_ITEM = 22"

definition CH_SEND :: int where [simp]: "CH_SEND = 30"
definition RE_RESTORE :: int where [simp]: "RE_RESTORE = 40"

definition PGM_SCC_LOGIN :: int where [simp]: "PGM_SCC_LOGIN = 100"
definition PGM_SCC_REGISTER :: int where [simp]: "PGM_SCC_REGISTER = 101"
definition PGM_SCC_ACTE_CREATED :: int where [simp]: "PGM_SCC_ACTE_CREATED = 102"
definition PGM_SCC_ACTE_JOIN :: int where [simp]: "PGM_SCC_ACTE_JOIN = 103"
definition PGM_SCC_ACTE_CLOSE :: int where [simp]: "PGM_SCC_ACTE_CLOSE = 104"
definition PGM_SCC_ACTE_EXIT :: int where [simp]: "PGM_SCC_ACTE_EXIT = 105"
definition PGM_GET_GROUPS_LIST :: int where [simp]: "PGM_GET_GROUPS_LIST = 106"

definition PGM_CTR_NEW_USER :: int where [simp]: "PGM_CTR_NEW_USER = 110"
definition PGM_CTR_REMOVE_USER :: int where [simp]: "PGM_CTR_REMOVE_USER = 111"
definition PGM_CTR_STATUS_CHANGED :: int where [simp]: "PGM_CTR_STATUS_CHANGED = 112"
definition PGM_CTR_GROUP_CLOSED :: int where [simp]: "PGM_CTR_GROUP_CLOSED = 113"
definition PGM_CTR_USER_LEAVE :: int where [simp]: "PGM_CTR_USER_LEAVE = 114"
definition PGM_ERR_LOGIN :: int where [simp]: "PGM_ERR_LOGIN = 120"
definition PGM_ERR_REGISTER_INFO :: int where [simp]: "PGM_ERR_REGISTER_INFO = 121"
definition PGM_ERR_NAME_TAKEN :: int where [simp]: "PGM_ERR_NAME_TAKEN = 122"
definition PGM_ERR_GROUP_FULL :: int where [simp]: "PGM_ERR_GROUP_FULL = 123"
definition PGM_ERR_GROUP_NOT_FOUND :: int where [simp]: "PGM_ERR_GROUP_NOT_FOUND = 124"
definition PGM_ERR_INFO_TOO_LONG :: int where [simp]: "PGM_ERR_INFO_TOO_LONG = 125"
definition PGM_MER_MESSAGE :: int where [simp]: "PGM_MER_MESSAGE = 130"
definition PGM_MER_ACCESS :: int where [simp]: "PGM_MER_ACCESS = 131"

definition LST_SCC_ADD_ITEM :: int where [simp]: "LST_SCC_ADD_ITEM = 200"
definition LST_SCC_REMOVE_ITEM :: int where [simp]: "LST_SCC_REMOVE_ITEM = 201"
definition LST_SCC_SET_ITEM :: int where [simp]: "LST_SCC_SET_ITEM = 202"
definition LST_SCC_ITEM_SUGESSTED :: int where [simp]: "LST_SCC_ITEM_SUGESSTED = 203"
definition ACT_ERR_ILLEGAL_STATUS :: int where [simp]: "ACT_ERR_ILLEGAL_STATUS = 220"
definition ACT_ERR_NO_SUCH_USERNAME :: int where [simp]: "ACT_ERR_NO_SUCH_USERNAME = 221"
definition CHA_SCC :: int where [simp]: "CHA_SCC = 300"

definition CHA_ERR :: int where [simp]: "CHA_ERR = 310"
definition RE_GET_RESTORE :: int where [simp]: "RE_GET_RESTORE = 400"
definition ERR_GENERAL :: int where [simp]: "ERR_GENERAL = 500"

definition ALL_MESSAGES_CODES :: "int list" where
  "ALL_MESSAGES_CODES =
     [1, 2, 3, 10, 11, 12, 13, 14, 15, 16, 20, 21, 22, 23, 24, 30, 40,
      101, 102, 103, 104, 105, 110, 111, 112, 113, 114, 120, 121, 122,
      123, 124, 125, 130, 131, 200, 201, 202, 203, 220, 221, 300, 301, 400, 500]"

definition N_CODES :: int where
  "N_CODES = int (length ALL_MESSAGES_CODES)"

section \<open>The search\<close>

text \<open>
  The loop keeps \<open>left\<close> and \<open>right\<close> as C \<open>int\<close>s.  A read of the table outside its bounds
  would be undefined, so it makes the model return \<open>None\<close>; \<open>floor\<close> of an integer quotient
  is that quotient, and the sum is not negative where the loop runs.
\<close>

function find_loop :: "int list \<Rightarrow> int \<Rightarrow> int \<Rightarrow> int \<Rightarrow> bool option" where
  "find_loop tab code left right =
    (if left \<le> right then
       (let middle = (left + right) div 2 in
        if \<not> (0 \<le> middle \<and> middle < int (length tab)) then None
        else if tab ! nat middle > code then find_loop tab code left (middle - 1)
        else if tab ! nat middle < code then find_loop tab code (middle + 1) right
        else Some True)
     else Some False)"
  by pat_completeness auto
termination
  by (relation "measure (\<lambda>(tab, code, left, right). nat (right - left + 1))") auto

declare find_loop.simps [simp del]

definition FIND_MSG_CODE :: "int \<Rightarrow> bool option" where
  "FIND_MSG_CODE code =
     find_loop ALL_MESSAGES_CODES code 0 (N_CODES - 1)"

text \<open>
  The loop decides membership in the part of a sorted table that lies between its bounds,
  and never leaves the table.
\<close>

lemma find_loop_correct:
  assumes "sorted tab" and "0 \<le> left" and "right < int (length tab)"
  shows "find_loop tab code left right =
    Some (\<exists>i. left \<le> i \<and> i \<le> right \<and> tab ! nat i = code)"
  using assms
proof (induction tab code left right rule: find_loop.induct)
  case (1 tab code left right)
  show ?case
  proof (cases "left \<le> right")
    case False
    then show ?thesis by (subst find_loop.simps) auto
  next
    case True
    define m where "m = (left + right) div 2"
    have m: "left \<le> m" "m \<le> right" "0 \<le> m" "m < int (length tab)"
      using True 1(4,5) by (auto simp: m_def)
    have mono: "tab ! nat i \<le> tab ! nat j" if "0 \<le> i" "i \<le> j" "j < int (length tab)" for i j
      using 1(3) that by (auto simp: sorted_iff_nth_mono)
    consider (gt) "tab ! nat m > code" | (lt) "tab ! nat m < code" | (eq) "tab ! nat m = code"
      by linarith
    then show ?thesis
    proof cases
      case gt
      then have IH: "find_loop tab code left (m - 1) =
          Some (\<exists>i. left \<le> i \<and> i \<le> m - 1 \<and> tab ! nat i = code)"
        using 1(1) [OF True m_def] m 1(3-5) by auto
      have "\<not> (m \<le> i \<and> i \<le> right \<and> tab ! nat i = code)" for i
        using gt mono [of m i] m 1(5) by auto
      then have "(\<exists>i. left \<le> i \<and> i \<le> m - 1 \<and> tab ! nat i = code) \<longleftrightarrow>
          (\<exists>i. left \<le> i \<and> i \<le> right \<and> tab ! nat i = code)"
        using m by (metis le_less_linear order.trans zle_diff1_eq less_imp_le)
      with IH gt m True show ?thesis by (subst find_loop.simps) (simp add: m_def Let_def)
    next
      case lt
      then have IH: "find_loop tab code (m + 1) right =
          Some (\<exists>i. m + 1 \<le> i \<and> i \<le> right \<and> tab ! nat i = code)"
        using 1(2) [OF True m_def] m 1(3-5) by auto
      have "\<not> (left \<le> i \<and> i \<le> m \<and> tab ! nat i = code)" for i
        using lt mono [of i m] m 1(4) by auto
      then have "(\<exists>i. m + 1 \<le> i \<and> i \<le> right \<and> tab ! nat i = code) \<longleftrightarrow>
          (\<exists>i. left \<le> i \<and> i \<le> right \<and> tab ! nat i = code)"
        using m by (metis add1_zle_eq le_less_linear order.trans less_imp_le)
      with IH lt m True show ?thesis by (subst find_loop.simps) (simp add: m_def Let_def)
    next
      case eq
      with m True show ?thesis by (subst find_loop.simps) (auto simp: m_def Let_def)
    qed
  qed
qed

lemma exists_index_set:
  "(\<exists>i. 0 \<le> i \<and> i \<le> int (length tab) - 1 \<and> tab ! nat i = x) \<longleftrightarrow> x \<in> set tab"
proof
  assume "x \<in> set tab"
  then obtain k where "k < length tab" "tab ! k = x" by (auto simp: in_set_conv_nth)
  then show "\<exists>i. 0 \<le> i \<and> i \<le> int (length tab) - 1 \<and> tab ! nat i = x"
    by (intro exI [of _ "int k"]) auto
qed (auto intro!: nth_mem)

lemma FIND_MSG_CODE_mem: "FIND_MSG_CODE code = Some (code \<in> set ALL_MESSAGES_CODES)"
proof -
  have "sorted ALL_MESSAGES_CODES" by (simp add: ALL_MESSAGES_CODES_def)
  then have "FIND_MSG_CODE code =
      Some (\<exists>i. 0 \<le> i \<and> i \<le> int (length ALL_MESSAGES_CODES) - 1 \<and> ALL_MESSAGES_CODES ! nat i = code)"
    unfolding FIND_MSG_CODE_def N_CODES_def by (rule find_loop_correct) auto
  then show ?thesis by (simp only: exists_index_set)
qed

end
