(* ===== verification/Replies.thy ===== *)
theory Replies
  imports Exceptions
begin

text \<open>
  The three overloads of \<open>Manager::makeReceiveMessgae\<close>, which build the texts the server
  sends.  A field of a reply ends with a bar and the reply ends with one more bar.
\<close>

section \<open>Building a reply\<close>

text \<open>The overload for one string.\<close>

definition makeReceive_str :: "int \<Rightarrow> string \<Rightarrow> string" where
  "makeReceive_str msgCode args = ''@'' @ to_string msgCode @ ''|'' @ args @ ''||''"

text \<open>The overload for a vector of strings: the loop appends each argument and a bar.\<close>

fun append_fields :: "string \<Rightarrow> string list \<Rightarrow> string" where
  "append_fields receive [] = receive"
| "append_fields receive (a # as) = append_fields (receive @ a @ ''|'') as"

definition makeReceive_args :: "int \<Rightarrow> string list \<Rightarrow> string" where
  "makeReceive_args msgCode args = append_fields (''@'' @ to_string msgCode @ ''|'') args @ ''|''"

text \<open>
  The overload for the rows of a query: the inner loop runs over the width of the first row,
  with a comma before every cell but the first, and reads the cell of the current row; a row
  that is shorter than the first one is read out of range.
\<close>

fun append_cells :: "string \<Rightarrow> string list \<Rightarrow> nat \<Rightarrow> nat \<Rightarrow> string option" where
  "append_cells receive cells row 0 = Some receive"
| "append_cells receive cells row (Suc n) =
     (if row < length cells
      then append_cells ((if row > 0 then receive @ '','' else receive) @ cells ! row) cells (Suc row) n
      else None)"

fun append_rows :: "string \<Rightarrow> nat \<Rightarrow> string list list \<Rightarrow> string option" where
  "append_rows receive width [] = Some receive"
| "append_rows receive width (r # rs) =
     (case append_cells receive r 0 width of
        None \<Rightarrow> None
      | Some receive' \<Rightarrow> append_rows (receive' @ ''|'') width rs)"

definition makeReceive_rows :: "int \<Rightarrow> string list list \<Rightarrow> string option" where
  "makeReceive_rows msgCode args =
     map_option (\<lambda>r. r @ ''|'')
       (append_rows (''@'' @ to_string msgCode @ ''|'')
         (case args of [] \<Rightarrow> 0 | r # _ \<Rightarrow> length r) args)"

section \<open>What they build\<close>

abbreviation barred :: "string list \<Rightarrow> string" where
  "barred fs \<equiv> concat (map (\<lambda>f. f @ ''|'') fs)"

lemma append_fields_eq: "append_fields receive as = receive @ barred as"
  by (induction as arbitrary: receive) auto

lemma makeReceive_args_eq:
  "makeReceive_args code args = barred ((CHR ''@'' # to_string code) # args) @ ''|''"
  by (simp add: makeReceive_args_def append_fields_eq)

text \<open>A row as one field: its cells with a comma between two of them.\<close>

fun comma_join :: "string list \<Rightarrow> string" where
  "comma_join [] = ''''"
| "comma_join [x] = x"
| "comma_join (x # y # zs) = x @ '','' @ comma_join (y # zs)"

lemma comma_join_snoc: "xs \<noteq> [] \<Longrightarrow> comma_join (xs @ [y]) = comma_join xs @ '','' @ y"
  by (induction xs rule: comma_join.induct) auto

lemma append_cells_eq:
  assumes "row + n \<le> length cells"
  shows "append_cells (pre @ comma_join (take row cells)) cells row n =
    Some (pre @ comma_join (take (row + n) cells))"
  using assms
proof (induction n arbitrary: row)
  case 0
  then show ?case by simp
next
  case (Suc n)
  have "(if row > 0 then (pre @ comma_join (take row cells)) @ '','' else pre @ comma_join (take row cells)) @
      cells ! row = pre @ comma_join (take (Suc row) cells)"
  proof (cases "row = 0")
    case True
    with Suc.prems show ?thesis by (cases cells) auto
  next
    case False
    with Suc.prems have "take row cells \<noteq> []" by auto
    moreover have "take (Suc row) cells = take row cells @ [cells ! row]"
      using Suc.prems by (simp add: take_Suc_conv_app_nth)
    ultimately show ?thesis using False by (simp add: comma_join_snoc)
  qed
  with Suc.IH [of "Suc row"] Suc.prems show ?case by simp
qed

lemma append_rows_eq:
  "\<forall>r \<in> set rows. length r = width \<Longrightarrow>
   append_rows pre width rows = Some (pre @ barred (map comma_join rows))"
proof (induction rows arbitrary: pre)
  case Nil
  then show ?case by simp
next
  case (Cons r rs)
  then show ?case using append_cells_eq [of 0 width r pre] by simp
qed

lemma makeReceive_rows_eq:
  assumes "\<forall>r \<in> set rows. length r = width"
  shows "makeReceive_rows code rows = Some (makeReceive_args code (map comma_join rows))"
proof -
  have "\<forall>r \<in> set rows. length r = (case rows of [] \<Rightarrow> 0 | r # _ \<Rightarrow> length r)"
    using assms by (auto split: list.split)
  then show ?thesis
    by (simp add: makeReceive_rows_def append_rows_eq makeReceive_args_eq)
qed

end
