(* ===== verification/PacketParser.thy ===== *)
theory PacketParser
  imports Config Replies
begin

text \<open>
  \<open>Parser.cpp\<close>: the constructor \<open>Parser(string msg)\<close>, which checks a packet of the form
  \<open>@code|arg1|...|argn||\<close> and takes it apart.  Its checks are the only filter between a
  client and the SQL text the other components build.
\<close>

section \<open>The parser\<close>

record parser =
  p_message :: string
  p_args :: "string list"
  p_msgCode :: int

text \<open>\<open>same_char_in_a_row\<close>: the loop over all \<open>i\<close> with a right neighbour.\<close>

fun same_char_in_a_row :: "string \<Rightarrow> char \<Rightarrow> bool" where
  "same_char_in_a_row (a # b # s) ch \<longleftrightarrow> (a = b \<and> a = ch) \<or> same_char_in_a_row (b # s) ch"
| "same_char_in_a_row _ ch \<longleftrightarrow> False"

definition split :: "string \<Rightarrow> char \<Rightarrow> string list" where
  "split str ch = getline_all str ch"

text \<open>
  The constructor.  \<open>msg.substr(msg.length() - 2, \<dots>)\<close> is the last two characters and
  \<open>msg.substr(0, msg.length() - 1)\<close> all but the last; both are in range because the length
  is at least 4.  \<open>args[0]\<close> of an empty vector, and \<open>erase\<close> at the end of one, would be
  undefined; \<open>substr(1, \<dots>)\<close> of an empty string would throw.  The \<open>catch (...)\<close> around
  \<open>stoi\<close> turns every exception raised there into \<open>InvalidCodeNumberException\<close>.
\<close>

definition Parser_ctor :: "string \<Rightarrow> (cxx_exn, parser) outcome" where
  "Parser_ctor msg =
    (if length msg < 4 then Throw (Own SyntaxErrorException)
     else if contains [quote] msg \<or> contains ''--'' msg
       then Throw (Own (SqlInjectionException (''Parser C'' @ [quote] @ ''tor'')))
     else if msg ! 0 \<noteq> CHR ''@'' \<or> drop (length msg - 2) msg \<noteq> ''||''
       then Throw (Own SyntaxErrorException)
     else if same_char_in_a_row (take (length msg - 1) msg) (CHR ''|'')
       then Throw (Own SyntaxErrorException)
     else
       (case split msg (CHR ''|'') of
          [] \<Rightarrow> Undef
        | a0 # rest \<Rightarrow>
            (if a0 = [] then Throw (Std Out_of_range)
             else
               (case stoi (drop 1 a0) of
                  Inl _ \<Rightarrow> Throw (Own InvalidCodeNumberException)
                | Inr code \<Rightarrow>
                    (case FIND_MSG_CODE code of
                       None \<Rightarrow> Undef
                     | Some False \<Rightarrow> Throw (Own InvalidCodeNumberException)
                     | Some True \<Rightarrow>
                         (if rest = [] then Undef
                          else Ret \<lparr>p_message = msg, p_args = butlast rest, p_msgCode = code\<rparr>))))))"

definition getMsgCode :: "parser \<Rightarrow> int" where
  "getMsgCode p = p_msgCode p"

definition getArguments :: "parser \<Rightarrow> string list" where
  "getArguments p = p_args p"

section \<open>Auxiliary facts\<close>

lemma same_char_in_a_row_iff: "same_char_in_a_row s ch \<longleftrightarrow> contains [ch, ch] s"
proof (induction s ch rule: same_char_in_a_row.induct)
  case (1 a b s ch)
  then show ?case by (auto simp: numeral_2_eq_2)
qed auto

lemma contains_split:
  assumes "contains p (a @ c # s)" and "c \<notin> set p"
  shows "contains p a \<or> contains p s"
proof (cases "p = []")
  case True
  then show ?thesis by (auto simp: contains_iff)
next
  case False
  from assms(1) obtain u v where eq: "a @ c # s = u @ p @ v" by (auto simp: contains_iff)
  consider t where "a = u @ p @ t" | t where "c # s = t @ p @ v" | t where "a = u @ t" "c # s \<noteq> p @ v"
      "t @ c # s = p @ v" "length t < length p"
    using eq append_eq_append_conv2 [of a "c # s" u "p @ v"]
      append_eq_append_conv2 [of _ "c # s" p v]
    by (metis append.assoc append_eq_append_conv2 append_Nil length_append linorder_not_less
        append_Nil2 less_add_same_cancel1 length_greater_0_conv)
  then show ?thesis
  proof cases
    case 1
    then show ?thesis by (auto simp: contains_iff)
  next
    case 2
    then obtain t' where "t = c # t'" using assms(2) False
      by (cases t) (auto simp: neq_Nil_conv)
    with 2 show ?thesis by (auto simp: contains_iff)
  next
    case 3
    then have "c \<in> set p"
      by (metis in_set_conv_nth nth_append_length nth_append)
    with assms(2) show ?thesis by simp
  qed
qed


abbreviation bar :: char where
  "bar \<equiv> CHR ''|''"

lemma getline_all_rebuild:
  "s = [] \<or> last s = ch \<Longrightarrow> concat (map (\<lambda>a. a @ [ch]) (getline_all s ch)) = s"
proof (induction s ch rule: getline_all.induct)
  case (1 ch)
  then show ?case by simp
next
  case (2 c s ch)
  then have "ch \<in> set (c # s)" by (metis last_in_set list.distinct(1))
  then obtain a r where ar: "c # s = a @ ch # r" "ch \<notin> set a"
    by (meson split_list_first)
  have "r = [] \<or> last r = ch" using "2.prems" unfolding ar(1) by (cases r) auto
  moreover have "drop 1 (dropWhile (\<lambda>x. x \<noteq> ch) (c # s)) = r"
    unfolding ar(1) using ar(2) by simp
  ultimately have IH: "concat (map (\<lambda>a. a @ [ch]) (getline_all r ch)) = r"
    using "2.IH" by simp
  have "getline_all (c # s) ch = a # getline_all r ch"
    unfolding ar(1) using ar(2) by (rule getline_all_item)
  with IH ar(1) show ?case by simp
qed

lemma same_char_field:
  "bar \<notin> set f \<Longrightarrow> same_char_in_a_row (f @ bar # s) bar \<longleftrightarrow> take 1 s = ''|'' \<or> same_char_in_a_row s bar"
proof (induction f)
  case Nil
  then show ?case by (cases s) auto
next
  case (Cons c f)
  then show ?case by (cases f) auto
qed

lemma same_char_barred:
  assumes "\<forall>f \<in> set fs. bar \<notin> set f"
  shows "\<not> same_char_in_a_row (barred fs) bar \<longleftrightarrow> (\<forall>f \<in> set (tl fs). f \<noteq> [])"
  using assms
proof (induction fs)
  case Nil
  then show ?case by simp
next
  case (Cons f fs)
  have step: "same_char_in_a_row (barred (f # fs)) bar \<longleftrightarrow>
      take 1 (barred fs) = ''|'' \<or> same_char_in_a_row (barred fs) bar"
    using Cons.prems by (simp add: same_char_field)
  show ?case
  proof (cases fs)
    case Nil
    with step show ?thesis by simp
  next
    case (Cons g gs)
    then have "take 1 (barred fs) = ''|'' \<longleftrightarrow> g = []"
      using Cons.prems by (cases g) auto
    with step Cons.IH Cons.prems Cons show ?thesis by auto
  qed
qed

text \<open>
  The packets the constructor takes: a code field and argument fields without bars, no
  argument empty, no quote and no double dash anywhere.
\<close>

definition packet :: "string \<Rightarrow> string list \<Rightarrow> string" where
  "packet cs as = barred ((CHR ''@'' # cs) # as) @ ''|''"

definition legal_packet :: "string \<Rightarrow> string list \<Rightarrow> bool" where
  "legal_packet cs as \<longleftrightarrow>
     bar \<notin> set cs \<and> (\<forall>a \<in> set as. a \<noteq> [] \<and> bar \<notin> set a) \<and>
     quote \<notin> set (packet cs as) \<and> \<not> contains ''--'' (packet cs as)"

lemma split_packet:
  assumes "bar \<notin> set cs" and "\<forall>a \<in> set as. bar \<notin> set a"
  shows "split (packet cs as) bar = (CHR ''@'' # cs) # as @ [[]]"
proof -
  have "packet cs as = concat (map (\<lambda>a. a @ [bar]) (((CHR ''@'' # cs) # as) @ [[]])) @ []"
    by (simp add: packet_def)
  moreover have "\<forall>a \<in> set (((CHR ''@'' # cs) # as) @ [[]]). bar \<notin> set a"
    using assms by auto
  ultimately show ?thesis
    unfolding split_def by (simp only: getline_all_items) simp
qed

lemma packet_ends: "\<exists>m. packet cs as = CHR ''@'' # m @ ''||''"
  by (induction as rule: rev_induct) (auto simp: packet_def)

lemma barred_ends: "fs \<noteq> [] \<Longrightarrow> \<exists>m. barred fs = m @ ''|''"
  by (induction fs rule: rev_induct) auto

lemma stoi_nonempty: "stoi cs = Inr n \<Longrightarrow> cs \<noteq> []"
  by (auto simp: stoi_def)

text \<open>A message that passes the checks of the constructor is a legal packet.\<close>

definition passes_checks :: "string \<Rightarrow> bool" where
  "passes_checks msg \<longleftrightarrow> 4 \<le> length msg \<and> quote \<notin> set msg \<and> \<not> contains ''--'' msg \<and>
     msg ! 0 = CHR ''@'' \<and> drop (length msg - 2) msg = ''||'' \<and>
     \<not> same_char_in_a_row (take (length msg - 1) msg) bar"

lemma passes_checks_packet:
  assumes "passes_checks msg"
  obtains cs as where "msg = packet cs as" and "legal_packet cs as"
proof -
  have at: "msg ! 0 = CHR ''@''" and tail: "drop (length msg - 2) msg = ''||''"
    and same: "\<not> same_char_in_a_row (take (length msg - 1) msg) bar"
    using assms by (auto simp: passes_checks_def)
  define m where "m = take (length msg - 2) msg"
  have m: "msg = m @ ''||''" using tail by (metis append_take_drop_id m_def)
  define items where "items = split msg bar"
  have nobar: "\<forall>f \<in> set items. bar \<notin> set f"
    using getline_all_no_delim by (auto simp: items_def split_def)
  have "barred items = msg"
    unfolding items_def split_def by (rule getline_all_rebuild) (simp add: m)
  then obtain xs x where xs: "items = xs @ [x]" and eq: "barred xs @ x = m @ ''|''"
    using m by (cases items rule: rev_cases) auto
  have "x = []"
  proof (rule ccontr)
    assume "x \<noteq> []"
    with eq have "last x = bar" by (metis last_append last_snoc not_Cons_self2)
    with \<open>x \<noteq> []\<close> nobar xs show False by (metis in_set_conv_decomp last_in_set)
  qed
  with eq have bxs: "barred xs = m @ ''|''" by simp
  then obtain a0 ys where ys: "xs = a0 # ys" by (cases xs) auto
  have "take (length msg - 1) msg = barred xs" using m bxs by simp
  with same nobar xs have nonempty: "\<forall>f \<in> set ys. f \<noteq> []"
    using same_char_barred [of xs] ys by auto
  have "msg = a0 @ bar # barred ys @ ''|''" using m bxs ys by simp
  with at obtain cs where a0: "a0 = CHR ''@'' # cs" by (cases a0) auto
  have msg: "msg = packet cs ys" using m bxs ys a0 by (simp add: packet_def)
  have "legal_packet cs ys"
    using nobar xs ys a0 nonempty assms msg by (auto simp: legal_packet_def passes_checks_def)
  with msg show thesis by (rule that)
qed

lemma legal_packet_passes:
  assumes legal: "legal_packet cs as" and "cs \<noteq> []"
  shows "passes_checks (packet cs as)"
proof -
  obtain m where m: "packet cs as = CHR ''@'' # m @ ''||''" using packet_ends by blast
  have bars: "bar \<notin> set cs" "\<forall>a \<in> set as. bar \<notin> set a" "\<forall>a \<in> set as. a \<noteq> []"
    using legal by (auto simp: legal_packet_def)
  have "4 \<le> length (packet cs as)" using \<open>cs \<noteq> []\<close> by (cases cs) (auto simp: packet_def)
  moreover have "take (length (packet cs as) - 1) (packet cs as) = barred ((CHR ''@'' # cs) # as)"
    by (simp add: packet_def)
  then have "\<not> same_char_in_a_row (take (length (packet cs as) - 1) (packet cs as)) bar"
    using bars same_char_barred [of "(CHR ''@'' # cs) # as"] by simp
  ultimately show ?thesis
    using legal m by (simp add: passes_checks_def legal_packet_def)
qed

text \<open>What the constructor does once the checks are passed: only the code field matters.\<close>

lemma Parser_ctor_checked:
  assumes "legal_packet cs as" and "passes_checks (packet cs as)"
  shows "Parser_ctor (packet cs as) =
    (case stoi cs of
       Inl _ \<Rightarrow> Throw (Own InvalidCodeNumberException)
     | Inr n \<Rightarrow>
        (if n \<in> set ALL_MESSAGES_CODES
         then Ret \<lparr>p_message = packet cs as, p_args = as, p_msgCode = n\<rparr>
         else Throw (Own InvalidCodeNumberException)))"
proof -
  have "split (packet cs as) bar = (CHR ''@'' # cs) # as @ [[]]"
    using assms(1) by (intro split_packet) (auto simp: legal_packet_def)
  then show ?thesis
    using assms(2)
    by (simp add: Parser_ctor_def passes_checks_def FIND_MSG_CODE_mem split: sum.split)
qed

lemma Parser_ctor_unchecked:
  "\<not> passes_checks msg \<Longrightarrow>
   Parser_ctor msg = Throw (Own SyntaxErrorException) \<or>
   Parser_ctor msg = Throw (Own (SqlInjectionException (''Parser C'' @ [quote] @ ''tor'')))"
  by (auto simp: Parser_ctor_def passes_checks_def)

lemma Parser_ctor_packet:
  assumes "legal_packet cs as" and code: "stoi cs = Inr n" and "n \<in> set ALL_MESSAGES_CODES"
  shows "Parser_ctor (packet cs as) = Ret \<lparr>p_message = packet cs as, p_args = as, p_msgCode = n\<rparr>"
  using assms Parser_ctor_checked legal_packet_passes stoi_nonempty [OF code] by simp

lemma Parser_ctor_Ret:
  assumes ret: "Parser_ctor msg = Ret p"
  obtains cs where "msg = packet cs (p_args p)" and "legal_packet cs (p_args p)"
    and "stoi cs = Inr (p_msgCode p)" and "p_msgCode p \<in> set ALL_MESSAGES_CODES" and "p_message p = msg"
proof -
  have pass: "passes_checks msg"
    using ret Parser_ctor_unchecked [of msg] by force
  then obtain cs as where msg: "msg = packet cs as" and legal: "legal_packet cs as"
    by (rule passes_checks_packet)
  have "p_args p = as \<and> p_message p = msg \<and> stoi cs = Inr (p_msgCode p) \<and> p_msgCode p \<in> set ALL_MESSAGES_CODES"
    using ret Parser_ctor_checked [OF legal] pass msg
    by (auto split: sum.splits if_splits)
  then show thesis using that msg legal by simp
qed

text \<open>The only ways the constructor ends.\<close>

lemma Parser_ctor_cases:
  "(\<exists>p. Parser_ctor msg = Ret p) \<or>
   Parser_ctor msg = Throw (Own SyntaxErrorException) \<or>
   Parser_ctor msg = Throw (Own (SqlInjectionException (''Parser C'' @ [quote] @ ''tor''))) \<or>
   Parser_ctor msg = Throw (Own InvalidCodeNumberException)"
proof (cases "passes_checks msg")
  case True
  then obtain cs as where msg: "msg = packet cs as" and legal: "legal_packet cs as"
    by (rule passes_checks_packet)
  show ?thesis
    using Parser_ctor_checked [OF legal] True
    by (simp add: msg split: sum.split)
next
  case False
  then show ?thesis using Parser_ctor_unchecked by blast
qed

text \<open>What the parser promises about the arguments it hands out.\<close>

definition clean_arg :: "string \<Rightarrow> bool" where
  "clean_arg a \<longleftrightarrow> a \<noteq> [] \<and> bar \<notin> set a \<and> quote \<notin> set a \<and> \<not> contains ''--'' a"

lemma packet_field:
  assumes "a \<in> set as"
  shows "\<exists>u v. packet cs as = u @ a @ v"
proof -
  from assms obtain ys zs where "as = ys @ a # zs" by (auto dest: split_list)
  then have "packet cs as = (CHR ''@'' # cs @ ''|'' @ barred ys) @ a @ (''|'' @ barred zs @ ''|'')"
    by (simp add: packet_def)
  then show ?thesis by blast
qed

lemma set_packet: "set (packet cs as) = {CHR ''@'', bar} \<union> set cs \<union> (\<Union>a \<in> set as. set a)"
  by (auto simp: packet_def)

lemma legal_packet_clean:
  assumes legal: "legal_packet cs as" and a: "a \<in> set as"
  shows "clean_arg a"
proof -
  obtain u v where uv: "packet cs as = u @ a @ v"
    using packet_field [OF a] by blast
  then have "\<not> contains ''--'' a" "quote \<notin> set a"
    using legal by (auto simp: legal_packet_def dest: contains_append_left contains_append_right)
  with legal a show ?thesis by (simp add: clean_arg_def legal_packet_def)
qed

lemma contains_barred:
  assumes "bar \<notin> set p" and "p \<noteq> []" and "contains p (barred fs @ ''|'')"
  shows "\<exists>f \<in> set fs. contains p f"
  using assms(3)
proof (induction fs)
  case Nil
  with assms show ?case by (cases p) auto
next
  case (Cons f fs)
  have "contains p (f @ bar # (barred fs @ ''|''))" using Cons.prems by simp
  then have "contains p f \<or> contains p (barred fs @ ''|'')"
    using assms(1) by (rule contains_split)
  with Cons.IH show ?case by auto
qed

text \<open>The encoder of the replies is a right inverse of the parser.\<close>

lemma clean_args_legal:
  assumes "\<forall>a \<in> set as. clean_arg a" and "0 \<le> code"
  shows "legal_packet (to_string code) as"
proof -
  have digits: "\<forall>c \<in> set (to_string code). is_digit c"
    using assms(2) dec_digits_all by (simp add: to_string_def)
  have "bar \<notin> set (to_string code)" "quote \<notin> set (to_string code)" "CHR ''-'' \<notin> set (to_string code)"
    using digits by (metis not_digit)+
  moreover have "\<not> contains ''--'' (packet (to_string code) as)"
  proof
    assume "contains ''--'' (packet (to_string code) as)"
    then have "\<exists>f \<in> set ((CHR ''@'' # to_string code) # as). contains ''--'' f"
      unfolding packet_def by (rule contains_barred [rotated 2]) simp_all
    then obtain f where "f \<in> set ((CHR ''@'' # to_string code) # as)" "contains ''--'' f" ..
    moreover have "\<not> contains ''--'' (CHR ''@'' # to_string code)"
      using \<open>CHR ''-'' \<notin> set (to_string code)\<close> by (auto dest!: contains_set simp del: contains.simps)
    ultimately show False using assms(1) by (auto simp: clean_arg_def)
  qed
  ultimately show ?thesis
    using assms(1) by (simp add: legal_packet_def clean_arg_def set_packet)
qed

lemma makeReceive_args_packet: "makeReceive_args code as = packet (to_string code) as"
  by (simp add: makeReceive_args_eq packet_def)

lemma ALL_MESSAGES_CODES_range: "n \<in> set ALL_MESSAGES_CODES \<Longrightarrow> 0 \<le> n \<and> fits_int n"
  by (auto simp: ALL_MESSAGES_CODES_def fits_int_def INT_MIN_def INT_MAX_def)

end
