(* ===== verification/GroupProperties.thy ===== *)
theory GroupProperties
  imports Demo Invariants PacketParser
begin

text \<open>
  The properties of \<open>PublicGroup\<close>: each operation refines its abstract program for every engine
  that meets the contract, the invariant of the groups is kept by all of them, and what the
  permission checks let through.
\<close>

section \<open>Refinement\<close>

text \<open>\<open>createGroup\<close> gives the new group the next code, the caller as its only member with
  full rights, and a counter of one; it returns that code and gives the mutex back.  When the
  codes are used up, the insertion does nothing and the caller becomes a member of the group with
  the largest code instead.\<close>

theorem createGroup_correct:
  assumes "sql_query q A ok" and "safe_text now" and "safe_text n" and "safe_text a"
  shows "refines (g_ok ok A) (g_abs A) (createGroup q now n a) (spec_createGroup now n a)"
  by (rule sql_query.createGroup_refines [OF assms])

theorem createGroup_correct_witness:
  "\<exists>s'. createGroup demo_q ''2017-01-01'' ''office'' ''lior'' demo_guarded = (Ret ''2'', s') \<and>
     status_of (view (database s')) 2 ''lior'' = Some ''admin''"
proof -
  have spec: "spec_createGroup ''2017-01-01'' ''office'' ''lior'' (g_abs id_abs demo_guarded) =
      (Ret ''2'', \<lparr>database = set_member 2 ''lior'' ''admin'' (new_group 2
        \<lparr>g_name = ''office'', g_admin = ''lior'', g_date = ''2017-01-01'', g_users = 1\<rparr> (view demo)), mtx = False\<rparr>)"
      by (simp add: demo_g_abs spec_createGroup_def locked_def Let_def)
  from refines_run [OF createGroup_correct [OF demo_engine demo_names(9,10,4)] demo_g_ok this]
  show ?thesis by (fastforce simp: g_abs_def id_abs_def)
qed

text \<open>C19: \<open>removeUser\<close>, called with a number (decimal digits, below \<open>2 ^ 63\<close>) as the code of the group and names without apostrophe and zero byte, lets a member with full control take a member without full rights out of
  the group and counts down; an unknown member or a missing right is an exception that leaves the
  database alone.  The mutex is given back on every path on which the counter can be read.\<close>

theorem removeUser_correct:
  assumes "sql_query q A ok" and "is_code g" and "safe_text e" and "safe_text u"
  shows "refines (g_ok ok A) (g_abs A) (removeUser q e g u) (spec_removeUser e (code_val g) u)"
  by (rule sql_query.removeUser_refines [OF assms])

theorem removeUser_correct_witness:
  "\<exists>s'. removeUser demo_q ''dana'' ''1'' ''noam'' demo_guarded = (Ret (), s') \<and>
     status_of (view (database s')) 1 ''noam'' = None \<and> \<not> mtx s'"
proof -
  have "spec_removeUser ''dana'' 1 ''noam'' (g_abs id_abs demo_guarded) =
      (Ret (), \<lparr>database = set_count 1 2 (drop_member 1 ''noam'' (view demo)), mtx = False\<rparr>)"
    by (simp add: demo_g_abs spec_removeUser_def locked_def Let_def stoi_to_string fits_int_def INT_MIN_def INT_MAX_def)
  from refines_run [OF removeUser_correct [OF demo_engine demo_code(1) demo_names(2,3), unfolded demo_code] demo_g_ok this]
  show ?thesis by (fastforce simp: g_abs_def id_abs_def)
qed

text \<open>\<open>setUserStatus\<close> writes the new status of a member without full rights when the caller
  has full control, and changes nothing otherwise.  The new status is not looked at.\<close>

theorem setUserStatus_correct:
  assumes "sql_query q A ok" and "is_code g" and "safe_text e" and "safe_text u" and "safe_text n"
  shows "refines (g_ok ok A) (g_abs A) (setUserStatus q e g u n) (spec_setUserStatus e (code_val g) u n)"
  by (rule sql_query.setUserStatus_refines [OF assms])

theorem setUserStatus_correct_witness:
  "\<exists>s'. setUserStatus demo_q ''dana'' ''1'' ''noam'' ''admin'' demo_guarded = (Ret (), s') \<and>
     status_of (view (database s')) 1 ''noam'' = Some ''admin''"
proof -
  have "spec_setUserStatus ''dana'' 1 ''noam'' ''admin'' (g_abs id_abs demo_guarded) =
      (Ret (), \<lparr>database = set_member 1 ''noam'' ''admin'' (view demo), mtx = False\<rparr>)"
    by (simp add: demo_g_abs spec_setUserStatus_def locked_def Let_def)
  from refines_run [OF setUserStatus_correct [OF demo_engine demo_code(1) demo_names(2,3) safe_statuses(1), unfolded demo_code]
      demo_g_ok this]
  show ?thesis by (fastforce simp: g_abs_def id_abs_def)
qed

text \<open>C15: \<open>addUser\<close>, called with a number (decimal digits, below \<open>2 ^ 63\<close>) as the code of the group and with texts without apostrophe and zero byte,
  adds a user who is not yet a member, with one of the four statuses, to a group of fewer than four and counts
  up, when the caller has full control.  Without that right the operation goes on all the same
  after giving the mutex back, adds the user, and then unlocks a mutex it does not hold.\<close>

theorem addUser_correct:
  assumes "sql_query q A ok" and "is_code g" and "safe_text e" and "safe_text u" and "safe_text st"
  shows "refines (g_ok ok A) (g_abs A) (addUser q e g u st) (spec_addUser e (code_val g) u st)"
  by (rule sql_query.addUser_refines [OF assms])

theorem addUser_correct_witness:
  "\<exists>s'. addUser demo_q ''amit'' ''1'' ''lior'' ''rw'' demo_guarded = (Ret (), s') \<and>
     status_of (view (database s')) 1 ''lior'' = Some ''rw'' \<and>
     map_option g_users (group_of (view (database s')) 1) = Some 4"
proof -
  have "spec_addUser ''amit'' 1 ''lior'' ''rw'' (g_abs id_abs demo_guarded) =
      (Ret (), \<lparr>database = set_count 1 4 (set_member 1 ''lior'' ''rw'' (view demo)), mtx = False\<rparr>)"
    by (simp add: demo_g_abs spec_addUser_def locked_def Let_def stoi_to_string fits_int_def INT_MIN_def INT_MAX_def)
  from refines_run [OF addUser_correct [OF demo_engine demo_code(1) demo_names(1,4) safe_statuses(3), unfolded demo_code]
      demo_g_ok this]
  show ?thesis by (fastforce simp: g_abs_def id_abs_def)
qed

text \<open>C18: \<open>removeGroup\<close>, called with a number (decimal digits, below \<open>2 ^ 63\<close>) as the code of the group and a name without apostrophe and zero byte, erases the group, its members and its items when the caller is a member
  with full rights; for a caller who is not a member it is an exception and changes nothing.  Any
  other member erases the group as well, and the last \<open>unlock\<close> is then undefined behaviour.  A code that is no number can do more.\<close>

theorem removeGroup_correct:
  assumes "sql_query q A ok" and "is_code g" and "safe_text e"
  shows "refines (g_ok ok A) (g_abs A) (removeGroup q e g) (spec_removeGroup e (code_val g))"
  by (rule sql_query.removeGroup_refines [OF assms])

theorem removeGroup_correct_witness:
  "\<exists>s'. removeGroup demo_q ''amit'' ''1'' demo_guarded = (Ret (), s') \<and>
     groups_tab (view (database s')) = Map.empty \<and> item_of (view (database s')) 1 ''milk'' = None"
proof -
  have "spec_removeGroup ''amit'' 1 (g_abs id_abs demo_guarded) =
      (Ret (), \<lparr>database = erase_group 1 (view demo), mtx = False\<rparr>)"
    by (simp add: demo_g_abs spec_removeGroup_def locked_def)
  from refines_run [OF removeGroup_correct [OF demo_engine demo_code(1) demo_names(1), unfolded demo_code] demo_g_ok this]
  show ?thesis by (fastforce simp: g_abs_def id_abs_def)
qed

section \<open>The invariant\<close>

text \<open>C14: Whatever calls of \<open>PublicGroup\<close>, \<open>PublicLists\<close>, \<open>Users\<close> and \<open>UsersPackets\<close> are made with
  numbers (decimal digits, below \<open>2 ^ 63\<close>) for group codes and for the quantities of additions and texts without apostrophe and zero byte, in any number and order, and
  however they end, as long as there is room for the code of the next group: every group keeps between one and four members, its counter is their number,
  the user who created it stays a member with full rights, and there are no members or items of a
  group that does not exist.\<close>

theorem calls_keep_groups:
  assumes "sql_query q A ok" and "db_inv ok A d" and "(db_call q A)\<^sup>*\<^sup>* d d'"
  shows "\<forall>k. case group_of (view (A d')) k of
      None \<Rightarrow> members_of (view (A d')) k = {} \<and> (\<forall>i. item_of (view (A d')) k i = None)
    | Some i \<Rightarrow> finite (members_of (view (A d')) k) \<and>
        g_users i = int (card (members_of (view (A d')) k)) \<and> 1 \<le> g_users i \<and> g_users i \<le> 4 \<and>
        status_of (view (A d')) k (g_admin i) = Some ''admin''"
proof
  fix k
  let ?v = "view (A d')"
  have inv: "group_inv ?v"
    using sql_query.db_calls_inv [OF assms(1,3,2)] by (simp add: db_inv_def)
  then have "group_at ?v k" by (simp add: group_inv_def)
  then show "case group_of ?v k of
      None \<Rightarrow> members_of ?v k = {} \<and> (\<forall>i. item_of ?v k i = None)
    | Some i \<Rightarrow> finite (members_of ?v k) \<and>
        g_users i = int (card (members_of ?v k)) \<and> 1 \<le> g_users i \<and> g_users i \<le> 4 \<and>
        status_of ?v k (g_admin i) = Some ''admin''"
  proof (cases "group_of ?v k")
    case None
    with \<open>group_at ?v k\<close> show ?thesis by (simp add: group_at_def)
  next
    case (Some i)
    with group_invD [OF inv Some] show ?thesis by simp
  qed
qed

theorem calls_keep_groups_witness:
  "let v = view (database (snd (addUser demo_q ''amit'' ''1'' ''lior'' ''rw'' demo_guarded))) in
   \<forall>i. group_of v 1 = Some i \<longrightarrow> g_users i \<le> 4"
proof -
  let ?d = "database (snd (addUser demo_q ''amit'' ''1'' ''lior'' ''rw'' demo_guarded))"
  have "db_call demo_q id_abs demo ?d"
    unfolding demo_guarded_def by (rule one_call, rule call_addUser) (simp_all add: demo_code)
  then have "(db_call demo_q id_abs)\<^sup>*\<^sup>* demo ?d" by blast
  moreover have "db_inv wf_store id_abs demo"
    using demo_ok demo_inv by (simp add: db_inv_def id_abs_def)
  ultimately have "\<forall>k. case group_of (view (id_abs ?d)) k of
      None \<Rightarrow> members_of (view (id_abs ?d)) k = {} \<and> (\<forall>i. item_of (view (id_abs ?d)) k i = None)
    | Some i \<Rightarrow> finite (members_of (view (id_abs ?d)) k) \<and>
        g_users i = int (card (members_of (view (id_abs ?d)) k)) \<and> 1 \<le> g_users i \<and> g_users i \<le> 4 \<and>
        status_of (view (id_abs ?d)) k (g_admin i) = Some ''admin''"
    by (intro calls_keep_groups [OF demo_engine])
  from spec [OF this, of 1] show ?thesis by (simp add: Let_def split: option.splits)
qed

section \<open>Who may do what\<close>

text \<open>With the invariant and the mutex free, \<open>addUser\<close>, \<open>removeUser\<close> and \<open>setUserStatus\<close>
  called by a member with full control end in a return or in one of the program's own exceptions,
  never in undefined behaviour, and leave the mutex free.\<close>

theorem authorized_calls_end_well:
  assumes "sql_query q A ok" and "is_code g" and "safe_text e" and "safe_text u" and "safe_text st"
    and "g_ok ok A s" and "group_inv (view (A (database s)))" and "\<not> mtx s"
    and "status_of (view (A (database s))) (code_val g) e = Some mine" and "may_control mine"
    and "m \<in> {addUser q e g u st, removeUser q e g u, setUserStatus q e g u st}"
  shows "(fst (m s) = Ret () \<or> (\<exists>x. fst (m s) = Throw (Own x))) \<and> \<not> mtx (snd (m s))"
proof -
  let ?v = "view (A (database s))"
  have s: "g_abs A s = \<lparr>database = ?v, mtx = False\<rparr>" using assms(8) by (simp add: g_abs_def)
  obtain i where i: "group_of ?v (code_val g) = Some i" using group_inv_member [OF assms(7,9)] by blast
  note count = count_fits [OF assms(7) i]
  have end_well: "(fst (m s) = Ret () \<or> (\<exists>x. fst (m s) = Throw (Own x))) \<and> \<not> mtx (snd (m s))"
    if m: "refines (g_ok ok A) (g_abs A) m M"
      and out: "fst (M (g_abs A s)) = Ret () \<or> (\<exists>x. fst (M (g_abs A s)) = Throw (Own x))"
      and free: "\<not> mtx (snd (M (g_abs A s)))" for m M
  proof -
    obtain s' where s': "m s = (fst (M (g_abs A s)), s')" "g_abs A s' = snd (M (g_abs A s))"
      using refinesE [OF m assms(6)] by blast
    then have "mtx s' = mtx (snd (M (g_abs A s)))" by (metis g_abs_mtx)
    with s' out free show ?thesis by auto
  qed
  consider "m = addUser q e g u st" | "m = removeUser q e g u" | "m = setUserStatus q e g u st"
    using assms(11) by blast
  then show ?thesis
  proof cases
    case 1
    show ?thesis unfolding 1
      by (rule end_well [OF sql_query.addUser_refines [OF assms(1-5)]])
         (use i assms(9,10) count in \<open>auto simp: s spec_addUser_def locked_def Let_def split: if_splits\<close>)
  next
    case 2
    show ?thesis unfolding 2
      by (rule end_well [OF sql_query.removeUser_refines [OF assms(1-4)]])
         (use i assms(9,10) count in \<open>auto simp: s spec_removeUser_def locked_def Let_def split: option.split\<close>)
  next
    case 3
    show ?thesis unfolding 3
      by (rule end_well [OF sql_query.setUserStatus_refines [OF assms(1-5)]])
         (use assms(9,10) in \<open>auto simp: s spec_setUserStatus_def locked_def Let_def split: option.split\<close>)
  qed
qed

theorem authorized_calls_end_well_witness:
  "\<not> mtx (snd (setUserStatus demo_q ''dana'' ''1'' ''noam'' ''rw'' demo_guarded))"
proof -
  have v: "view (id_abs (database demo_guarded)) = view demo" by (simp add: id_abs_def demo_guarded_def)
  have "\<not> mtx demo_guarded" by (simp add: demo_guarded_def)
  moreover have "group_inv (view (id_abs (database demo_guarded)))" using v demo_inv by simp
  moreover have "status_of (view (id_abs (database demo_guarded))) (code_val ''1'') ''dana'' = Some ''fc''"
    using v by (simp add: demo_code)
  ultimately show ?thesis
    using authorized_calls_end_well [OF demo_engine demo_code(1) demo_names(2,3) safe_statuses(3) demo_g_ok,
        where m = "setUserStatus demo_q ''dana'' ''1'' ''noam'' ''rw''" and mine = "''fc''"] by simp
qed

text \<open>Any member erases the whole group: without full rights, \<open>removeGroup\<close> deletes the group,
  its members and its items before it reaches undefined behaviour at the second \<open>unlock\<close>.\<close>

theorem removeGroup_by_any_member:
  assumes "sql_query q A ok" and "is_code g" and "safe_text e" and "g_ok ok A s" and "\<not> mtx s"
    and "status_of (view (A (database s))) (code_val g) e = Some st" and "\<not> is_admin st"
  shows "\<exists>s'. removeGroup q e g s = (Undef, s') \<and>
    view (A (database s')) = erase_group (code_val g) (view (A (database s)))"
proof -
  have "spec_removeGroup e (code_val g) (g_abs A s) =
      (Undef, \<lparr>database = erase_group (code_val g) (view (A (database s))), mtx = False\<rparr>)"
    using assms(5-7) by (simp add: spec_removeGroup_def locked_def g_abs_def)
  from refines_run [OF sql_query.removeGroup_refines [OF assms(1-3)] assms(4) this]
  show ?thesis by (auto simp: g_abs_def)
qed

theorem removeGroup_by_any_member_witness:
  "\<exists>s'. removeGroup demo_q ''noam'' ''1'' demo_guarded = (Undef, s') \<and> group_of (view (database s')) 1 = None"
proof -
  have "\<not> mtx demo_guarded" "status_of (view (id_abs (database demo_guarded))) (code_val ''1'') ''noam'' = Some ''r''"
    by (simp_all add: id_abs_def demo_guarded_def demo_code)
  from removeGroup_by_any_member [OF demo_engine demo_code(1) demo_names(3) demo_g_ok this]
  show ?thesis by (fastforce simp: id_abs_def demo_code)
qed

text \<open>Any member adds users: without full control, \<open>addUser\<close> still writes the new member, with
  any valid status, full rights included, before it reaches undefined behaviour.\<close>

theorem addUser_by_any_member:
  assumes "sql_query q A ok" and "is_code g" and "safe_text e" and "safe_text u"
    and "g_ok ok A s" and "group_inv (view (A (database s)))" and "\<not> mtx s"
    and "status_of (view (A (database s))) (code_val g) e = Some mine" and "\<not> may_control mine"
    and "status_of (view (A (database s))) (code_val g) u = None"
    and "group_of (view (A (database s))) (code_val g) = Some i" and "g_users i \<noteq> 4"
    and "st \<in> {''admin'', ''fc'', ''rw'', ''r''}"
  shows "\<exists>s'. addUser q e g u st s = (Undef, s') \<and>
    status_of (view (A (database s'))) (code_val g) u = Some st"
proof -
  have st: "safe_text st" using assms(13) by auto
  have "spec_addUser e (code_val g) u st (g_abs A s) =
      (Undef, \<lparr>database = set_count (code_val g) (g_users i + 1)
        (set_member (code_val g) u st (view (A (database s)))), mtx = False\<rparr>)"
    using assms(7-13) count_fits [OF assms(6,11)]
    by (auto simp: spec_addUser_def locked_def g_abs_def Let_def)
  from refines_run [OF sql_query.addUser_refines [OF assms(1-4) st] assms(5) this]
  show ?thesis by (auto simp: g_abs_def)
qed

theorem addUser_by_any_member_witness:
  "\<exists>s'. addUser demo_q ''noam'' ''1'' ''lior'' ''admin'' demo_guarded = (Undef, s') \<and>
     status_of (view (database s')) 1 ''lior'' = Some ''admin''"
proof -
  have v: "view (id_abs (database demo_guarded)) = view demo" by (simp add: id_abs_def demo_guarded_def)
  have "\<not> mtx demo_guarded" by (simp add: demo_guarded_def)
  moreover have "group_inv (view (id_abs (database demo_guarded)))" using v demo_inv by simp
  ultimately show ?thesis
    using addUser_by_any_member [OF demo_engine demo_code(1) demo_names(3,4) demo_g_ok, where mine = "''r''"
        and st = "''admin''"
        and i = "\<lparr>g_name = ''home'', g_admin = ''amit'', g_date = ''2017-01-01'', g_users = 3\<rparr>"]
    by (simp add: v demo_code id_abs_def)
qed

text \<open>A member with full control, who is not an administrator, can make itself one.\<close>

theorem setUserStatus_self_promotion:
  assumes "sql_query q A ok" and "is_code g" and "safe_text e" and "g_ok ok A s" and "\<not> mtx s"
    and "status_of (view (A (database s))) (code_val g) e = Some ''fc''"
  shows "\<exists>s'. setUserStatus q e g e ''admin'' s = (Ret (), s') \<and>
    status_of (view (A (database s'))) (code_val g) e = Some ''admin'' \<and> \<not> mtx s'"
proof -
  have "spec_setUserStatus e (code_val g) e ''admin'' (g_abs A s) =
      (Ret (), \<lparr>database = set_member (code_val g) e ''admin'' (view (A (database s))), mtx = False\<rparr>)"
    using assms(5,6) by (simp add: spec_setUserStatus_def locked_def g_abs_def Let_def)
  from refines_run [OF sql_query.setUserStatus_refines [OF assms(1-3,3) safe_statuses(1)] assms(4) this]
  show ?thesis by (auto simp: g_abs_def)
qed

theorem setUserStatus_self_promotion_witness:
  "\<exists>s'. setUserStatus demo_q ''dana'' ''1'' ''dana'' ''admin'' demo_guarded = (Ret (), s') \<and>
     status_of (view (database s')) 1 ''dana'' = Some ''admin''"
proof -
  have "\<not> mtx demo_guarded" "status_of (view (id_abs (database demo_guarded))) (code_val ''1'') ''dana'' = Some ''fc''"
    by (simp_all add: id_abs_def demo_guarded_def demo_code)
  from setUserStatus_self_promotion [OF demo_engine demo_code(1) demo_names(2) demo_g_ok this]
  show ?thesis by (auto simp: id_abs_def demo_code)
qed

end
