(* ===== verification/ListProperties.thy ===== *)
theory ListProperties
  imports Demo Invariants PacketParser
begin

text \<open>
  The properties of \<open>PublicLists\<close>, of the listings, and of the texts that are spliced without
  quotes.
\<close>

section \<open>Helpers\<close>

definition spliced :: string where
  "spliced = ''1 or 1=1''"

lemma reads_spliced:
  "safe_text u \<Longrightarrow> reads (sql_member spliced u) (Select None Users_In_Groups
     [[(OCol C_username, OLit (VText u)), (OCol C_group_code, OLit (VInt 1))], [(OLit (VInt 1), OLit (VInt 1))]])"
  "reads (sql_delete_group spliced)
     (Delete PublicGroups [[(OCol C_code, OLit (VInt 1))], [(OLit (VInt 1), OLit (VInt 1))]])"
  "reads (sql_delete_members spliced)
     (Delete Users_In_Groups [[(OCol C_group_code, OLit (VInt 1))], [(OLit (VInt 1), OLit (VInt 1))]])"
  "reads (sql_delete_items spliced)
     (Delete Lists [[(OCol C_group_code, OLit (VInt 1))], [(OLit (VInt 1), OLit (VInt 1))]])"
  by (simp_all add: sql_member_def sql_delete_group_def sql_delete_members_def sql_delete_items_def spliced_def
      read_simps digit_val_def)

lemma exec_delete_all:
  assumes "ready st" and "cond_ok t (w @ [[(OLit (VInt 1), OLit (VInt 1))]])"
  shows "exec (Delete t (w @ [[(OLit (VInt 1), OLit (VInt 1))]])) st = Some ([], set_rows t [] st)"
  using assms by (simp add: exec.simps ready_def holds_def)

context sql_query
begin

lemma addItem_jams:
  assumes "is_code g" and "safe_text e" and "safe_text i"
    and "g_ok ok A s" and "\<not> mtx s"
    and "status_of (view (A (database s))) (code_val g) e = Some st" and "may_write st"
    and "item_of (view (A (database s))) (code_val g) i = Some (old, m')" and "fits_int old"
    and "stoi n = Inl x"
  shows "\<exists>s'. addItem q e g i n m s = (Throw (Std x), s') \<and>
    fst (addItem q e' g' i' n' m'' s') = Hang \<and> fst (removeItem q e' g' i' s') = Hang \<and>
    fst (updateItem q e' g' key i' n' m'' s') = Hang"
proof -
  have ok: "db_ok ok A (database s)" using assms(4) by (simp add: g_ok_def)
  have "\<exists>s'. addItem q e g i n m s = (Throw (Std x), s') \<and> mtx s'"
    using assms(1-3,5-10) ok
    by (auto simp: addItem_def incItem_def prog_simps list_reads stoi_to_string)
  then obtain s' where "addItem q e g i n m s = (Throw (Std x), s')" "mtx s'" by blast
  then show ?thesis
    by (intro exI [of _ s']) (simp add: addItem_def removeItem_def updateItem_def prog_simps)
qed

lemma delete_all_run:
  assumes ok: "db_ok ok A db" and sql: "reads sql (Delete t (w @ [[(OLit (VInt 1), OLit (VInt 1))]]))"
    and "cond_ok t (w @ [[(OLit (VInt 1), OLit (VInt 1))]])"
  shows "db_query q sql db = (Ret [], after q sql db)" and "A (after q sql db) = set_rows t [] (A db)"
    and "db_ok ok A (after q sql db)"
proof -
  have r: "ok db" "ready (A db)" using ok by (simp_all add: db_ok_def)
  from query_after [OF r(1) sql exec_delete_all [OF r(2) assms(3)]]
  show "db_query q sql db = (Ret [], after q sql db)" "A (after q sql db) = set_rows t [] (A db)"
    "db_ok ok A (after q sql db)"
    using r by (auto simp: db_query_def db_ok_def)
qed

lemma delete_spliced:
  assumes "db_ok ok A db" and "reads sql (Delete t [[(OCol c, OLit (VInt 1))], [(OLit (VInt 1), OLit (VInt 1))]])"
    and "map_of (columns t) c = Some T_INTEGER"
  shows "db_query q sql db = (Ret [], after q sql db)" and "A (after q sql db) = set_rows t [] (A db)"
    and "db_ok ok A (after q sql db)"
  using delete_all_run [of db sql t "[[(OCol c, OLit (VInt 1))]]"] assms by (simp_all add: cond_ok_def)

lemma spliced_member:
  assumes ok: "db_ok ok A db" and u: "safe_text u" and ne: "rows (A db) Users_In_Groups \<noteq> []"
  shows "\<exists>data. db_query q (sql_member spliced u) db = (Ret data, after q (sql_member spliced u) db) \<and>
      data \<noteq> [] \<and> 3 \<le> length (data ! 0)"
    and "A (after q (sql_member spliced u) db) = A db" and "db_ok ok A (after q (sql_member spliced u) db)"
proof -
  have r: "ok db" "ready (A db)" "wf_store (A db)" using ok by (auto simp: db_ok_def tables_wf_q)
  let ?w = "[[(OCol C_username, OLit (VText u)), (OCol C_group_code, OLit (VInt 1))],
    [(OLit (VInt 1), OLit (VInt 1))]]"
  have ex: "exec (Select None Users_In_Groups ?w) (A db) = Some (rows (A db) Users_In_Groups, A db)"
    using r(2) by (simp add: exec_Select_all cond_ok_def holds_def)
  from query_after [OF r(1) reads_spliced(1) [OF u] ex] obtain data where
    data: "q (sql_member spliced u) db = Some (data, after q (sql_member spliced u) db)"
    "mset data = mset (map show_row (rows (A db) Users_In_Groups))"
    "A (after q (sql_member spliced u) db) = A db" "ok (after q (sql_member spliced u) db)" by blast
  have "data \<noteq> []" using data(2) ne by auto
  then have "data ! 0 \<in> set data" by simp
  then have "data ! 0 \<in> set (map show_row (rows (A db) Users_In_Groups))"
    using data(2) by (metis set_mset_mset)
  then obtain r0 where "r0 \<in> set (rows (A db) Users_In_Groups)" "data ! 0 = show_row r0" by auto
  then have "3 \<le> length (data ! 0)"
    using wt_of [OF r(3)] by (fastforce simp: wt_row_shape)
  with data \<open>data \<noteq> []\<close> r show "\<exists>data. db_query q (sql_member spliced u) db =
      (Ret data, after q (sql_member spliced u) db) \<and> data \<noteq> [] \<and> 3 \<le> length (data ! 0)"
    "A (after q (sql_member spliced u) db) = A db" "db_ok ok A (after q (sql_member spliced u) db)"
    by (auto simp: db_query_def db_ok_def)
qed

lemma removeGroup_spliced:
  assumes "g_ok ok A s" and "\<not> mtx s" and "safe_text e" and "rows (A (database s)) Users_In_Groups \<noteq> []"
  shows "let st = A (database (snd (removeGroup q e ''1 or 1=1'' s))) in
     rows st PublicGroups = [] \<and> rows st Users_In_Groups = [] \<and> rows st Lists = []"
proof -
  have ok: "db_ok ok A (database s)" using assms(1) by (simp add: g_ok_def)
  note member = spliced_member [OF _ assms(3)]
  obtain x where x: "db_query q (sql_member spliced e) (database s) =
      (Ret x, after q (sql_member spliced e) (database s))" "x \<noteq> []"
    using member(1) [OF ok assms(4)] by blast
  let ?d1 = "after q (sql_member spliced e) (database s)"
  have d1: "db_ok ok A ?d1" "A ?d1 = A (database s)" using member [OF ok assms(4)] by simp_all
  obtain y where y: "db_query q (sql_member spliced e) ?d1 = (Ret y, after q (sql_member spliced e) ?d1)"
    "y \<noteq> []" "3 \<le> length (y ! 0)"
    using member(1) [OF d1(1)] d1(2) assms(4) by auto
  let ?d2 = "after q (sql_member spliced e) ?d1"
  have d2: "db_ok ok A ?d2" using member(3) [OF d1(1)] d1(2) assms(4) by simp
  note g = delete_spliced [OF _ reads_spliced(2), simplified]
    and m = delete_spliced [OF _ reads_spliced(3), simplified]
    and l = delete_spliced [OF _ reads_spliced(4), simplified]
  have "y ! 0 \<noteq> []" "2 < length (y ! 0)" using y(3) by auto
  then have "let st = A (database (snd (removeGroup q e spliced s))) in
     rows st PublicGroups = [] \<and> rows st Users_In_Groups = [] \<and> rows st Lists = []"
    using assms(2) x(2) y(2)
    by (simp add: removeGroup_def isUserExistsInGroup_def getUserPermission_def DataBase_Empty_def
        prog_simps x(1) y(1) d2 g m l Let_def)
  then show ?thesis by (simp add: spliced_def)
qed

end

section \<open>Refinement\<close>

text \<open>C16: \<open>addItem\<close>, called with numbers (decimal digits, below \<open>2 ^ 63\<close>) as the code of the group and the quantity and with texts without apostrophe and zero
  byte, lets a member with the right to write add an item, or add the quantity to that
  of an item of that name; others get an exception.  When the item exists, an old or new quantity outside \<open>int\<close> makes
  \<open>stoi\<close> throw, and the operation leaves with its mutex locked; a sum outside \<open>int\<close> is undefined behaviour.\<close>

theorem addItem_correct:
  assumes "sql_query q A ok" and "is_code g" and "safe_text e" and "safe_text i" and "is_code n" and "safe_text m"
  shows "refines (g_ok ok A) (g_abs A) (addItem q e g i n m) (spec_addItem e (code_val g) i n m)"
  by (rule sql_query.addItem_refines [OF assms])

theorem addItem_correct_witness:
  "\<exists>s'. addItem demo_q ''dana'' ''1'' ''bread'' ''5'' '''' demo_guarded = (Ret (), s') \<and>
     item_of (view (database s')) 1 ''bread'' = Some (5, '''')"
proof -
  have "spec_addItem ''dana'' 1 ''bread'' ''5'' '''' (g_abs id_abs demo_guarded) =
      (Ret (), \<lparr>database = set_item 1 ''bread'' (5, '''') (view demo), mtx = False\<rparr>)"
    by (simp add: demo_g_abs spec_addItem_def spec_writer_def locked_def Let_def demo_code)
  from refines_run [OF addItem_correct [OF demo_engine demo_code(1) demo_names(2,8) demo_code(3) safe_statuses(5),
      unfolded demo_code] demo_g_ok this]
  show ?thesis by (fastforce simp: g_abs_def)
qed

text \<open>\<open>updateItem\<close> replaces name, quantity and remarks of an item for a member with the right to
  write.  No change, an unknown item, a quantity that is not a positive number are exceptions; a
  new name that another item has leaves the list as it is without an error; a quantity of
  digits that \<open>stoi\<close> rejects leaves the mutex locked.  The check of the digits makes the
  unquoted quantity safe for SQL.  \<open>removeItem\<close> takes the item out of the list, for such a member;
  an unknown item, or a missing right, is an exception that changes nothing.\<close>

theorem updateItem_removeItem_correct:
  assumes "sql_query q A ok" and "is_code g" and "safe_text e" and "safe_text key" and "safe_text i" and "safe_text m"
  shows "refines (g_ok ok A) (g_abs A) (updateItem q e g key i n m) (spec_updateItem e (code_val g) key i n m) \<and>
    refines (g_ok ok A) (g_abs A) (removeItem q e g key) (spec_removeItem e (code_val g) key)"
  by (intro conjI sql_query.updateItem_refines [OF assms] sql_query.removeItem_refines [OF assms(1-4)])

lemma stoi_5: "stoi ''5'' = Inr 5"
  using stoi_digits [of "''5''"]
  by (simp add: is_digit_def dec_val_def digit_val_def INT_MAX_def)

theorem updateItem_removeItem_correct_witness:
  "\<exists>s'. updateItem demo_q ''dana'' ''1'' ''milk'' ''bread'' ''5'' '''' demo_guarded = (Ret (), s') \<and>
     item_of (view (database s')) 1 ''milk'' = None \<and> item_of (view (database s')) 1 ''bread'' = Some (5, '''')"
proof -
  have "spec_updateItem ''dana'' 1 ''milk'' ''bread'' ''5'' '''' (g_abs id_abs demo_guarded) =
      (Ret (), \<lparr>database = change_item 1 ''milk'' ''bread'' (5, '''') (view demo), mtx = False\<rparr>)"
    by (simp add: demo_g_abs spec_updateItem_def spec_writer_def locked_def Let_def stoi_5 is_digit_def)
  from refines_run [OF updateItem_removeItem_correct [OF demo_engine demo_code(1) demo_names(2,7,8) safe_statuses(5),
      unfolded demo_code, THEN conjunct1] demo_g_ok this]
  show ?thesis by (fastforce simp: g_abs_def change_item_unfold)
qed

text \<open>C30: A quantity \<open>stoi\<close> rejects jams the lists: \<open>addItem\<close> by a member who may write, on an item that exists, with a text
  that is no \<open>int\<close>, leaves with an exception of the standard library and the mutex locked, and
  then every further \<open>addItem\<close>, \<open>removeItem\<close> and \<open>updateItem\<close>, whatever its arguments, waits for ever.\<close>

theorem addItem_jams_the_lists:
  assumes "sql_query q A ok" and "is_code g" and "safe_text e" and "safe_text i"
    and "g_ok ok A s" and "\<not> mtx s"
    and "status_of (view (A (database s))) (code_val g) e = Some st" and "may_write st"
    and "item_of (view (A (database s))) (code_val g) i = Some (old, m')" and "fits_int old"
    and "stoi n = Inl x"
  shows "\<exists>s'. addItem q e g i n m s = (Throw (Std x), s') \<and>
    fst (addItem q e' g' i' n' m'' s') = Hang \<and> fst (removeItem q e' g' i' s') = Hang \<and>
    fst (updateItem q e' g' key i' n' m'' s') = Hang"
  by (rule sql_query.addItem_jams [OF assms])

theorem addItem_jams_the_lists_witness:
  "\<exists>s'. addItem demo_q ''dana'' ''1'' ''milk'' ''9999999999'' '''' demo_guarded = (Throw (Std Out_of_range), s') \<and>
     fst (removeItem demo_q ''amit'' ''1'' ''milk'' s') = Hang"
proof -
  have "stoi ''9999999999'' = Inl Out_of_range"
    using stoi_digits [of "''9999999999''"]
    by (simp add: is_digit_def dec_val_def digit_val_def INT_MAX_def)
  then show ?thesis
    using addItem_jams_the_lists [OF demo_engine demo_code(1) demo_names(2,7) demo_g_ok, where st = "''fc''" and old = 2]
    by (simp add: demo_code fits_int_def INT_MIN_def INT_MAX_def) blast
qed

section \<open>Listings\<close>

text \<open>\<open>getAllItemsInGroup\<close> returns every item of the group, once, with its quantity in decimal
  and its remarks, whatever order the engine chooses, and changes nothing.\<close>

theorem getAllItemsInGroup_correct:
  assumes "sql_query q A ok" and "g_ok ok A s" and "is_code g"
  shows "\<exists>its s'. getAllItemsInGroup q g s =
      (Ret (map (\<lambda>(i, n, m). [to_string (code_val g), i, to_string n, m]) its), s') \<and>
    distinct its \<and> set its = {(i, n, m). item_of (view (A (database s))) (code_val g) i = Some (n, m)} \<and>
    g_ok ok A s' \<and> g_abs A s' = g_abs A s"
  using sql_query.getAllItemsInGroup_run [OF assms(1) _ assms(3), of s] assms(2)
  by (fastforce simp: g_ok_def g_abs_def)

theorem getAllItemsInGroup_correct_witness:
  "\<exists>s'. getAllItemsInGroup demo_q ''1'' demo_guarded = (Ret [[''1'', ''milk'', ''2'', ''fresh'']], s')"
proof -
  from getAllItemsInGroup_correct [OF demo_engine demo_g_ok demo_code(1)] obtain its s' where
    its: "getAllItemsInGroup demo_q ''1'' demo_guarded =
      (Ret (map (\<lambda>(i, n, m). [to_string 1, i, to_string n, m]) its), s')" "distinct its"
    "set its = {(i, n, m). item_of (view demo) 1 i = Some (n, m)}"
    by (auto simp: demo_code)
  then have "set its = {(''milk'', 2, ''fresh'')}" by (auto split: if_splits)
  with its(2) have "its = [(''milk'', 2, ''fresh'')]"
    by (intro distinct_singleton)
  with its(1) show ?thesis by simp
qed

section \<open>Texts that are not quoted\<close>

text \<open>C31: The parser lets through the argument \<open>1 or 1=1\<close>, and where a group code is expected it
  changes the meaning of a statement: a user who is in no group at all erases every group, every
  membership and every item with \<open>removeGroup\<close>, as long as there is some membership.\<close>

theorem removeGroup_injection:
  assumes "sql_query q A ok" and "g_ok ok A s" and "\<not> mtx s" and "safe_text e"
    and "rows (A (database s)) Users_In_Groups \<noteq> []"
  shows "clean_arg ''1 or 1=1'' \<and>
    (let st = A (database (snd (removeGroup q e ''1 or 1=1'' s))) in
     rows st PublicGroups = [] \<and> rows st Users_In_Groups = [] \<and> rows st Lists = [])"
  by (simp add: sql_query.removeGroup_spliced [OF assms] clean_arg_def)

theorem removeGroup_injection_witness:
  "rows (database (snd (removeGroup demo_q ''lior'' ''1 or 1=1'' demo_guarded))) PublicGroups = []"
  using removeGroup_injection [OF demo_engine demo_g_ok, of "''lior''"] by (simp add: Let_def)

end
