(* ===== verification/Loops.thy ===== *)
theory Loops
  imports Guarded "HOL-Library.While_Combinator"
begin

text \<open>
  Loops with a variable carried along, \<open>while (c) body\<close>, as the least fixed point: a loop that
  does not end is \<open>Hang\<close>.  The rule \<open>while_do_rows\<close> runs a loop that goes once through the rows
  of a vector; the locale \<open>cursor\<close> is the contract of an index into a vector with an
  end-of-data test and a \<open>next\<close>.
\<close>

definition while_do :: "('s \<Rightarrow> bool) \<Rightarrow> ('a \<Rightarrow> ('e, 's, 'a) prog) \<Rightarrow> 'a \<Rightarrow> ('e, 's, 'a) prog" where
  "while_do c body a = (\<lambda>s.
     case while_option (\<lambda>(r, t). case r of Ret _ \<Rightarrow> c t | _ \<Rightarrow> False)
            (\<lambda>(r, t). case r of Ret b \<Rightarrow> body b t | _ \<Rightarrow> (r, t)) (Ret a, s) of
       Some x \<Rightarrow> x
     | None \<Rightarrow> (Hang, s))"

text \<open>
  \<open>while (true)\<close> over a variable: a turn gives the next value (\<open>Inl\<close>) or leaves the loop with a
  result (\<open>Inr\<close>, a \<open>break\<close>); a loop that does neither for ever hangs.
\<close>

definition forever :: "('a \<Rightarrow> ('e, 's, 'a + 'b) prog) \<Rightarrow> 'a \<Rightarrow> ('e, 's, 'b) prog" where
  "forever body a = (\<lambda>s.
     case while_option (\<lambda>(r, t). case r of Ret (Inl _) \<Rightarrow> True | _ \<Rightarrow> False)
            (\<lambda>(r, t). case r of Ret (Inl b) \<Rightarrow> body b t | _ \<Rightarrow> (r, t)) (Ret (Inl a), s) of
       Some (Ret (Inr b), t) \<Rightarrow> (Ret b, t)
     | Some (Throw e, t) \<Rightarrow> (Throw e, t)
     | Some (Undef, t) \<Rightarrow> (Undef, t)
     | Some (_, t) \<Rightarrow> (Hang, t)
     | None \<Rightarrow> (Hang, s))"

text \<open>\<open>steps S a xs a'\<close>: the variable goes from \<open>a\<close> to \<open>a'\<close> by one \<open>S\<close> step for each row.\<close>

fun steps :: "('a \<Rightarrow> 'x \<Rightarrow> 'a \<Rightarrow> bool) \<Rightarrow> 'a \<Rightarrow> 'x list \<Rightarrow> 'a \<Rightarrow> bool" where
  "steps S a [] a' \<longleftrightarrow> a' = a"
| "steps S a (x # xs) a' \<longleftrightarrow> (\<exists>b. S a x b \<and> steps S b xs a')"

lemma steps_function: "steps (\<lambda>a x b. b = f a x) a xs a' \<longleftrightarrow> a' = foldl f a xs"
  by (induction xs arbitrary: a) auto

lemma while_do_stop: "\<not> c s \<Longrightarrow> while_do c body a s = (Ret a, s)"
  unfolding while_do_def by (subst while_option_unfold) simp

lemma while_do_step:
  assumes "c s" and "body a s = (Ret b, t)" and "while_do c body b t = (Ret a', s')"
  shows "while_do c body a s = (Ret a', s')"
proof -
  let ?b = "\<lambda>(r, t). case r of Ret _ \<Rightarrow> c t | _ \<Rightarrow> False"
  let ?f = "\<lambda>(r, t). case r of Ret b \<Rightarrow> body b t | _ \<Rightarrow> (r, t)"
  have "while_option ?b ?f (Ret a, s) = while_option ?b ?f (Ret b, t)"
    using assms(1,2) by (subst while_option_unfold) simp
  then show ?thesis using assms(3) by (simp add: while_do_def split: option.splits)
qed

lemma while_do_rows_from:
  assumes step: "\<And>j a s. \<lbrakk>j < length R; I j s\<rbrakk> \<Longrightarrow>
      c s \<and> (\<exists>a' s'. body a s = (Ret a', s') \<and> S a (R ! j) a' \<and> I (Suc j) s')"
    and stop: "\<And>s. I (length R) s \<Longrightarrow> \<not> c s"
  shows "\<lbrakk>j \<le> length R; I j s\<rbrakk> \<Longrightarrow>
    \<exists>a' s'. while_do c body a s = (Ret a', s') \<and> steps S a (drop j R) a' \<and> I (length R) s'"
proof (induction "length R - j" arbitrary: j a s)
  case 0
  then show ?case using stop by (auto simp: while_do_stop)
next
  case (Suc n)
  then have lt: "j < length R" by simp
  with step [OF lt Suc.prems(2)] obtain a1 s1 where one:
    "c s" "body a s = (Ret a1, s1)" "S a (R ! j) a1" "I (Suc j) s1" by blast
  have "\<exists>a' s'. while_do c body a1 s1 = (Ret a', s') \<and> steps S a1 (drop (Suc j) R) a' \<and> I (length R) s'"
    using Suc.hyps(2) lt one(4) by (intro Suc.hyps(1)) simp_all
  then obtain a2 s2 where rest: "while_do c body a1 s1 = (Ret a2, s2)"
    "steps S a1 (drop (Suc j) R) a2" "I (length R) s2" by blast
  have "steps S a (drop j R) a2"
    using one(3) rest(2) by (auto simp: Cons_nth_drop_Suc [OF lt, symmetric])
  with while_do_step [OF one(1,2) rest(1)] rest(3) show ?case by blast
qed

lemmas while_do_rows = while_do_rows_from [where j = 0, simplified]

section \<open>Cursors\<close>

locale cursor =
  fixes data :: "'s \<Rightarrow> string list list" and idx :: "'s \<Rightarrow> int" and put_idx :: "int \<Rightarrow> 's \<Rightarrow> 's"
    and eof :: "'s \<Rightarrow> bool" and fetch_next :: "(cxx_exn, 's, 'r) prog"
    and conv :: "string list \<Rightarrow> 'r" and width :: nat
  assumes eof_iff: "eof s \<longleftrightarrow> int (length (data s)) = idx s"
    and put_idx: "data (put_idx n s) = data s" "idx (put_idx n s) = n"
      "put_idx n (put_idx m s) = put_idx n s" "put_idx (idx s) s = s"
    and next_row: "\<lbrakk>0 \<le> idx s; nat (idx s) < length (data s); width \<le> length (data s ! nat (idx s))\<rbrakk> \<Longrightarrow>
      fetch_next s = (Ret (conv (data s ! nat (idx s))), put_idx (idx s + 1) s)"
begin

text \<open>The loop over all rows, from the first, folds the rows in order.\<close>

lemma loop_all:
  assumes "idx s = 0" and wide: "\<forall>r \<in> set (data s). width \<le> length r"
  shows "while_do (\<lambda>s. \<not> eof s) (\<lambda>a. bnd fetch_next (\<lambda>r. ret (f a r))) a s =
    (Ret (foldl (\<lambda>a r. f a (conv r)) a (data s)), put_idx (int (length (data s))) s)"
proof -
  let ?I = "\<lambda>j t. t = put_idx (int j) s"
  have "\<exists>a' s'. while_do (\<lambda>s. \<not> eof s) (\<lambda>a. bnd fetch_next (\<lambda>r. ret (f a r))) a s = (Ret a', s') \<and>
      steps (\<lambda>a x b. b = f a (conv x)) a (data s) a' \<and> ?I (length (data s)) s'"
  proof (rule while_do_rows)
    fix j a t assume j: "j < length (data s)" and t: "t = put_idx (int j) s"
    have "fetch_next t = (Ret (conv (data s ! j)), put_idx (int (Suc j)) s)"
      using next_row [of t] j wide by (simp add: t put_idx add.commute)
    then show "\<not> eof t \<and> (\<exists>a' s'. bnd fetch_next (\<lambda>r. ret (f a r)) t = (Ret a', s') \<and>
        a' = f a (conv (data s ! j)) \<and> s' = put_idx (int (Suc j)) s)"
      using j by (simp add: eof_iff t put_idx prog_simps)
  next
    fix t assume "t = put_idx (int (length (data s))) s"
    then show "\<not> \<not> eof t" by (simp add: eof_iff put_idx)
  next
    show "s = put_idx (int 0) s" using put_idx(4) [of s] assms(1) by simp
  qed
  then show ?thesis by (auto simp: steps_function)
qed

end

section \<open>Loops without a condition\<close>

text \<open>The loop follows its turns: an invariant of variable and state holds when a turn ends it.\<close>

lemma forever_invariant:
  assumes "I a s" and step: "\<And>a s b t. I a s \<Longrightarrow> body a s = (Ret (Inl b), t) \<Longrightarrow> I b t"
  shows "forever body a s = (Hang, s) \<or>
    (\<exists>b t r u. I b t \<and> body b t = (r, u) \<and> (\<forall>c. r \<noteq> Ret (Inl c)) \<and>
      forever body a s = (case r of Ret (Inr x) \<Rightarrow> (Ret x, u) | Throw e \<Rightarrow> (Throw e, u) | Undef \<Rightarrow> (Undef, u) | _ \<Rightarrow> (Hang, u)))"
proof -
  let ?c = "\<lambda>(r, t). case r of Ret (Inl _) \<Rightarrow> True | _ \<Rightarrow> False"
  let ?f = "\<lambda>(r, t). case r of Ret (Inl b) \<Rightarrow> body b t | _ \<Rightarrow> (r, t)"
  let ?P = "\<lambda>(r, u). (\<exists>b. r = Ret (Inl b) \<and> I b u) \<or> ((\<forall>c. r \<noteq> Ret (Inl c)) \<and> (\<exists>b t. I b t \<and> body b t = (r, u)))"
  show ?thesis
  proof (cases "while_option ?c ?f (Ret (Inl a), s)")
    case None
    then show ?thesis by (simp add: forever_def)
  next
    case (Some x)
    have turn: "?P (?f y)" if old: "?P y" "?c y" for y
    proof -
      obtain b t where y: "y = (Ret (Inl b), t)" "I b t"
        using old by (cases y; cases "fst y") (auto split: sum.splits)
      obtain r u where "body b t = (r, u)" by fastforce
      with y step show ?thesis by (cases "\<exists>c. r = Ret (Inl c)") auto
    qed
    obtain r u where x: "x = (r, u)" by fastforce
    have "?P x" by (rule while_option_rule [where P = ?P, OF turn Some]) (use assms(1) in auto)
    moreover have "\<not> ?c x" by (rule while_option_stop [OF Some])
    ultimately obtain b t where "I b t" "body b t = (r, u)" "\<forall>c. r \<noteq> Ret (Inl c)"
      using x by (auto split: outcome.splits sum.splits)
    moreover from this(3) have "forever body a s =
        (case r of Ret (Inr x) \<Rightarrow> (Ret x, u) | Throw e \<Rightarrow> (Throw e, u) | Undef \<Rightarrow> (Undef, u) | _ \<Rightarrow> (Hang, u))"
      using Some x by (simp add: forever_def split: outcome.split sum.split)
    ultimately show ?thesis by blast
  qed
qed

text \<open>A loop no turn of which breaks out does not return.\<close>

lemma forever_no_break:
  assumes "\<And>a s x t. body a s \<noteq> (Ret (Inr x), t)"
  shows "fst (forever body a s) \<noteq> Ret y"
proof -
  consider "forever body a s = (Hang, s)"
    | b t r u where "body b t = (r, u)" "\<forall>c. r \<noteq> Ret (Inl c)"
        "forever body a s = (case r of Ret (Inr x) \<Rightarrow> (Ret x, u) | Throw e \<Rightarrow> (Throw e, u)
          | Undef \<Rightarrow> (Undef, u) | _ \<Rightarrow> (Hang, u))"
    using forever_invariant [of "\<lambda>_ _. True" a s body] by blast
  then show ?thesis
  proof cases
    case 2
    with assms have "\<forall>x. r \<noteq> Ret (Inr x)" by metis
    with 2 show ?thesis by (cases r rule: outcome.exhaust) (auto split: sum.split)
  qed simp
qed

text \<open>One turn of the loop; what it leaves in the state when it hangs is not determined.\<close>

lemma forever_step:
  assumes "body a s = (r, t)"
  shows "fst (forever body a s) = (case r of Ret (Inl b) \<Rightarrow> fst (forever body b t) | Ret (Inr x) \<Rightarrow> Ret x
    | Throw e \<Rightarrow> Throw e | Undef \<Rightarrow> Undef | Hang \<Rightarrow> Hang)"
proof -
  let ?c = "\<lambda>(r, t). case r of Ret (Inl _) \<Rightarrow> True | _ \<Rightarrow> False"
  let ?f = "\<lambda>(r, t). case r of Ret (Inl b) \<Rightarrow> body b t | _ \<Rightarrow> (r, t)"
  have one: "while_option ?c ?f (Ret (Inl a), s) = while_option ?c ?f (r, t)"
    using assms by (subst while_option_unfold) simp
  show ?thesis
  proof (cases "\<exists>b. r = Ret (Inl b)")
    case True
    then show ?thesis by (auto simp: forever_def one split: option.split outcome.split sum.split)
  next
    case False
    then have "\<not> ?c (r, t)" by (auto split: outcome.split sum.split)
    then have "while_option ?c ?f (r, t) = Some (r, t)" by (subst while_option_unfold) simp
    then show ?thesis using False by (auto simp: forever_def one split: outcome.split sum.split)
  qed
qed

text \<open>A loop every turn of which goes on.\<close>

lemma forever_goes_on:
  assumes start: "I a s" and turn: "\<And>a s. I a s \<Longrightarrow> \<exists>b t. body a s = (Ret (Inl b), t) \<and> I b t"
  shows "forever body a s = (Hang, s)"
proof -
  have keep: "I c t" if "I b u" "body b u = (Ret (Inl c), t)" for b u c t
    using turn [OF that(1)] that(2) by auto
  consider "forever body a s = (Hang, s)" | b t r u where "I b t" "body b t = (r, u)" "\<forall>c. r \<noteq> Ret (Inl c)"
    using forever_invariant [where I = I and body = body, OF start] keep by metis
  then show ?thesis
  proof cases
    case 2
    with turn [OF 2(1)] show ?thesis by auto
  qed
qed

end
