(* ===== verification/RestoreMsg.thy ===== *)
theory RestoreMsg
  imports Loops Listings
begin

text \<open>
  \<open>Restore.cpp\<close>: the message that tells a client everything about its groups.  Three result
  vectors with an index each are walked by nested loops; the text is built by appending, with a
  separator too many that \<open>removeLastChar\<close> takes off again.
\<close>

section \<open>State and operations\<close>

record 'db restore =
  r_database :: 'db
  m_groups :: "string list list"
  m_users :: "string list list"
  m_items :: "string list list"
  m_index_g :: int
  m_index_u :: int
  m_index_i :: int

record GroupData = gd_code :: string  gd_name :: string
record UserData = ud_name :: string  ud_status :: string
record ItemData = id_name :: string  id_quantity :: string  id_remarks :: string

text \<open>The constructor leaves the three counters as they are.\<close>

definition Restore_ctor :: "int \<Rightarrow> 'db \<Rightarrow> 'db restore" where
  "Restore_ctor index db =
     \<lparr>r_database = db, m_groups = [], m_users = [], m_items = [], m_index_g = index, m_index_u = index, m_index_i = index\<rparr>"

definition r_query ::
  "'db engine \<Rightarrow> string \<Rightarrow> (cxx_exn, 'db restore, string list list) prog" where
  "r_query q sql = (\<lambda>s. case db_query q sql (r_database s) of (r, d) \<Rightarrow> (r, s\<lparr>r_database := d\<rparr>))"

definition sql_my_groups :: "string \<Rightarrow> string" where
  "sql_my_groups username =
     ''SELECT group_code FROM Users_In_Groups WHERE username='' @ apos @ username @ apos @ '';''"

definition sql_group_users :: "string \<Rightarrow> string" where
  "sql_group_users group_code =
     ''SELECT username,status FROM Users_In_Groups WHERE group_code='' @ group_code @ '';''"

definition sql_group_items :: "string \<Rightarrow> string" where
  "sql_group_items group_code =
     ''SELECT item_name,quantity,remarks FROM Lists WHERE group_code='' @ group_code @ '';''"

definition sql_code_name :: "string \<Rightarrow> string" where
  "sql_code_name group_code = ''SELECT code,name FROM PublicGroups WHERE code='' @ group_code @ '';''"

definition findGroupsOfUser :: "'db engine \<Rightarrow> string \<Rightarrow> (cxx_exn, 'db restore, unit) prog" where
  "findGroupsOfUser q username =
     bnd (r_query q (sql_my_groups username)) (\<lambda>data.
     thn (modify (\<lambda>s. s\<lparr>m_groups := data\<rparr>)) (modify (\<lambda>s. s\<lparr>m_index_g := 0\<rparr>)))"

definition findUsersInGroup :: "'db engine \<Rightarrow> string \<Rightarrow> (cxx_exn, 'db restore, unit) prog" where
  "findUsersInGroup q group_code =
     bnd (r_query q (sql_group_users group_code)) (\<lambda>data.
     thn (modify (\<lambda>s. s\<lparr>m_users := data\<rparr>)) (modify (\<lambda>s. s\<lparr>m_index_u := 0\<rparr>)))"

definition findItemsInGroup :: "'db engine \<Rightarrow> string \<Rightarrow> (cxx_exn, 'db restore, unit) prog" where
  "findItemsInGroup q group_code =
     bnd (r_query q (sql_group_items group_code)) (\<lambda>data.
     thn (modify (\<lambda>s. s\<lparr>m_items := data\<rparr>)) (modify (\<lambda>s. s\<lparr>m_index_i := 0\<rparr>)))"

text \<open>An element of a vector at an \<open>int\<close> index.\<close>

definition at_int :: "string list list \<Rightarrow> int \<Rightarrow> nat \<Rightarrow> (cxx_exn, 's, string) prog" where
  "at_int data i j = (if i < 0 then undef else at data (nat i) j)"

definition getNextGroup :: "'db engine \<Rightarrow> (cxx_exn, 'db restore, GroupData) prog" where
  "getNextGroup q =
     bnd (gets (\<lambda>s. (m_groups s, m_index_g s))) (\<lambda>(groups, i).
     bnd (at_int groups i 0) (\<lambda>group_code.
     bnd (r_query q (sql_code_name group_code)) (\<lambda>data.
     bnd (at data 0 1) (\<lambda>name.
     thn (modify (\<lambda>s. s\<lparr>m_index_g := m_index_g s + 1\<rparr>))
         (ret \<lparr>gd_code = group_code, gd_name = name\<rparr>)))))"

definition getNextUser :: "(cxx_exn, 'db restore, UserData) prog" where
  "getNextUser =
     bnd (gets (\<lambda>s. (m_users s, m_index_u s))) (\<lambda>(users, i).
     bnd (at_int users i 0) (\<lambda>name.
     bnd (at_int users i 1) (\<lambda>status.
     thn (modify (\<lambda>s. s\<lparr>m_index_u := m_index_u s + 1\<rparr>))
         (ret \<lparr>ud_name = name, ud_status = status\<rparr>))))"

definition getNextItem :: "(cxx_exn, 'db restore, ItemData) prog" where
  "getNextItem =
     bnd (gets (\<lambda>s. (m_items s, m_index_i s))) (\<lambda>(items, i).
     bnd (at_int items i 0) (\<lambda>name.
     bnd (at_int items i 1) (\<lambda>quantity.
     bnd (at_int items i 2) (\<lambda>remarks.
     thn (modify (\<lambda>s. s\<lparr>m_index_i := m_index_i s + 1\<rparr>))
         (ret \<lparr>id_name = name, id_quantity = quantity, id_remarks = remarks\<rparr>)))))"

definition eof_groups :: "'db restore \<Rightarrow> bool" where
  "eof_groups s \<longleftrightarrow> int (length (m_groups s)) = m_index_g s"
definition eof_users :: "'db restore \<Rightarrow> bool" where
  "eof_users s \<longleftrightarrow> int (length (m_users s)) = m_index_u s"
definition eof_items :: "'db restore \<Rightarrow> bool" where
  "eof_items s \<longleftrightarrow> int (length (m_items s)) = m_index_i s"

text \<open>\<open>substr(0, length() - 1)\<close>; of an empty string the length wraps around and nothing is cut.\<close>

definition removeLastChar :: "string \<Rightarrow> string" where
  "removeLastChar st = (if st = [] then st else take (length st - 1) st)"

definition users_loop :: "string \<Rightarrow> (cxx_exn, 'db restore, string) prog" where
  "users_loop = while_do (\<lambda>s. \<not> eof_users s) (\<lambda>msg.
     bnd getNextUser (\<lambda>user. ret ((msg @ ud_name user @ '':'' @ ud_status user) @ ''-'')))"

definition items_loop :: "string \<Rightarrow> (cxx_exn, 'db restore, string) prog" where
  "items_loop = while_do (\<lambda>s. \<not> eof_items s) (\<lambda>msg.
     bnd getNextItem (\<lambda>item.
       ret ((msg @ id_name item @ '':'' @ id_quantity item @ '':'' @ id_remarks item) @ ''-'')))"

definition groups_loop :: "'db engine \<Rightarrow> string \<Rightarrow> (cxx_exn, 'db restore, string) prog" where
  "groups_loop q = while_do (\<lambda>s. \<not> eof_groups s) (\<lambda>msg.
     bnd (getNextGroup q) (\<lambda>group.
     bnd (ret (msg @ gd_code group @ '','' @ gd_name group @ '','')) (\<lambda>msg.
     thn (findUsersInGroup q (gd_code group))
    (bnd (users_loop msg) (\<lambda>msg.
     bnd (ret (removeLastChar msg @ '','')) (\<lambda>msg.
     thn (findItemsInGroup q (gd_code group))
    (bnd (items_loop msg) (\<lambda>msg.
     ret (removeLastChar msg @ ''|'')))))))))"

definition buildRestoreMessage :: "'db engine \<Rightarrow> string \<Rightarrow> (cxx_exn, 'db restore, string) prog" where
  "buildRestoreMessage q username =
     thn (findGroupsOfUser q username)
    (bnd (groups_loop q ''@400|'') (\<lambda>msg. ret (msg @ ''|'')))"

section \<open>The three cursors\<close>

lemma run_at_int [prog_simps]:
  "at_int data i j s =
     (if 0 \<le> i \<and> nat i < length data \<and> j < length (data ! nat i) then (Ret (data ! nat i ! j), s) else (Undef, s))"
  by (simp add: at_int_def prog_simps)

definition user_data :: "string list \<Rightarrow> UserData" where
  "user_data r = \<lparr>ud_name = r ! 0, ud_status = r ! 1\<rparr>"

definition item_data :: "string list \<Rightarrow> ItemData" where
  "item_data r = \<lparr>id_name = r ! 0, id_quantity = r ! 1, id_remarks = r ! 2\<rparr>"

interpretation users_c: cursor m_users m_index_u "\<lambda>n s. s\<lparr>m_index_u := n\<rparr>" eof_users getNextUser user_data 2
  by unfold_locales (auto simp: eof_users_def getNextUser_def user_data_def prog_simps Suc_le_length_iff numeral_eq_Suc)

interpretation items_c: cursor m_items m_index_i "\<lambda>n s. s\<lparr>m_index_i := n\<rparr>" eof_items getNextItem item_data 3
  by unfold_locales (auto simp: eof_items_def getNextItem_def item_data_def prog_simps Suc_le_length_iff numeral_eq_Suc)

section \<open>The text\<close>

fun dash_join :: "string list \<Rightarrow> string" where
  "dash_join [] = ''''"
| "dash_join [x] = x"
| "dash_join (x # y # xs) = x @ ''-'' @ dash_join (y # xs)"

lemma dash_join_append: "dash_join (x # xs) = x @ concat (map (\<lambda>y. ''-'' @ y) xs)"
  by (induction xs arbitrary: x) auto

lemma concat_dash: "concat (map (\<lambda>x. x @ ''-'') (x # xs)) = dash_join (x # xs) @ ''-''"
  by (induction xs arbitrary: x) (auto simp: dash_join_append)

lemma removeLastChar_snoc [simp]: "removeLastChar (xs @ [c]) = xs"
  by (simp add: removeLastChar_def)

lemma removeLastChar_dashes:
  "removeLastChar (msg @ [c] @ concat (map (\<lambda>x. x @ ''-'') xs)) =
     (if xs = [] then msg else msg @ [c] @ dash_join xs)"
proof (cases xs)
  case (Cons x ys)
  then have "msg @ [c] @ concat (map (\<lambda>x. x @ ''-'') xs) = (msg @ [c] @ dash_join xs) @ ''-''"
    using concat_dash [of x ys] by simp
  then show ?thesis using Cons by (simp del: append_assoc append_Cons)
qed simp

lemma foldl_append: "foldl (\<lambda>a x. (a @ f x) @ ''-'') a xs = a @ concat (map (\<lambda>x. f x @ ''-'') xs)"
  by (induction xs arbitrary: a) auto

definition user_text :: "string \<times> string \<Rightarrow> string" where
  "user_text = (\<lambda>(u, s). u @ '':'' @ s)"

definition item_text :: "string \<times> int \<times> string \<Rightarrow> string" where
  "item_text = (\<lambda>(i, n, m). i @ '':'' @ to_string n @ '':'' @ m)"

text \<open>What a group contributes, with its members and items in some order.\<close>

definition group_text :: "int \<Rightarrow> string \<Rightarrow> (string \<times> string) list \<Rightarrow> (string \<times> int \<times> string) list \<Rightarrow> string" where
  "group_text k name us its =
     to_string k @ '','' @ name @ '','' @ dash_join (map user_text us) @
     (if its = [] then '''' else '','' @ dash_join (map item_text its)) @ ''|''"

definition describes :: "ilist \<Rightarrow> int \<Rightarrow> string \<Rightarrow> bool" where
  "describes v k msg \<longleftrightarrow> (\<exists>i us its. group_of v k = Some i \<and> msg = group_text k (g_name i) us its \<and>
     distinct us \<and> set us = {(u, s). status_of v k u = Some s} \<and>
     distinct its \<and> set its = {(x, n, m). items_tab v (k, x) = Some (n, m)})"

lemma users_loop_run:
  assumes "m_index_u s = 0" and "m_users s = map (\<lambda>(u, st). [u, st]) us"
  shows "users_loop msg s =
    (Ret (msg @ concat (map (\<lambda>x. user_text x @ ''-'') us)), s\<lparr>m_index_u := int (length us)\<rparr>)"
proof -
  have wide: "\<forall>r \<in> set (m_users s). 2 \<le> length r" using assms(2) by auto
  have "foldl (\<lambda>a r. (a @ ud_name (user_data r) @ '':'' @ ud_status (user_data r)) @ ''-'') msg (m_users s) =
      msg @ concat (map (\<lambda>x. user_text x @ ''-'') us)"
    unfolding foldl_append
    by (simp add: assms(2) comp_def user_data_def user_text_def case_prod_unfold)
  then show ?thesis
    using users_c.loop_all [OF assms(1) wide,
      of "\<lambda>a user. (a @ ud_name user @ '':'' @ ud_status user) @ ''-''" msg]
    by (simp add: users_loop_def assms(2))
qed

lemma items_loop_run:
  assumes "m_index_i s = 0" and "m_items s = map (\<lambda>(x, n, m). [x, to_string n, m]) its"
  shows "items_loop msg s =
    (Ret (msg @ concat (map (\<lambda>x. item_text x @ ''-'') its)), s\<lparr>m_index_i := int (length its)\<rparr>)"
proof -
  have wide: "\<forall>r \<in> set (m_items s). 3 \<le> length r" using assms(2) by auto
  have "foldl (\<lambda>a r. (a @ id_name (item_data r) @ '':'' @ id_quantity (item_data r) @ '':'' @
      id_remarks (item_data r)) @ ''-'') msg (m_items s) = msg @ concat (map (\<lambda>x. item_text x @ ''-'') its)"
    unfolding foldl_append
    by (simp add: assms(2) comp_def item_data_def item_text_def case_prod_unfold)
  then show ?thesis
    using items_c.loop_all [OF assms(1) wide,
      of "\<lambda>a item. (a @ id_name item @ '':'' @ id_quantity item @ '':'' @ id_remarks item) @ ''-''" msg]
    by (simp add: items_loop_def assms(2))
qed

section \<open>The queries\<close>

lemma run_r_query [prog_simps]:
  "db_query q sql (r_database s) = (r, d) \<Longrightarrow> r_query q sql s = (r, s\<lparr>r_database := d\<rparr>)"
  by (simp add: r_query_def)

lemma reads_my_groups:
  "safe_text u \<Longrightarrow> reads (sql_my_groups u)
     (Select (Some [C_group_code]) Users_In_Groups [[(OCol C_username, OLit (VText u))]])"
  by (simp add: sql_my_groups_def read_simps)

lemma reads_group_users:
  "is_code g \<Longrightarrow> reads (sql_group_users g)
     (Select (Some [C_username, C_status]) Users_In_Groups [[(OCol C_group_code, OLit (VInt (code_val g)))]])"
  by (simp add: sql_group_users_def read_simps)

lemma reads_group_items:
  "is_code g \<Longrightarrow> reads (sql_group_items g)
     (Select (Some [C_item_name, C_quantity, C_remarks]) Lists
       [[(OCol C_group_code, OLit (VInt (code_val g)))]])"
  by (simp add: sql_group_items_def read_simps)

lemma reads_code_name:
  "is_code g \<Longrightarrow> reads (sql_code_name g)
     (Select (Some [C_code, C_name]) PublicGroups [[(OCol C_code, OLit (VInt (code_val g)))]])"
  by (simp add: sql_code_name_def read_simps)

lemma restore_cols:
  "known_cols Users_In_Groups [C_group_code]" "known_cols Users_In_Groups [C_username, C_status]"
  "known_cols Lists [C_item_name, C_quantity, C_remarks]" "known_cols PublicGroups [C_code, C_name]"
  "project Users_In_Groups (Some [C_group_code]) [w, x, y] = [w]"
  "project Users_In_Groups (Some [C_username, C_status]) [w, x, y] = [x, y]"
  "project Lists (Some [C_item_name, C_quantity, C_remarks]) [w, x, y, z] = [x, y, z]"
  "project PublicGroups (Some [C_code, C_name]) [a, w, x, y, z] = [a, w]"
  by (simp_all add: known_cols_def project_def cell_def)

definition keeps :: "('db \<Rightarrow> bool) \<Rightarrow> ('db \<Rightarrow> store) \<Rightarrow> ilist \<Rightarrow> 'db \<Rightarrow> bool" where
  "keeps ok A v d \<longleftrightarrow> db_ok ok A d \<and> view (A d) = v"

context sql_query
begin

lemma findGroupsOfUser_run:
  assumes keep: "keeps ok A v (r_database s)" and "safe_text u"
  shows "\<exists>gs d. findGroupsOfUser q u s = (Ret (),
      s\<lparr>r_database := d, m_groups := map (\<lambda>(k, st). [to_string k]) gs, m_index_g := 0\<rparr>) \<and>
    keeps ok A v d \<and> distinct gs \<and> set gs = {(k, st). status_of v k u = Some st}"
proof -
  let ?st = "A (r_database s)" and ?P = "project Users_In_Groups (Some [C_group_code])"
  have ok: "db_ok ok A (r_database s)" "view ?st = v" using keep by (simp_all add: keeps_def)
  then have wf: "wf_store ?st" "ready ?st" by (auto simp: db_ok_def tables_wf_q)
  let ?R = "filter (holds Users_In_Groups [[(OCol C_username, OLit (VText u))]]) (rows ?st Users_In_Groups)"
  have ex: "exec (Select (Some [C_group_code]) Users_In_Groups [[(OCol C_username, OLit (VText u))]]) ?st =
      Some (map ?P ?R, ?st)"
    using wf by (simp add: exec_Select_cols cond_ok_keys restore_cols)
  note run = select_all_run [OF ok(1) reads_my_groups [OF assms(2)] ex]
  obtain data where data: "db_query q (sql_my_groups u) (r_database s) =
      (Ret data, after q (sql_my_groups u) (r_database s))"
    "mset data = mset (map (\<lambda>r. show_row (?P r)) ?R)"
    using run(1) by (auto simp: comp_def)
  have "\<exists>gs. data = map (\<lambda>(k, st). [to_string k]) gs \<and> distinct gs \<and>
      set gs = {(k, st). status_of v k u = Some st}"
    using data(2) groups_of_member [OF wf(1), of u]
    by (intro rows_list [where mk = "\<lambda>(k, st). member_row (k, u) st"])
       (auto simp: inj_on_def ok(2) restore_cols)
  then show ?thesis
    using data(1) run(2,3) ok(2)
    by (fastforce simp: findGroupsOfUser_def prog_simps keeps_def)
qed

lemma findUsersInGroup_run:
  assumes keep: "keeps ok A v (r_database s)" and "is_code g"
  shows "\<exists>us d. findUsersInGroup q g s = (Ret (),
      s\<lparr>r_database := d, m_users := map (\<lambda>(u, st). [u, st]) us, m_index_u := 0\<rparr>) \<and>
    keeps ok A v d \<and> distinct us \<and> set us = {(u, st). status_of v (code_val g) u = Some st}"
proof -
  let ?st = "A (r_database s)" and ?P = "project Users_In_Groups (Some [C_username, C_status])"
  have ok: "db_ok ok A (r_database s)" "view ?st = v" using keep by (simp_all add: keeps_def)
  then have wf: "wf_store ?st" "ready ?st" by (auto simp: db_ok_def tables_wf_q)
  let ?R = "filter (holds Users_In_Groups [[(OCol C_group_code, OLit (VInt (code_val g)))]])
    (rows ?st Users_In_Groups)"
  have ex: "exec (Select (Some [C_username, C_status]) Users_In_Groups
      [[(OCol C_group_code, OLit (VInt (code_val g)))]]) ?st = Some (map ?P ?R, ?st)"
    using wf by (simp add: exec_Select_cols cond_ok_keys restore_cols)
  note run = select_all_run [OF ok(1) reads_group_users [OF assms(2)] ex]
  obtain data where data: "db_query q (sql_group_users g) (r_database s) =
      (Ret data, after q (sql_group_users g) (r_database s))"
    "mset data = mset (map (\<lambda>r. show_row (?P r)) ?R)"
    using run(1) by (auto simp: comp_def)
  have "\<exists>us. data = map (\<lambda>(u, st). [u, st]) us \<and> distinct us \<and>
      set us = {(u, st). status_of v (code_val g) u = Some st}"
    using data(2) members_of_group [OF wf(1), of "code_val g"]
    by (intro rows_list [where mk = "\<lambda>(u, st). member_row (code_val g, u) st"])
       (auto simp: inj_on_def ok(2) restore_cols)
  then show ?thesis
    using data(1) run(2,3) ok(2)
    by (fastforce simp: findUsersInGroup_def prog_simps keeps_def)
qed

lemma findItemsInGroup_run:
  assumes keep: "keeps ok A v (r_database s)" and "is_code g"
  shows "\<exists>its d. findItemsInGroup q g s = (Ret (),
      s\<lparr>r_database := d, m_items := map (\<lambda>(i, n, m). [i, to_string n, m]) its, m_index_i := 0\<rparr>) \<and>
    keeps ok A v d \<and> distinct its \<and> set its = {(i, n, m). item_of v (code_val g) i = Some (n, m)}"
proof -
  let ?st = "A (r_database s)" and ?P = "project Lists (Some [C_item_name, C_quantity, C_remarks])"
  have ok: "db_ok ok A (r_database s)" "view ?st = v" using keep by (simp_all add: keeps_def)
  then have wf: "wf_store ?st" "ready ?st" by (auto simp: db_ok_def tables_wf_q)
  let ?R = "filter (holds Lists [[(OCol C_group_code, OLit (VInt (code_val g)))]]) (rows ?st Lists)"
  have ex: "exec (Select (Some [C_item_name, C_quantity, C_remarks]) Lists
      [[(OCol C_group_code, OLit (VInt (code_val g)))]]) ?st = Some (map ?P ?R, ?st)"
    using wf by (simp add: exec_Select_cols cond_ok_items restore_cols)
  note run = select_all_run [OF ok(1) reads_group_items [OF assms(2)] ex]
  obtain data where data: "db_query q (sql_group_items g) (r_database s) =
      (Ret data, after q (sql_group_items g) (r_database s))"
    "mset data = mset (map (\<lambda>r. show_row (?P r)) ?R)"
    using run(1) by (auto simp: comp_def)
  have "\<exists>its. data = map (\<lambda>(i, n, m). [i, to_string n, m]) its \<and> distinct its \<and>
      set its = {(i, n, m). item_of v (code_val g) i = Some (n, m)}"
    using data(2) items_of_group [OF wf(1), of "code_val g"]
    by (intro rows_list [where mk = "\<lambda>(i, n, m). item_row (code_val g, i) (n, m)"])
       (auto simp: inj_on_def image_iff ok(2) restore_cols)
  then show ?thesis
    using data(1) run(2,3) ok(2)
    by (fastforce simp: findItemsInGroup_def prog_simps keeps_def)
qed

lemma code_name_query:
  assumes "keeps ok A v d" and "is_code g" and "group_of v (code_val g) = Some i"
  shows "\<exists>d'. db_query q (sql_code_name g) d = (Ret [[to_string (code_val g), g_name i]], d') \<and> keeps ok A v d'"
proof -
  have ok: "db_ok ok A d" "view (A d) = v" using assms(1) by (simp_all add: keeps_def)
  let ?R = "\<lambda>v. case group_of v (code_val g) of None \<Rightarrow> []
    | Some i \<Rightarrow> [[VInt (code_val g), VText (g_name i)]]"
  have ex: "exec (Select (Some [C_code, C_name]) PublicGroups [[(OCol C_code, OLit (VInt (code_val g)))]]) (A d) =
      Some (?R (view (A d)), A d)" if "wf_store (A d)" "ready (A d)"
    using that by (simp add: exec_Select_cols cond_ok_keys restore_cols filter_group split: option.split)
  show ?thesis
    using select_run [where R = ?R, OF ok(1) reads_code_name [OF assms(2)] ex] ok(2) assms(3)
    by (auto simp: keeps_def)
qed

lemma getNextGroup_run:
  assumes "keeps ok A v (r_database s)" and "m_groups s = map (\<lambda>(k, st). [to_string k]) gs"
    and "m_index_g s = int j" and "j < length gs" and "gs ! j = (k, st)"
    and "group_of v k = Some i" and "0 < k" and "k < 2 ^ 63"
  shows "\<exists>d. getNextGroup q s = (Ret \<lparr>gd_code = to_string k, gd_name = g_name i\<rparr>,
      s\<lparr>r_database := d, m_index_g := int j + 1\<rparr>) \<and> keeps ok A v d"
proof -
  have "is_code (to_string k)" "code_val (to_string k) = k" using assms(7,8) by (simp_all add: code_to_string)
  then obtain d where "db_query q (sql_code_name (to_string k)) (r_database s) =
      (Ret [[to_string k, g_name i]], d)" "keeps ok A v d"
    using code_name_query [OF assms(1), of "to_string k" i] assms(6) by auto
  then show ?thesis
    using assms(2-5) by (auto simp: getNextGroup_def prog_simps)
qed

text \<open>One turn of the outer loop adds the text of one group.\<close>

lemma groups_turn:
  assumes inv: "group_inv v" and keep: "keeps ok A v (r_database s)"
    and groups: "m_groups s = map (\<lambda>(k, st). [to_string k]) gs" "m_index_g s = int j" "j < length gs"
    and gj: "gs ! j = (k, st)" and mem: "status_of v k u = Some st"
  shows "\<exists>piece s'. bnd (getNextGroup q) (\<lambda>group.
       bnd (ret (msg @ gd_code group @ '','' @ gd_name group @ '','')) (\<lambda>msg.
       thn (findUsersInGroup q (gd_code group))
      (bnd (users_loop msg) (\<lambda>msg.
       bnd (ret (removeLastChar msg @ '','')) (\<lambda>msg.
       thn (findItemsInGroup q (gd_code group))
      (bnd (items_loop msg) (\<lambda>msg.
       ret (removeLastChar msg @ ''|'')))))))) s = (Ret (msg @ piece), s') \<and> describes v k piece \<and>
     keeps ok A v (r_database s') \<and> m_groups s' = m_groups s \<and> m_index_g s' = int j + 1"
proof -
  obtain i where i: "group_of v k = Some i" using group_inv_member [OF inv mem] by blast
  have k: "0 < k" "k < 2 ^ 63"
  proof -
    have "k \<in> dom (groups_tab v)" using i by auto
    then have "0 < k \<and> k \<le> last_group v \<and> last_group v < 2 ^ 63"
      using inv_codes [OF inv] unfolding group_codes_ok_def by blast
    then show "0 < k" "k < 2 ^ 63" by auto
  qed
  then have code: "is_code (to_string k)" "code_val (to_string k) = k" by (simp_all add: code_to_string)
  obtain d1 where d1: "getNextGroup q s = (Ret \<lparr>gd_code = to_string k, gd_name = g_name i\<rparr>,
      s\<lparr>r_database := d1, m_index_g := int j + 1\<rparr>)" "keeps ok A v d1"
    using getNextGroup_run [OF keep groups gj i k] by blast
  let ?s1 = "s\<lparr>r_database := d1, m_index_g := int j + 1\<rparr>"
  have "keeps ok A v (r_database ?s1)" using d1(2) by simp
  from findUsersInGroup_run [OF this code(1)] code(2) obtain us d2 where d2:
    "findUsersInGroup q (to_string k) ?s1 = (Ret (),
      ?s1\<lparr>r_database := d2, m_users := map (\<lambda>(u, st). [u, st]) us, m_index_u := 0\<rparr>)" "keeps ok A v d2"
    "distinct us" "set us = {(u, st). status_of v k u = Some st}" by auto
  let ?s2 = "s\<lparr>m_index_g := int j + 1, r_database := d2, m_users := map (\<lambda>(u, st). [u, st]) us,
    m_index_u := int (length us)\<rparr>"
  have "keeps ok A v (r_database ?s2)" using d2(2) by simp
  from findItemsInGroup_run [OF this code(1)] code(2) obtain its d3 where d3:
    "findItemsInGroup q (to_string k) ?s2 = (Ret (),
      ?s2\<lparr>r_database := d3, m_items := map (\<lambda>(i, n, m). [i, to_string n, m]) its, m_index_i := 0\<rparr>)"
    "keeps ok A v d3" "distinct its" "set its = {(i, n, m). item_of v k i = Some (n, m)}" by auto
  have "us \<noteq> []" using d2(4) mem by auto
  then have "removeLastChar (msg' @ [c] @ concat (map (\<lambda>x. user_text x @ ''-'') us)) =
      msg' @ [c] @ dash_join (map user_text us)" for msg' c
    using removeLastChar_dashes [of msg' c "map user_text us"] by (simp add: comp_def)
  from this [of "msg @ to_string k @ '','' @ g_name i" "CHR '',''"]
  have users: "removeLastChar (msg @ to_string k @ '','' @ g_name i @ '','' @
      concat (map (\<lambda>x. user_text x @ ''-'') us)) =
      msg @ to_string k @ '','' @ g_name i @ '','' @ dash_join (map user_text us)"
    by simp
  let ?msg = "msg @ to_string k @ '','' @ g_name i @ '','' @ dash_join (map user_text us)"
  have items: "removeLastChar (?msg @ '','' @ concat (map (\<lambda>x. item_text x @ ''-'') its)) =
      (if its = [] then ?msg else ?msg @ '','' @ dash_join (map item_text its))"
    using removeLastChar_dashes [of ?msg "CHR '',''" "map item_text its"] by (simp add: comp_def)
  let ?piece = "group_text k (g_name i) us its"
  let ?s3 = "?s2\<lparr>r_database := d3, m_items := map (\<lambda>(i, n, m). [i, to_string n, m]) its,
    m_index_i := int (length its)\<rparr>"
  have "describes v k ?piece" unfolding describes_def using i d2(3,4) d3(3,4) by blast
  moreover have "bnd (getNextGroup q) (\<lambda>group.
       bnd (ret (msg @ gd_code group @ '','' @ gd_name group @ '','')) (\<lambda>msg.
       thn (findUsersInGroup q (gd_code group))
      (bnd (users_loop msg) (\<lambda>msg.
       bnd (ret (removeLastChar msg @ '','')) (\<lambda>msg.
       thn (findItemsInGroup q (gd_code group))
      (bnd (items_loop msg) (\<lambda>msg.
       ret (removeLastChar msg @ ''|'')))))))) s = (Ret (msg @ ?piece), ?s3)"
    using users items
    by (simp add: prog_simps d1(1) d2(1) d3(1) users_loop_run [where us = us] items_loop_run [where its = its]
        group_text_def)
  ultimately show ?thesis using d3(2) by fastforce
qed

lemma describes_all:
  "steps (\<lambda>msg x msg'. \<exists>piece. msg' = msg @ piece \<and> describes v (fst x) piece) start gs msg \<Longrightarrow>
   \<exists>pieces. msg = start @ concat pieces \<and> list_all2 (describes v) (map fst gs) pieces"
proof (induction gs arbitrary: start)
  case (Cons x xs)
  then obtain piece where piece: "describes v (fst x) piece"
    "steps (\<lambda>msg x msg'. \<exists>piece. msg' = msg @ piece \<and> describes v (fst x) piece) (start @ piece) xs msg" by auto
  from Cons.IH [OF this(2)] obtain pieces where
    "msg = (start @ piece) @ concat pieces" "list_all2 (describes v) (map fst xs) pieces" by blast
  then show ?case using piece(1) by (intro exI [of _ "piece # pieces"]) simp
qed simp

text \<open>The whole message.\<close>

lemma buildRestoreMessage_run:
  assumes inv: "group_inv v" and keep: "keeps ok A v (r_database s)" and u: "safe_text u"
  shows "\<exists>gs pieces s'. buildRestoreMessage q u s = (Ret (''@400|'' @ concat pieces @ ''|''), s') \<and>
    distinct gs \<and> set gs = {k. status_of v k u \<noteq> None} \<and> list_all2 (describes v) gs pieces \<and>
    keeps ok A v (r_database s')"
proof -
  obtain gs d where found: "findGroupsOfUser q u s = (Ret (),
      s\<lparr>r_database := d, m_groups := map (\<lambda>(k, st). [to_string k]) gs, m_index_g := 0\<rparr>)"
    "keeps ok A v d" "distinct gs" "set gs = {(k, st). status_of v k u = Some st}"
    using findGroupsOfUser_run [OF keep u] by blast
  let ?s0 = "s\<lparr>r_database := d, m_groups := map (\<lambda>(k, st). [to_string k]) gs, m_index_g := 0\<rparr>"
  let ?I = "\<lambda>j (t :: 'db restore). keeps ok A v (r_database t) \<and> m_groups t = map (\<lambda>(k, st). [to_string k]) gs \<and>
    m_index_g t = int j"
  let ?S = "\<lambda>msg x msg'. \<exists>piece. msg' = msg @ piece \<and> describes v (fst x) piece"
  have "\<exists>msg t. groups_loop q ''@400|'' ?s0 = (Ret msg, t) \<and> steps ?S ''@400|'' gs msg \<and> ?I (length gs) t"
    unfolding groups_loop_def
  proof (rule while_do_rows [where R = gs and I = ?I and S = ?S])
    fix j msg t assume j: "j < length gs" and I: "?I j t"
    obtain k st where gj: "gs ! j = (k, st)" by force
    then have "status_of v k u = Some st" using found(4) nth_mem [OF j] by auto
    from groups_turn [OF inv _ _ _ j gj this, of t msg] I gj
    show "\<not> eof_groups t \<and> (\<exists>msg' t'. bnd (getNextGroup q) (\<lambda>group.
       bnd (ret (msg @ gd_code group @ '','' @ gd_name group @ '','')) (\<lambda>msg.
       thn (findUsersInGroup q (gd_code group))
      (bnd (users_loop msg) (\<lambda>msg.
       bnd (ret (removeLastChar msg @ '','')) (\<lambda>msg.
       thn (findItemsInGroup q (gd_code group))
      (bnd (items_loop msg) (\<lambda>msg.
       ret (removeLastChar msg @ ''|'')))))))) t = (Ret msg', t') \<and> ?S msg (gs ! j) msg' \<and> ?I (Suc j) t')"
      using j by (fastforce simp: eof_groups_def)
  qed (use found(2) in \<open>auto simp: eof_groups_def\<close>)
  then obtain msg t where loop: "groups_loop q ''@400|'' ?s0 = (Ret msg, t)" "steps ?S ''@400|'' gs msg"
    "keeps ok A v (r_database t)" by blast
  from describes_all [OF loop(2)] obtain pieces where pieces:
    "msg = ''@400|'' @ concat pieces" "list_all2 (describes v) (map fst gs) pieces" by blast
  have "distinct (map fst gs)"
    using found(3,4) by (auto simp: distinct_map inj_on_def)
  moreover have "set (map fst gs) = {k. status_of v k u \<noteq> None}" using found(4) by force
  moreover have "buildRestoreMessage q u s = (Ret (''@400|'' @ concat pieces @ ''|''), t)"
    using found(1) loop(1) pieces(1) by (simp add: buildRestoreMessage_def prog_simps)
  ultimately show ?thesis using pieces(2) loop(3) by blast
qed

end

end
