(* ===== verification/ClientProperties.thy ===== *)
theory ClientProperties
  imports Demo RestoreMsg PacketParser
begin

text \<open>
  The properties of what a client sees: the table of codes, the parser and the encoder of packets, the
  accounts, and the text that restores its groups.
\<close>

section \<open>Packets\<close>

text \<open>C29: The binary search over the table of codes ends, for every code, and finds exactly the codes
  of the table.\<close>

theorem FIND_MSG_CODE_correct: "FIND_MSG_CODE code = Some (code \<in> set ALL_MESSAGES_CODES)"
  by (rule FIND_MSG_CODE_mem)

text \<open>C20: The constructor of \<open>Parser\<close> accepts exactly the legal packets: an at sign, a field
  \<open>stoi\<close> reads as a code of the table, non-empty arguments each with a bar behind it, a last bar,
  no apostrophe and no double dash; and it hands out their code and arguments.  Whatever the text,
  it ends and returns an object or throws one of three exceptions of the program: no subscript is
  out of range and no standard exception leaves it.\<close>

theorem Parser_accepts_legal:
  "(Parser_ctor msg = Ret p \<longleftrightarrow>
     (\<exists>cs. msg = packet cs (p_args p) \<and> legal_packet cs (p_args p) \<and> stoi cs = Inr (p_msgCode p) \<and>
       p_msgCode p \<in> set ALL_MESSAGES_CODES \<and> p_message p = msg)) \<and>
   ((\<exists>p. Parser_ctor msg = Ret p) \<or>
    (\<exists>x \<in> {SyntaxErrorException, InvalidCodeNumberException,
       SqlInjectionException (''Parser C'' @ [quote] @ ''tor'')}. Parser_ctor msg = Throw (Own x)))"
proof (intro conjI iffI)
  assume "Parser_ctor msg = Ret p"
  then show "\<exists>cs. msg = packet cs (p_args p) \<and> legal_packet cs (p_args p) \<and> stoi cs = Inr (p_msgCode p) \<and>
      p_msgCode p \<in> set ALL_MESSAGES_CODES \<and> p_message p = msg"
    by (rule Parser_ctor_Ret) blast
next
  assume "\<exists>cs. msg = packet cs (p_args p) \<and> legal_packet cs (p_args p) \<and> stoi cs = Inr (p_msgCode p) \<and>
      p_msgCode p \<in> set ALL_MESSAGES_CODES \<and> p_message p = msg"
  then show "Parser_ctor msg = Ret p" by (auto simp: Parser_ctor_packet)
qed (use Parser_ctor_cases [of msg] in auto)

text \<open>C21: What \<open>makeReceiveMessgae\<close> writes, \<open>Parser\<close> reads: from a code of the table and arguments
  that are not empty and without bar, apostrophe and double dash, the parser gets the same code and arguments back.\<close>

theorem makeReceive_Parser:
  assumes "\<forall>a \<in> set as. clean_arg a" and "code \<in> set ALL_MESSAGES_CODES"
  shows "Parser_ctor (makeReceive_args code as) =
    Ret \<lparr>p_message = makeReceive_args code as, p_args = as, p_msgCode = code\<rparr>"
  using Parser_ctor_packet [OF clean_args_legal [OF assms(1)] _ assms(2)] ALL_MESSAGES_CODES_range [OF assms(2)]
  by (simp add: makeReceive_args_packet stoi_to_string)

theorem makeReceive_Parser_witness:
  "Parser_ctor (makeReceive_args LST_ADD_ITEM [''1'', ''milk'']) =
     Ret \<lparr>p_message = makeReceive_args LST_ADD_ITEM [''1'', ''milk''], p_args = [''1'', ''milk''], p_msgCode = LST_ADD_ITEM\<rparr>"
  by (rule makeReceive_Parser) (simp_all add: clean_arg_def ALL_MESSAGES_CODES_def)

text \<open>No argument of an accepted packet holds an apostrophe, so between apostrophes it cannot end
  the literal of an SQL text, and quoting it would not change it.\<close>

theorem Parser_args_clean:
  assumes "Parser_ctor msg = Ret p" and "a \<in> set (getArguments p)"
  shows "clean_arg a \<and> (CHR 0x00 \<notin> set a \<longrightarrow> safe_text a)"
proof -
  obtain cs where "legal_packet cs (p_args p)" using assms(1) by (rule Parser_ctor_Ret)
  then have "clean_arg a" using assms(2) by (simp add: getArguments_def legal_packet_clean)
  then show ?thesis by (simp add: clean_arg_def safe_text_def)
qed

theorem Parser_args_clean_witness:
  "\<exists>p. Parser_ctor (makeReceive_args GR_CREATE_GROUP [''home'']) = Ret p \<and> safe_text ''home''"
proof -
  have "Parser_ctor (makeReceive_args GR_CREATE_GROUP [''home'']) =
      Ret \<lparr>p_message = makeReceive_args GR_CREATE_GROUP [''home''], p_args = [''home''], p_msgCode = GR_CREATE_GROUP\<rparr>"
    using Parser_ctor_packet [OF clean_args_legal, of "[''home'']" 11]
    by (simp add: makeReceive_args_packet stoi_to_string fits_int_def INT_MIN_def INT_MAX_def
        ALL_MESSAGES_CODES_def clean_arg_def)
  from Parser_args_clean [OF this] this show ?thesis by (simp add: getArguments_def)
qed

section \<open>Accounts\<close>

text \<open>\<open>Login\<close> checks the lengths, then the password against the account, and enters the user in
  both maps; a name that is online is refused to a socket that is not, and every refusal leaves
  the state alone.  \<open>Register\<close> adds an account exactly when name and password have legal lengths
  and the name is not taken; otherwise it throws and changes nothing.\<close>

theorem Login_Register_correct:
  assumes "sql_query q A ok" and "safe_text u" and "safe_text p"
  shows "refines (u_ok ok A) (u_abs A) (Login q sock u p) (spec_Login sock u p) \<and>
    refines (u_ok ok A) (u_abs A) (Register q u p) (spec_Register u p)"
  by (intro conjI sql_query.Login_refines [OF assms] sql_query.Register_refines [OF assms])

theorem Login_Register_correct_witness:
  "(\<exists>s'. Login demo_q 7 ''amit'' ''secret1'' demo_users = (Ret (), s') \<and> online_users s' 7 = Some ''amit'') \<and>
   (\<exists>s'. Register demo_q ''lior'' ''secret9'' demo_users = (Ret (), s') \<and>
      users_tab (view (users_database s')) ''lior'' = Some ''secret9'')"
proof
  have "spec_Login 7 ''amit'' ''secret1'' (u_abs id_abs demo_users) =
      (Ret (), put_online 7 ''amit'' (u_abs id_abs demo_users))"
    by (simp add: demo_u_abs spec_Login_def valid_credentials_def)
  from refines_run [OF Login_Register_correct [OF demo_engine demo_names(1,5), THEN conjunct1] demo_u_ok this]
  obtain s' where "Login demo_q 7 ''amit'' ''secret1'' demo_users = (Ret (), s')"
    "u_abs id_abs s' = put_online 7 ''amit'' (u_abs id_abs demo_users)" by blast
  moreover from this(2) have "online_users s' = online_users (put_online 7 ''amit'' (u_abs id_abs demo_users))"
    by (metis u_abs_def users.select_convs(2))
  ultimately show "\<exists>s'. Login demo_q 7 ''amit'' ''secret1'' demo_users = (Ret (), s') \<and> online_users s' 7 = Some ''amit''"
    by (auto simp: put_online_def)
  have "\<exists>v. spec_Register ''lior'' ''secret9'' (u_abs id_abs demo_users) = (Ret (), v) \<and>
      users_tab (users_database v) ''lior'' = Some ''secret9''"
    by (simp add: demo_u_abs spec_Register_def valid_credentials_def Let_def)
  then obtain v where v: "spec_Register ''lior'' ''secret9'' (u_abs id_abs demo_users) = (Ret (), v)"
    "users_tab (users_database v) ''lior'' = Some ''secret9''" by blast
  from refines_run [OF Login_Register_correct [OF demo_engine demo_names(4,6), THEN conjunct2] demo_u_ok v(1)] v(2)
  show "\<exists>s'. Register demo_q ''lior'' ''secret9'' demo_users = (Ret (), s') \<and>
     users_tab (view (users_database s')) ''lior'' = Some ''secret9''"
    by (fastforce simp: u_abs_def)
qed

text \<open>An account that was just registered can log in from any socket while nobody else is online
  under its name, and with that password only.\<close>

theorem register_then_login:
  assumes "sql_query q A ok" and "safe_text u" and "safe_text p" and "safe_text p'"
    and "u_ok ok A s" and "Register q u p s = (Ret (), t)" and "online_users_opposite s u = None"
  shows "\<exists>s'. Login q sock u p' t = (if p' = p then Ret () else
      if valid_credentials u p' then Throw (Own WrongUsernameOrPasswordException)
      else Throw (Own InvalidUsernameOrPasswordException), s')"
proof -
  obtain t' where t': "Register q u p s = (fst (spec_Register u p (u_abs A s)), t')" "u_ok ok A t'"
    "u_abs A t' = snd (spec_Register u p (u_abs A s))"
    by (rule refinesE [OF sql_query.Register_refines [OF assms(1-3)] assms(5)])
  then have spec: "fst (spec_Register u p (u_abs A s)) = Ret ()" "t' = t" using assms(6) by auto
  then have valid: "valid_credentials u p"
    and tab: "users_tab (users_database (u_abs A t)) u = Some p"
    and opp: "online_users_opposite (u_abs A t) u = None"
    using t'(3) assms(7) by (auto simp: spec_Register_def Let_def u_abs_def split: if_splits)
  have "u_ok ok A t" using t'(2) spec(2) by simp
  then obtain s' where "Login q sock u p' t = (fst (spec_Login sock u p' (u_abs A t)), s')"
    by (rule refinesE [OF sql_query.Login_refines [OF assms(1,2,4)]])
  moreover have "fst (spec_Login sock u p' (u_abs A t)) = (if p' = p then Ret () else
      if valid_credentials u p' then Throw (Own WrongUsernameOrPasswordException)
      else Throw (Own InvalidUsernameOrPasswordException))"
    using valid tab opp by (simp add: spec_Login_def)
  ultimately show ?thesis by simp
qed

theorem register_then_login_witness:
  "\<exists>t s'. Register demo_q ''lior'' ''secret9'' demo_users = (Ret (), t) \<and>
     Login demo_q 7 ''lior'' ''secret1'' t = (Throw (Own WrongUsernameOrPasswordException), s')"
proof -
  have "spec_Register ''lior'' ''secret9'' (u_abs id_abs demo_users) = (Ret (), snd (spec_Register ''lior'' ''secret9'' (u_abs id_abs demo_users)))"
    by (simp add: demo_u_abs spec_Register_def valid_credentials_def Let_def)
  from refines_run [OF sql_query.Register_refines [OF demo_engine demo_names(4,6)] demo_u_ok this]
  obtain t where t: "Register demo_q ''lior'' ''secret9'' demo_users = (Ret (), t)" by blast
  from register_then_login [OF demo_engine demo_names(4,6,5) demo_u_ok t, of 7] t
  show ?thesis by (simp add: demo_users_def valid_credentials_def)
qed

section \<open>Restoring\<close>

text \<open>C23: With the invariant of the groups, \<open>buildRestoreMessage\<close> ends and gives one part for each
  group of the user and no other, in some order; each part has the code and the name of the group, its
  members with their status and its items with quantity and remarks, each once.\<close>

theorem buildRestoreMessage_correct:
  assumes "sql_query q A ok" and "db_ok ok A (r_database s)" and "view (A (r_database s)) = v"
    and "group_inv v" and "safe_text u"
  shows "\<exists>gs pieces s'. buildRestoreMessage q u s = (Ret (''@400|'' @ concat pieces @ ''|''), s') \<and>
    distinct gs \<and> set gs = {k. status_of v k u \<noteq> None} \<and> list_all2 (describes v) gs pieces"
  using sql_query.buildRestoreMessage_run [OF assms(1,4) _ assms(5), of s] assms(2,3) by (auto simp: keeps_def)

definition demo_restore :: "store restore" where
  "demo_restore = \<lparr>r_database = demo, m_groups = [], m_users = [], m_items = [], m_index_g = 0, m_index_u = 0, m_index_i = 0\<rparr>"

theorem buildRestoreMessage_correct_witness:
  "\<exists>piece s'. buildRestoreMessage demo_q ''noam'' demo_restore = (Ret (''@400|'' @ piece @ ''|''), s') \<and>
     describes (view demo) 1 piece"
proof -
  have db: "r_database demo_restore = demo" by (simp add: demo_restore_def)
  then obtain gs pieces s' where run: "buildRestoreMessage demo_q ''noam'' demo_restore =
      (Ret (''@400|'' @ concat pieces @ ''|''), s')" "distinct gs"
    "set gs = {k. status_of (view demo) k ''noam'' \<noteq> None}" "list_all2 (describes (view demo)) gs pieces"
    using buildRestoreMessage_correct [OF demo_engine, of demo_restore "view demo" "''noam''"] demo_ok demo_inv
    by auto
  have "set gs = {1}" using run(3) by auto
  then have "gs = [1]" using run(2) by (rule distinct_singleton [rotated])
  with run(1,4) show ?thesis by (auto simp: list_all2_Cons1)
qed

end
