(* ===== verification/ServerIO.thy ===== *)
theory ServerIO
  imports Exceptions
begin

text \<open>
  \<open>Message.cpp\<close> and \<open>Server.cpp\<close>: the vector of client sockets, the queue of received packets,
  the queue of sockets that were dropped, and the receive buffer.  The calls of the socket
  library are a parameter, the record \<open>winsock\<close>, on a state of the network.  Each loop body of
  \<open>acceptFunction\<close> and \<open>recvFunction\<close> is one operation; theory \<open>Threads\<close> interleaves them.
  Console output is not modelled.
\<close>

section \<open>State\<close>

record message =
  m_message :: string
  m_socket :: int

definition Message_ctor :: "string \<Rightarrow> int \<Rightarrow> message" where
  "Message_ctor msg sock = \<lparr>m_message = msg, m_socket = sock\<rparr>"

definition getMessage :: "message \<Rightarrow> string" where "getMessage m = m_message m"
definition getSocket :: "message \<Rightarrow> int" where "getSocket m = m_socket m"
definition setMessage :: "string \<Rightarrow> message \<Rightarrow> message" where "setMessage s m = m\<lparr>m_message := s\<rparr>"
definition setSocket :: "int \<Rightarrow> message \<Rightarrow> message" where "setSocket sock m = m\<lparr>m_socket := sock\<rparr>"

text \<open>\<open>ws_recv sock n\<close> gives the result code and the bytes written to the buffer.\<close>

record 'n winsock =
  ws_startup :: "'n \<Rightarrow> int \<times> 'n"
  ws_getaddrinfo :: "'n \<Rightarrow> int \<times> 'n"
  ws_socket :: "'n \<Rightarrow> int \<times> 'n"
  ws_bind :: "int \<Rightarrow> 'n \<Rightarrow> int \<times> 'n"
  ws_listen :: "int \<Rightarrow> 'n \<Rightarrow> int \<times> 'n"
  ws_cleanup :: "'n \<Rightarrow> 'n"
  ws_send :: "int \<Rightarrow> string \<Rightarrow> 'n \<Rightarrow> int \<times> 'n"
  ws_recv :: "int \<Rightarrow> nat \<Rightarrow> 'n \<Rightarrow> int \<times> string \<times> 'n"
  ws_select :: "int \<Rightarrow> 'n \<Rightarrow> int \<times> 'n"
  ws_accept :: "int \<Rightarrow> 'n \<Rightarrow> int \<times> 'n"
  ws_closesocket :: "int \<Rightarrow> 'n \<Rightarrow> 'n"

definition SOCKET_ERROR :: int where "SOCKET_ERROR = -1"
definition INVALID_SOCKET :: int where "INVALID_SOCKET = -1"
definition DEFAULT_BUFLEN :: nat where "DEFAULT_BUFLEN = 1024"
definition MIN_LENGTH_MESSAGR :: int where "MIN_LENGTH_MESSAGR = 4"

record 'n server =
  net :: 'n
  clients :: "int list"
  messages :: "message list"
  disconnected_sockets :: "int list"
  buffer :: string
  printFlag :: bool
  ListenSocket :: int
  ClientSocket :: int
  iResult :: int

text \<open>The buffer and the integers are not initialised: they hold what was in memory.\<close>

definition Server_ctor :: "'n \<Rightarrow> string \<Rightarrow> int \<Rightarrow> 'n server" where
  "Server_ctor n garbage i =
     \<lparr>net = n, clients = [], messages = [], disconnected_sockets = [], buffer = garbage, printFlag = True,
      ListenSocket = i, ClientSocket = i, iResult = i\<rparr>"

definition on_net :: "('n \<Rightarrow> 'a \<times> 'n) \<Rightarrow> (cxx_exn, 'n server, 'a) prog" where
  "on_net f = (\<lambda>s. case f (net s) of (r, n) \<Rightarrow> (Ret r, s\<lparr>net := n\<rparr>))"

definition Server_dtor :: "'n winsock \<Rightarrow> (cxx_exn, 'n server, unit) prog" where
  "Server_dtor W = bnd (gets ClientSocket) (\<lambda>sock.
     thn (on_net (\<lambda>n. ((), ws_closesocket W sock n))) (on_net (\<lambda>n. ((), ws_cleanup W n))))"

section \<open>Starting\<close>

definition listenFunction :: "'n winsock \<Rightarrow> (cxx_exn, 'n server, unit) prog" where
  "listenFunction W =
     bnd (gets ListenSocket) (\<lambda>sock.
     bnd (on_net (ws_listen W sock)) (\<lambda>r.
     thn (modify (\<lambda>s. s\<lparr>iResult := r\<rparr>))
         (if r = SOCKET_ERROR
          then thn (on_net (\<lambda>n. ((), ws_closesocket W sock n))) (on_net (\<lambda>n. ((), ws_cleanup W n)))
          else ret ())))"

text \<open>
  \<open>run\<close> up to the start of its two threads, from the inner to the outer branch of its nested
  tests: the result says whether the threads are started.  The result of \<open>bind\<close> is not stored,
  so the test after it looks at the one of \<open>getaddrinfo\<close>.
\<close>

definition set_result :: "int \<Rightarrow> (cxx_exn, 'n server, unit) prog" where
  "set_result r = modify (\<lambda>s. s\<lparr>iResult := r\<rparr>)"

definition give_up :: "'n winsock \<Rightarrow> (cxx_exn, 'n server, bool) prog" where
  "give_up W = thn (on_net (\<lambda>n. ((), ws_cleanup W n))) (ret False)"

definition run_bind :: "'n winsock \<Rightarrow> (cxx_exn, 'n server, bool) prog" where
  "run_bind W =
     bnd (gets ListenSocket) (\<lambda>sock.
     thn (on_net (ws_bind W sock))
    (bnd (gets iResult) (\<lambda>r.
       if r = SOCKET_ERROR then thn (on_net (\<lambda>n. ((), ws_closesocket W sock n))) (give_up W)
       else thn (listenFunction W) (ret True))))"

definition run_socket :: "'n winsock \<Rightarrow> (cxx_exn, 'n server, bool) prog" where
  "run_socket W =
     bnd (on_net (ws_socket W)) (\<lambda>sock.
     thn (modify (\<lambda>s. s\<lparr>ListenSocket := sock\<rparr>))
         (if sock = INVALID_SOCKET then give_up W else run_bind W))"

definition run_resolve :: "'n winsock \<Rightarrow> (cxx_exn, 'n server, bool) prog" where
  "run_resolve W =
     bnd (on_net (ws_getaddrinfo W)) (\<lambda>r.
     thn (set_result r) (if r \<noteq> 0 then give_up W else run_socket W))"

definition server_run :: "'n winsock \<Rightarrow> (cxx_exn, 'n server, bool) prog" where
  "server_run W =
     thn (modify (\<lambda>s. s\<lparr>ListenSocket := INVALID_SOCKET, ClientSocket := INVALID_SOCKET\<rparr>))
    (bnd (on_net (ws_startup W)) (\<lambda>r.
     thn (set_result r) (if r \<noteq> 0 then ret False else run_resolve W)))"

section \<open>Sending and disconnecting\<close>

text \<open>
  \<open>clients.erase(std::remove(begin, end, socket))\<close> has one iterator: \<open>remove\<close> moves the other
  elements to the front, what is behind them keeps its old values, and \<open>erase\<close> takes one
  element away, the first behind them.
\<close>

definition erase_remove :: "int \<Rightarrow> int list \<Rightarrow> int list" where
  "erase_remove socket cs =
    (let kept = filter (\<lambda>c. c \<noteq> socket) cs in kept @ tl (drop (length kept) cs))"

definition disconnect :: "'n winsock \<Rightarrow> int \<Rightarrow> (cxx_exn, 'n server, unit) prog" where
  "disconnect W socket =
     bnd (gets clients) (\<lambda>cs.
       if length cs \<noteq> 0 then
         (if socket \<in> set cs then
            thn (modify (\<lambda>s. s\<lparr>clients := erase_remove socket (clients s)\<rparr>))
           (thn (modify (\<lambda>s. s\<lparr>disconnected_sockets := disconnected_sockets s @ [socket]\<rparr>))
                (modify (\<lambda>s. s\<lparr>net := ws_closesocket W socket (net s)\<rparr>)))
          else ret ())
       else ret ())"

text \<open>The C string of the message is sent: the text up to its first zero byte.\<close>

definition sendMessage :: "'n winsock \<Rightarrow> int \<Rightarrow> string \<Rightarrow> (cxx_exn, 'n server, unit) prog" where
  "sendMessage W socket message = (\<lambda>s.
     case ws_send W socket (c_str message) (net s) of (result, n) \<Rightarrow>
       (if result = SOCKET_ERROR then disconnect W socket else ret ()) (s\<lparr>net := n\<rparr>))"

definition getClients :: "'n server \<Rightarrow> int" where "getClients s = int (length (clients s))"
definition setPrintFlag :: "bool \<Rightarrow> (cxx_exn, 'n server, unit) prog" where
  "setPrintFlag state = modify (\<lambda>s. s\<lparr>printFlag := state\<rparr>)"
definition getPrintFlag :: "'n server \<Rightarrow> bool" where "getPrintFlag s = printFlag s"

section \<open>Accepting and receiving\<close>

text \<open>One turn of the loop of \<open>acceptFunction\<close>: is \<open>cv\<close> notified?\<close>

definition accept_turn :: "'n winsock \<Rightarrow> (cxx_exn, 'n server, bool) prog" where
  "accept_turn W =
     bnd (gets ListenSocket) (\<lambda>lsock.
     bnd (on_net (ws_accept W lsock)) (\<lambda>sock.
     thn (modify (\<lambda>s. s\<lparr>ClientSocket := sock\<rparr>))
         (if sock = INVALID_SOCKET
          then thn (on_net (\<lambda>n. ((), ws_closesocket W lsock n))) (thn (on_net (\<lambda>n. ((), ws_cleanup W n))) (ret False))
          else thn (modify (\<lambda>s. s\<lparr>clients := clients s @ [sock]\<rparr>)) (ret True))))"

text \<open>\<open>isReadyToRecv\<close>; the interval 0.1 given to it is converted to the \<open>int\<close> 0.\<close>

definition isReadyToRecv :: "'n winsock \<Rightarrow> int \<Rightarrow> (cxx_exn, 'n server, bool) prog" where
  "isReadyToRecv W socket = (\<lambda>s. case ws_select W socket (net s) of (n, net') \<Rightarrow> (Ret (n = 1), s\<lparr>net := net'\<rparr>))"

text \<open>\<open>strlen\<close> and \<open>std::string(_buffer)\<close> read up to the first zero byte; if the buffer has none,
  they read past its end.\<close>

definition clear_buffer :: "(cxx_exn, 'n server, unit) prog" where
  "clear_buffer =
     bnd (gets buffer) (\<lambda>b.
       if CHR 0x00 \<in> set b
       then modify (\<lambda>s. s\<lparr>buffer := replicate (length (c_str b)) (CHR 0x00) @ drop (length (c_str b)) b\<rparr>)
       else undef)"

definition buffer_string :: "(cxx_exn, 'n server, string) prog" where
  "buffer_string = bnd (gets buffer) (\<lambda>b. if CHR 0x00 \<in> set b then ret (c_str b) else undef)"

definition recv_into :: "'n winsock \<Rightarrow> int \<Rightarrow> (cxx_exn, 'n server, int) prog" where
  "recv_into W socket = (\<lambda>s.
     case ws_recv W socket DEFAULT_BUFLEN (net s) of (result, bytes, n) \<Rightarrow>
       (Ret result, s\<lparr>net := n, buffer := bytes @ drop (length bytes) (buffer s), iResult := result\<rparr>))"

definition client_at :: "nat \<Rightarrow> (cxx_exn, 'n server, int) prog" where
  "client_at index = bnd (gets clients) (\<lambda>cs. if index < length cs then ret (cs ! index) else undef)"

text \<open>
  The body of the loop of \<open>recvFunction\<close> after the wait: \<open>index\<close> is the local variable, the
  result is its next value.
\<close>

definition recv_body :: "'n winsock \<Rightarrow> nat \<Rightarrow> (cxx_exn, 'n server, nat) prog" where
  "recv_body W index =
     bnd (gets clients) (\<lambda>cs.
     bnd (ret (if index \<ge> length cs then 0 else index)) (\<lambda>index.
     bnd (client_at index) (\<lambda>sock.
     bnd (isReadyToRecv W sock) (\<lambda>rdy.
     thn (if rdy then
            thn clear_buffer
           (bnd (recv_into W sock) (\<lambda>result.
              if result = SOCKET_ERROR \<or> result < MIN_LENGTH_MESSAGR then disconnect W sock
              else
                bnd buffer_string (\<lambda>text.
                modify (\<lambda>s. s\<lparr>messages := messages s @ [setSocket sock (setMessage text
                  \<lparr>m_message = '''', m_socket = 0\<rparr>)]\<rparr>))))
          else ret ())
         (ret (index + 1))))))"

text \<open>The part of \<open>getLastPacket\<close> after the wait, under \<open>queueMutex\<close>.\<close>

definition take_packet :: "(cxx_exn, 'n server, message) prog" where
  "take_packet =
     bnd (gets messages) (\<lambda>ms.
       case ms of
         [] \<Rightarrow> undef
       | m # rest \<Rightarrow> thn (modify (\<lambda>s. s\<lparr>messages := rest\<rparr>)) (ret m))"

end
