(* ===== verification/Threads.thy ===== *)
theory Threads
  imports ServerIO
begin

text \<open>
  The threads of \<open>Server\<close> that share its state: the one of \<open>acceptFunction\<close>, the one of
  \<open>recvFunction\<close>, the dispatcher that calls \<open>getLastPacket\<close>, and the handler it waits for,
  which sends and may so disconnect a client.  A step relation interleaves them; what runs
  between two points where another thread can interfere is one step, taken from the operations
  of theory \<open>ServerIO\<close>.

  \<open>m\<close> and \<open>m2\<close> are each locked by one thread only and protect nothing, so they are left out; of
  the condition variables the model keeps who waits.  With \<open>spurious\<close> a wait may end without a
  notification, as C++ allows.
\<close>

section \<open>States and steps\<close>

datatype thread = Acceptor | Receiver | Dispatcher

text \<open>
  \<open>recvFunction\<close> has \<open>queueMutex\<close> from \<open>R_check\<close> to the end of \<open>R_body\<close>, while it waits on
  \<open>cv\<close> (\<open>R_wait\<close>) too: \<open>cv.wait\<close> gives back \<open>m\<close>, not \<open>queueMutex\<close>.  At \<open>R_park\<close> the test has found no
  client and the wait has not begun.
\<close>

datatype recv_pc = R_lock | R_check | R_park | R_wait | R_body | R_dead
datatype disp_pc = D_check | D_park | D_wait | D_lock | D_pop | D_run | D_dead
datatype accept_pc = A_accept | A_notify

record 'n sys =
  srv :: "'n server"
  queueMutex :: "thread option"
  rpc :: recv_pc
  r_index :: nat
  dpc :: disp_pc
  apc :: accept_pc
  pushed :: "message list"
  taken :: "message list"

definition init_sys :: "'n server \<Rightarrow> 'n sys" where
  "init_sys sv = \<lparr>srv = sv, queueMutex = None, rpc = R_lock, r_index = 0, dpc = D_check, apc = A_accept,
     pushed = messages sv, taken = []\<rparr>"

text \<open>\<open>queueCV.notify_one()\<close> after a packet was queued.\<close>

definition wake_dispatcher :: "nat \<Rightarrow> 'n server \<Rightarrow> disp_pc \<Rightarrow> disp_pc" where
  "wake_dispatcher n sv pc = (if n < length (messages sv) \<and> pc = D_wait then D_lock else pc)"

inductive step :: "'n winsock \<Rightarrow> bool \<Rightarrow> thread \<Rightarrow> 'n sys \<Rightarrow> 'n sys \<Rightarrow> bool"
  for W :: "'n winsock" and spurious :: bool where
  accept_conn: "\<lbrakk>apc s = A_accept; accept_turn W (srv s) = (Ret b, sv)\<rbrakk> \<Longrightarrow>
    step W spurious Acceptor s (s\<lparr>srv := sv, apc := (if b then A_notify else A_accept)\<rparr>)"
| accept_notify: "apc s = A_notify \<Longrightarrow>
    step W spurious Acceptor s (s\<lparr>apc := A_accept, rpc := (if rpc s = R_wait then R_body else rpc s)\<rparr>)"
| recv_lock: "\<lbrakk>rpc s = R_lock; queueMutex s = None\<rbrakk> \<Longrightarrow>
    step W spurious Receiver s (s\<lparr>queueMutex := Some Receiver, rpc := R_check\<rparr>)"
| recv_check: "rpc s = R_check \<Longrightarrow>
    step W spurious Receiver s (s\<lparr>rpc := (if clients (srv s) = [] then R_park else R_body)\<rparr>)"
| recv_park: "rpc s = R_park \<Longrightarrow> step W spurious Receiver s (s\<lparr>rpc := R_wait\<rparr>)"
| recv_wake: "\<lbrakk>rpc s = R_wait; spurious\<rbrakk> \<Longrightarrow> step W spurious Receiver s (s\<lparr>rpc := R_body\<rparr>)"
| recv_turn: "\<lbrakk>rpc s = R_body; recv_body W (r_index s) (srv s) = (Ret i, sv)\<rbrakk> \<Longrightarrow>
    step W spurious Receiver s (s\<lparr>srv := sv, r_index := i, rpc := R_lock, queueMutex := None,
      dpc := wake_dispatcher (length (messages (srv s))) sv (dpc s),
      pushed := pushed s @ drop (length (messages (srv s))) (messages sv)\<rparr>)"
| recv_undef: "\<lbrakk>rpc s = R_body; recv_body W (r_index s) (srv s) = (Undef, sv)\<rbrakk> \<Longrightarrow>
    step W spurious Receiver s (s\<lparr>srv := sv, rpc := R_dead\<rparr>)"
| disp_check: "dpc s = D_check \<Longrightarrow>
    step W spurious Dispatcher s (s\<lparr>dpc := (if messages (srv s) = [] then D_park else D_lock)\<rparr>)"
| disp_park: "dpc s = D_park \<Longrightarrow> step W spurious Dispatcher s (s\<lparr>dpc := D_wait\<rparr>)"
| disp_wake: "\<lbrakk>dpc s = D_wait; spurious\<rbrakk> \<Longrightarrow> step W spurious Dispatcher s (s\<lparr>dpc := D_lock\<rparr>)"
| disp_lock: "\<lbrakk>dpc s = D_lock; queueMutex s = None\<rbrakk> \<Longrightarrow>
    step W spurious Dispatcher s (s\<lparr>queueMutex := Some Dispatcher, dpc := D_pop\<rparr>)"
| disp_pop: "\<lbrakk>dpc s = D_pop; take_packet (srv s) = (Ret m, sv)\<rbrakk> \<Longrightarrow>
    step W spurious Dispatcher s (s\<lparr>srv := sv, queueMutex := None, dpc := D_run, taken := taken s @ [m]\<rparr>)"
| disp_undef: "\<lbrakk>dpc s = D_pop; take_packet (srv s) = (Undef, sv)\<rbrakk> \<Longrightarrow>
    step W spurious Dispatcher s (s\<lparr>srv := sv, dpc := D_dead\<rparr>)"
| handler_send: "\<lbrakk>dpc s = D_run; sendMessage W sock text (srv s) = (Ret (), sv)\<rbrakk> \<Longrightarrow>
    step W spurious Dispatcher s (s\<lparr>srv := sv\<rparr>)"
| handler_end: "dpc s = D_run \<Longrightarrow> step W spurious Dispatcher s (s\<lparr>dpc := D_check\<rparr>)"

inductive_cases stepE: "step W spurious t s s'"

definition sys_step :: "'n winsock \<Rightarrow> bool \<Rightarrow> 'n sys \<Rightarrow> 'n sys \<Rightarrow> bool" where
  "sys_step W spurious s s' \<longleftrightarrow> (\<exists>t. step W spurious t s s')"

definition reachable :: "'n winsock \<Rightarrow> bool \<Rightarrow> 'n server \<Rightarrow> 'n sys \<Rightarrow> bool" where
  "reachable W spurious sv s \<longleftrightarrow> (sys_step W spurious)\<^sup>*\<^sup>* (init_sys sv) s"

lemma reachable_induct [consumes 1, case_names init step]:
  assumes "reachable W spurious sv s" and "P (init_sys sv)"
    and "\<And>t s s'. P s \<Longrightarrow> step W spurious t s s' \<Longrightarrow> P s'"
  shows "P s"
  using assms(1) unfolding reachable_def
  by (induction rule: rtranclp_induct) (auto simp: sys_step_def intro: assms)

lemma reachable_init: "reachable W spurious sv (init_sys sv)"
  by (simp add: reachable_def)

lemma reachable_step: "reachable W spurious sv s \<Longrightarrow> step W spurious t s s' \<Longrightarrow> reachable W spurious sv s'"
  unfolding reachable_def by (rule rtranclp.rtrancl_into_rtrancl) (auto simp: sys_step_def)

section \<open>What the operations do to the queue\<close>

lemma disconnect_queue: "disconnect W sock s = (r, t) \<Longrightarrow> messages t = messages s"
  by (auto simp: disconnect_def prog_simps split: if_splits)

lemma send_queue: "sendMessage W sock text s = (r, t) \<Longrightarrow> messages t = messages s"
  by (auto simp: sendMessage_def prog_simps dest!: disconnect_queue split: prod.splits if_splits)

lemma accept_queue: "accept_turn W s = (r, t) \<Longrightarrow> messages t = messages s"
  by (auto simp: accept_turn_def on_net_def prog_simps bnd_def thn_def split: prod.splits if_splits)

lemma recv_queue: "recv_body W i s = (Ret j, t) \<Longrightarrow> \<exists>new. messages t = messages s @ new"
  by (auto simp: recv_body_def client_at_def isReadyToRecv_def clear_buffer_def recv_into_def buffer_string_def
      prog_simps bnd_def thn_def dest!: disconnect_queue split: prod.splits if_splits outcome.splits)

lemma recv_undef_queue: "recv_body W i s = (Undef, t) \<Longrightarrow> messages t = messages s"
  by (auto simp: recv_body_def client_at_def isReadyToRecv_def clear_buffer_def recv_into_def buffer_string_def
      prog_simps bnd_def thn_def dest!: disconnect_queue split: prod.splits if_splits outcome.splits)

lemma take_queue: "take_packet s = (Ret m, t) \<longleftrightarrow> (\<exists>ms. messages s = m # ms \<and> t = s\<lparr>messages := ms\<rparr>)"
  by (auto simp: take_packet_def prog_simps split: list.splits)

lemma take_undef: "take_packet s = (Undef, t) \<longleftrightarrow> messages s = [] \<and> t = s"
  by (auto simp: take_packet_def prog_simps split: list.splits)

section \<open>Invariants\<close>

text \<open>Who has \<open>queueMutex\<close> can be read off the program counters.\<close>

definition lock_inv :: "'n sys \<Rightarrow> bool" where
  "lock_inv s \<longleftrightarrow>
     (queueMutex s = Some Receiver \<longleftrightarrow> rpc s \<noteq> R_lock) \<and>
     (queueMutex s = Some Dispatcher \<longleftrightarrow> dpc s \<in> {D_pop, D_dead}) \<and> queueMutex s \<noteq> Some Acceptor"

definition queue_inv :: "'n sys \<Rightarrow> bool" where
  "queue_inv s \<longleftrightarrow> pushed s = taken s @ messages (srv s)"

definition woken_inv :: "'n sys \<Rightarrow> bool" where
  "woken_inv s \<longleftrightarrow> dpc s \<noteq> D_dead \<and> (dpc s \<in> {D_lock, D_pop} \<longrightarrow> messages (srv s) \<noteq> [])"

lemma lock_inv_step: "lock_inv s \<Longrightarrow> step W spurious t s s' \<Longrightarrow> lock_inv s'"
  by (elim stepE) (auto simp: lock_inv_def wake_dispatcher_def)

lemma queue_inv_step: "queue_inv s \<Longrightarrow> step W spurious t s s' \<Longrightarrow> queue_inv s'"
  by (elim stepE)
     (auto simp: queue_inv_def take_queue take_undef dest!: send_queue accept_queue recv_undef_queue recv_queue)

lemma woken_inv_step: "woken_inv s \<Longrightarrow> step W False t s s' \<Longrightarrow> woken_inv s'"
  by (elim stepE)
     (auto simp: woken_inv_def wake_dispatcher_def take_queue take_undef
       dest!: send_queue accept_queue recv_undef_queue recv_queue)

end
