(* ===== verification/ServerProperties.thy ===== *)
theory ServerProperties
  imports Threads
begin

text \<open>
  The properties of \<open>Server\<close>: what one call of each operation does, and what the interleaving of
  its threads guarantees and does not.
\<close>

section \<open>A small network\<close>

text \<open>
  The first call of \<open>recv\<close> gives a packet, the later ones report that the client has gone; every
  other call succeeds, except that \<open>bind\<close> fails.
\<close>

definition demo_ws :: "nat winsock" where
  "demo_ws = \<lparr>ws_startup = (\<lambda>n. (0, n)), ws_getaddrinfo = (\<lambda>n. (0, n)), ws_socket = (\<lambda>n. (3, n)),
     ws_bind = (\<lambda>sock n. (-1, n)), ws_listen = (\<lambda>sock n. (0, n)), ws_cleanup = (\<lambda>n. n),
     ws_send = (\<lambda>sock text n. (int (length text), n)),
     ws_recv = (\<lambda>sock k n. if n = 0 then (5, ''@12||'', 1) else (0, '''', n)),
     ws_select = (\<lambda>sock n. (1, n)), ws_accept = (\<lambda>sock n. (7, n)), ws_closesocket = (\<lambda>sock n. n)\<rparr>"

definition demo_server :: "nat server" where
  "demo_server = Server_ctor 0 (replicate DEFAULT_BUFLEN (CHR 0x00)) 0"

lemma demo_ws_simps [simp]:
  "ws_startup demo_ws n = (0, n)" "ws_getaddrinfo demo_ws n = (0, n)" "ws_socket demo_ws n = (3, n)"
  "ws_bind demo_ws sock n = (-1, n)" "ws_listen demo_ws sock n = (0, n)" "ws_cleanup demo_ws n = n"
  "ws_send demo_ws sock text n = (int (length text), n)"
  "ws_recv demo_ws sock k n = (if n = 0 then (5, ''@12||'', 1) else (0, '''', n))"
  "ws_select demo_ws sock n = (1, n)" "ws_accept demo_ws sock n = (7, n)" "ws_closesocket demo_ws sock n = n"
  by (simp_all add: demo_ws_def)

section \<open>Disconnecting\<close>

lemma length_filter_distinct:
  "distinct cs \<Longrightarrow> sock \<in> set cs \<Longrightarrow> length cs = Suc (length (filter (\<lambda>c. c \<noteq> sock) cs))"
proof (induction cs)
  case (Cons c cs)
  show ?case
  proof (cases "c = sock")
    case True
    then have "filter (\<lambda>c. c \<noteq> sock) cs = cs" using Cons.prems(1) by (intro filter_True) auto
    with True show ?thesis by simp
  qed (use Cons in auto)
qed simp

lemma erase_remove_distinct:
  "distinct cs \<Longrightarrow> sock \<in> set cs \<Longrightarrow> erase_remove sock cs = filter (\<lambda>c. c \<noteq> sock) cs"
  by (drule (1) length_filter_distinct) (simp add: erase_remove_def Let_def drop_Suc [symmetric] tl_drop)

text \<open>\<open>disconnect\<close> of a client that is connected once takes exactly that client out of the list,
  queues its socket for the logout and closes it; other sockets are left alone.\<close>

theorem disconnect_removes:
  assumes "distinct (clients s)" and "sock \<in> set (clients s)"
  shows "disconnect W sock s = (Ret (), s\<lparr>clients := filter (\<lambda>c. c \<noteq> sock) (clients s),
    disconnected_sockets := disconnected_sockets s @ [sock], net := ws_closesocket W sock (net s)\<rparr>)"
  using assms by (auto simp: disconnect_def prog_simps erase_remove_distinct)

theorem disconnect_removes_witness:
  "clients (snd (disconnect demo_ws 5 (demo_server\<lparr>clients := [4, 5, 6]\<rparr>))) = [4, 6]"
  using disconnect_removes [of "demo_server\<lparr>clients := [4, 5, 6]\<rparr>" 5 demo_ws] by simp

section \<open>Receiving\<close>

text \<open>\<open>zeroed t k\<close>: a buffer that holds the text \<open>t\<close> and \<open>k\<close> zero bytes.\<close>

definition zeroed :: "string \<Rightarrow> nat \<Rightarrow> string" where
  "zeroed t k = t @ replicate k (CHR 0x00)"

lemma zeroed_facts:
  assumes "CHR 0x00 \<notin> set t" and "0 < k"
  shows "CHR 0x00 \<in> set (zeroed t k)" and "c_str (zeroed t k) = t" and "drop (length t) (zeroed t k) = replicate k (CHR 0x00)"
proof -
  obtain j where k: "k = Suc j" using assms(2) gr0_conv_Suc by blast
  show "CHR 0x00 \<in> set (zeroed t k)" "drop (length t) (zeroed t k) = replicate k (CHR 0x00)"
    using assms(2) by (simp_all add: zeroed_def)
  show "c_str (zeroed t k) = t"
    using assms(1) by (simp add: zeroed_def c_str_def k takeWhile_neq del: takeWhile_append)
qed

text \<open>C33: While every packet is shorter than the buffer and holds no zero byte, the text that
  \<open>recvFunction\<close> queues is exactly the one received, whatever the text before it, and the
  buffer is again a text followed by zeros only.\<close>

theorem recv_text_exact:
  assumes "index < length (clients s)" and "sock = clients s ! index"
    and "buffer s = zeroed t k" and "CHR 0x00 \<notin> set t" and "0 < k"
    and "ws_select W sock (net s) = (1, n1)" and "ws_recv W sock DEFAULT_BUFLEN n1 = (r, bytes, n2)"
    and "MIN_LENGTH_MESSAGR \<le> r" and "CHR 0x00 \<notin> set bytes" and "length bytes < length (buffer s)"
  shows "\<exists>s'. recv_body W index s = (Ret (index + 1), s') \<and>
    messages s' = messages s @ [\<lparr>m_message = bytes, m_socket = sock\<rparr>] \<and>
    buffer s' = zeroed bytes (length (buffer s) - length bytes)"
proof -
  let ?n = "length (buffer s)"
  have clear: "replicate (length t) (CHR 0x00) @ replicate k (CHR 0x00) = replicate ?n (CHR 0x00)"
    using assms(3) by (simp add: zeroed_def replicate_add)
  have filled: "bytes @ drop (length bytes) (replicate ?n (CHR 0x00)) = zeroed bytes (?n - length bytes)"
    by (simp add: zeroed_def)
  have "r \<noteq> SOCKET_ERROR" "\<not> r < MIN_LENGTH_MESSAGR"
    using assms(8) by (simp_all add: SOCKET_ERROR_def MIN_LENGTH_MESSAGR_def)
  then show ?thesis
    using assms zeroed_facts [OF assms(4,5)] zeroed_facts [OF assms(9), of "?n - length bytes"] clear filled
    by (simp add: recv_body_def client_at_def isReadyToRecv_def clear_buffer_def recv_into_def buffer_string_def
        prog_simps bnd_def thn_def setSocket_def setMessage_def)
qed

theorem recv_text_exact_witness:
  "\<exists>s'. recv_body demo_ws 0 (demo_server\<lparr>clients := [7]\<rparr>) = (Ret 1, s') \<and>
     messages s' = [\<lparr>m_message = ''@12||'', m_socket = 7\<rparr>]"
proof -
  have "buffer (demo_server\<lparr>clients := [7]\<rparr>) = zeroed [] DEFAULT_BUFLEN" "net (demo_server\<lparr>clients := [7]\<rparr>) = 0"
    "messages (demo_server\<lparr>clients := [7]\<rparr>) = []" "clients (demo_server\<lparr>clients := [7]\<rparr>) = [7]"
    by (simp_all add: demo_server_def Server_ctor_def zeroed_def)
  then show ?thesis
    using recv_text_exact [where index = 0 and s = "demo_server\<lparr>clients := [7]\<rparr>" and sock = 7 and W = demo_ws and
        k = DEFAULT_BUFLEN and t = "[]" and ?n1.0 = 0 and r = 5 and bytes = "''@12||''" and ?n2.0 = 1]
    by (fastforce simp: DEFAULT_BUFLEN_def MIN_LENGTH_MESSAGR_def zeroed_def)
qed

text \<open>C34: Otherwise an old packet leaks into a new one: the buffer is cleared only up to its first
  zero byte, so after a packet with a zero byte inside, a packet one byte longer than the part
  before it is queued with the old rest appended, under the socket of the new sender.\<close>

theorem recv_residue:
  assumes "index < length (clients s)" and "sock = clients s ! index"
    and "buffer s = t @ CHR 0x00 # rest" and "CHR 0x00 \<notin> set t" and "CHR 0x00 \<in> set rest"
    and "ws_select W sock (net s) = (1, n1)" and "ws_recv W sock DEFAULT_BUFLEN n1 = (r, bytes, n2)"
    and "MIN_LENGTH_MESSAGR \<le> r" and "CHR 0x00 \<notin> set bytes" and "length bytes = Suc (length t)"
  shows "\<exists>s'. recv_body W index s = (Ret (index + 1), s') \<and>
    messages s' = messages s @ [\<lparr>m_message = bytes @ c_str rest, m_socket = sock\<rparr>]"
proof -
  have old: "c_str (buffer s) = t" using assms(3,4) by (simp add: c_str_def takeWhile_neq del: takeWhile_append)
  have new: "c_str (bytes @ rest) = bytes @ c_str rest"
    unfolding c_str_def using assms(9) by (intro takeWhile_append2) auto
  have filled: "bytes @ drop (length bytes) (replicate (length t) (CHR 0x00) @ drop (length t) (buffer s)) = bytes @ rest"
    using assms(3,10) by simp
  have "r \<noteq> SOCKET_ERROR" "\<not> r < MIN_LENGTH_MESSAGR"
    using assms(8) by (simp_all add: SOCKET_ERROR_def MIN_LENGTH_MESSAGR_def)
  moreover have "CHR 0x00 \<in> set (buffer s)" using assms(3) by simp
  ultimately show ?thesis
    using assms(1,2,5-9) old new filled
    by (simp add: recv_body_def client_at_def isReadyToRecv_def clear_buffer_def recv_into_def buffer_string_def
        prog_simps bnd_def thn_def setSocket_def setMessage_def)
qed

theorem recv_residue_witness:
  "\<exists>s'. recv_body demo_ws 0 (demo_server\<lparr>clients := [7], buffer := ''@25|'' @ CHR 0x00 # ''secret'' @ [CHR 0x00]\<rparr>)
     = (Ret 1, s') \<and> messages s' = [\<lparr>m_message = ''@12||secret'', m_socket = 7\<rparr>]"
proof -
  let ?s = "demo_server\<lparr>clients := [7], buffer := ''@25|'' @ CHR 0x00 # ''secret'' @ [CHR 0x00]\<rparr>"
  have "net ?s = 0" "messages ?s = []" "clients ?s = [7]"
    "buffer ?s = ''@25|'' @ CHR 0x00 # ''secret'' @ [CHR 0x00]" "c_str (''secret'' @ [CHR 0x00]) = ''secret''"
    by (simp_all add: demo_server_def Server_ctor_def c_str_def)
  then show ?thesis
    using recv_residue [where index = 0 and s = ?s and sock = 7 and W = demo_ws and t = "''@25|''" and
        rest = "''secret'' @ [CHR 0x00]" and ?n1.0 = 0 and r = 5 and bytes = "''@12||''" and ?n2.0 = 1]
    by (fastforce simp: MIN_LENGTH_MESSAGR_def)
qed

section \<open>Starting\<close>

text \<open>A failed \<open>bind\<close> goes unnoticed: when the library starts, the address resolves and a socket
  is made, \<open>run\<close> starts its two threads whatever \<open>bind\<close> and \<open>listen\<close> return.\<close>

theorem run_ignores_bind:
  assumes "ws_startup W (net s) = (0, n1)" and "ws_getaddrinfo W n1 = (0, n2)"
    and "ws_socket W n2 = (sock, n3)" and "sock \<noteq> INVALID_SOCKET"
  shows "fst (server_run W s) = Ret True"
proof -
  obtain b n4 where "ws_bind W sock n3 = (b, n4)" by (metis surj_pair)
  moreover obtain l n5 where "ws_listen W sock n4 = (l, n5)" by (metis surj_pair)
  ultimately show ?thesis
    using assms
    by (simp add: server_run_def run_resolve_def run_socket_def run_bind_def listenFunction_def set_result_def
        on_net_def prog_simps bnd_def thn_def SOCKET_ERROR_def)
qed

theorem run_ignores_bind_witness:
  "fst (ws_bind demo_ws 3 0) = SOCKET_ERROR \<and> fst (server_run demo_ws demo_server) = Ret True"
  using run_ignores_bind [of demo_ws demo_server 0 0 3 0]
  by (simp add: SOCKET_ERROR_def INVALID_SOCKET_def demo_server_def Server_ctor_def)

section \<open>Threads\<close>

lemma demo_server_simps [simp]:
  "clients demo_server = []" "messages demo_server = []" "net demo_server = 0"
  by (simp_all add: demo_server_def Server_ctor_def)

lemma lock_inv_reachable: "reachable W spurious sv s \<Longrightarrow> lock_inv s"
  by (induction rule: reachable_induct) (simp add: lock_inv_def init_sys_def, rule lock_inv_step)

lemma receiver_parks:
  assumes r: "reachable W spurious sv s" and "rpc s = R_lock" "queueMutex s = None" "clients (srv s) = []"
  shows "reachable W spurious sv (s\<lparr>queueMutex := Some Receiver, rpc := R_park\<rparr>)"
proof -
  let ?t = "s\<lparr>queueMutex := Some Receiver, rpc := R_check\<rparr>"
  have "reachable W spurious sv ?t" by (rule reachable_step [OF r]) (rule step.recv_lock [OF assms(2,3)])
  from reachable_step [OF this step.recv_check] show ?thesis using assms(4) by simp
qed

lemma receiver_waits:
  assumes "reachable W spurious sv s" "rpc s = R_lock" "queueMutex s = None" "clients (srv s) = []"
  shows "reachable W spurious sv (s\<lparr>queueMutex := Some Receiver, rpc := R_wait\<rparr>)"
  using reachable_step [OF receiver_parks [OF assms] step.recv_park] by simp

lemma dispatcher_takes:
  assumes "messages sv = m # ms"
  shows "reachable W spurious sv (init_sys (sv\<lparr>messages := ms\<rparr>)\<lparr>dpc := D_run, pushed := m # ms, taken := [m]\<rparr>)"
proof -
  have 1: "reachable W spurious sv (init_sys sv\<lparr>dpc := D_lock\<rparr>)"
    using reachable_step [OF reachable_init step.disp_check, of sv W spurious] assms by (simp add: init_sys_def)
  have 2: "reachable W spurious sv (init_sys sv\<lparr>dpc := D_pop, queueMutex := Some Dispatcher\<rparr>)"
    using reachable_step [OF 1 step.disp_lock] by (simp add: init_sys_def)
  have "take_packet sv = (Ret m, sv\<lparr>messages := ms\<rparr>)"
    using assms by (simp add: take_packet_def prog_simps)
  then show ?thesis
    using reachable_step [OF 2 step.disp_pop, of m "sv\<lparr>messages := ms\<rparr>"] assms by (simp add: init_sys_def)
qed

text \<open>While one of the two threads is between its \<open>lock\<close> and \<open>unlock\<close>, the other is not, and a
  receiving thread that waits for a client, with the mutex, stops the dispatcher.\<close>

lemma queue_exclusion:
  assumes "reachable W spurious sv s"
  shows "(rpc s = R_lock \<or> dpc s \<notin> {D_pop, D_dead}) \<and>
    (\<forall>t s'. rpc s \<in> {R_park, R_wait} \<longrightarrow> step W spurious t s s' \<longrightarrow> taken s' = taken s)"
proof -
  have excl: "rpc s = R_lock \<or> dpc s \<notin> {D_pop, D_dead}"
    using lock_inv_reachable [OF assms] by (auto simp: lock_inv_def)
  have "taken s' = taken s" if "rpc s \<in> {R_park, R_wait}" and "step W spurious t s s'" for t s'
    using that(2,1) excl by (elim stepE) auto
  with excl show ?thesis by blast
qed

text \<open>C17: The queue between the threads is safe, in every interleaving: every packet that was queued
  has been handed to the dispatcher or is still in the queue, in the order of its arrival;
  \<open>queueMutex\<close> keeps the receiving thread and the dispatcher apart; and while the receiving thread
  waits for a client, with the mutex, no packet is taken by any step.\<close>

theorem packets_in_order:
  assumes "reachable W spurious sv s"
  shows "pushed s = taken s @ messages (srv s) \<and> (rpc s = R_lock \<or> dpc s \<notin> {D_pop, D_dead}) \<and>
    (\<forall>t s'. rpc s \<in> {R_park, R_wait} \<longrightarrow> step W spurious t s s' \<longrightarrow> taken s' = taken s)"
proof -
  from assms have "queue_inv s"
    by (induction rule: reachable_induct) (simp add: queue_inv_def init_sys_def, rule queue_inv_step)
  then show ?thesis using queue_exclusion [OF assms] by (simp add: queue_inv_def)
qed

theorem packets_in_order_witness:
  "\<exists>s sv. reachable demo_ws False sv s \<and> taken s = [Message_ctor ''@12||'' 7] \<and> messages (srv s) = [Message_ctor ''@23||'' 8] \<and>
     pushed s = taken s @ messages (srv s)"
proof -
  let ?m = "Message_ctor ''@12||'' 7" and ?n = "Message_ctor ''@23||'' 8"
  let ?s = "init_sys (demo_server\<lparr>messages := [?n]\<rparr>)\<lparr>dpc := D_run, pushed := [?m, ?n], taken := [?m]\<rparr>"
  have "reachable demo_ws False (demo_server\<lparr>messages := [?m, ?n]\<rparr>) ?s"
    using dispatcher_takes [of "demo_server\<lparr>messages := [?m, ?n]\<rparr>" ?m "[?n]" demo_ws False] by simp
  with packets_in_order [OF this] show ?thesis
    by (intro exI [of _ ?s] exI [of _ "demo_server\<lparr>messages := [?m, ?n]\<rparr>"]) (simp add: init_sys_def)
qed

text \<open>If waits end by notification only, the dispatcher never takes from an empty queue.\<close>

theorem dispatcher_finds_packet:
  assumes "reachable W False sv s"
  shows "dpc s \<noteq> D_dead \<and> (dpc s = D_pop \<longrightarrow> messages (srv s) \<noteq> [])"
proof -
  from assms have "woken_inv s"
    by (induction rule: reachable_induct) (simp add: woken_inv_def init_sys_def, rule woken_inv_step)
  then show ?thesis by (auto simp: woken_inv_def)
qed

theorem dispatcher_finds_packet_witness: "dpc (init_sys demo_server) \<noteq> D_dead"
  using dispatcher_finds_packet [OF reachable_init [of demo_ws False demo_server]] by simp

section \<open>What the threads do not guarantee\<close>

lemma demo_accept:
  "accept_turn demo_ws sv = (Ret True, sv\<lparr>ClientSocket := 7, clients := clients sv @ [7]\<rparr>)"
  by (simp add: accept_turn_def on_net_def prog_simps bnd_def thn_def INVALID_SOCKET_def)

text \<open>A wait may end without a notification; the receiving thread then reads the first element
  of an empty vector, for every behaviour of the network.\<close>

theorem spurious_wake_kills_receiver:
  "\<exists>s. reachable W True (Server_ctor n garbage i) s \<and> rpc s = R_dead"
proof -
  let ?sv = "Server_ctor n garbage i" and ?R = "\<lambda>pc. init_sys (Server_ctor n garbage i)
    \<lparr>queueMutex := Some Receiver, rpc := pc\<rparr>"
  have sv: "clients ?sv = []" by (simp add: Server_ctor_def)
  have 3: "reachable W True ?sv (?R R_wait)"
    by (rule receiver_waits [OF reachable_init]) (simp_all add: init_sys_def sv)
  have "step W True Receiver (?R R_wait) (?R R_body)"
    using step.recv_wake [of "?R R_wait" True W] by (simp add: init_sys_def)
  from reachable_step [OF 3 this] have 4: "reachable W True ?sv (?R R_body)" .
  have "recv_body W 0 ?sv = (Undef, ?sv)"
    using sv by (simp add: recv_body_def client_at_def prog_simps)
  then have "step W True Receiver (?R R_body) (?R R_dead)"
    using step.recv_undef [of "?R R_body" W ?sv True] by (simp add: init_sys_def)
  from reachable_step [OF 4 this] show ?thesis by (intro exI [of _ "?R R_dead"]) simp
qed

text \<open>A client that connects between the test for clients and the wait is not noticed: the
  notification is lost, and the receiving thread waits with a client connected and, without a
  further connection, takes no step.\<close>

theorem wakeup_can_be_lost:
  "\<exists>s. reachable demo_ws False demo_server s \<and> clients (srv s) = [7] \<and> rpc s = R_wait \<and> apc s = A_accept \<and>
     (\<forall>s'. \<not> step demo_ws False Receiver s s')"
proof -
  let ?sv = "demo_server\<lparr>ClientSocket := 7, clients := [7]\<rparr>"
  let ?R = "\<lambda>pc. init_sys demo_server\<lparr>queueMutex := Some Receiver, rpc := pc\<rparr>"
  let ?A = "\<lambda>a pc. init_sys demo_server\<lparr>srv := ?sv, queueMutex := Some Receiver, rpc := pc, apc := a\<rparr>"
  have 2: "reachable demo_ws False demo_server (?R R_park)"
    by (rule receiver_parks [OF reachable_init]) (simp_all add: init_sys_def)
  have "step demo_ws False Acceptor (?R R_park) (?A A_notify R_park)"
    using step.accept_conn [of "?R R_park" demo_ws True ?sv False] by (simp add: init_sys_def demo_accept)
  from reachable_step [OF 2 this] have 3: "reachable demo_ws False demo_server (?A A_notify R_park)" .
  have "step demo_ws False Acceptor (?A A_notify R_park) (?A A_accept R_park)"
    using step.accept_notify [of "?A A_notify R_park" demo_ws False] by (simp add: init_sys_def)
  from reachable_step [OF 3 this] have 4: "reachable demo_ws False demo_server (?A A_accept R_park)" .
  have "step demo_ws False Receiver (?A A_accept R_park) (?A A_accept R_wait)"
    using step.recv_park [of "?A A_accept R_park" demo_ws False] by (simp add: init_sys_def)
  from reachable_step [OF 4 this] have "reachable demo_ws False demo_server (?A A_accept R_wait)" .
  moreover have "\<not> step demo_ws False Receiver (?A A_accept R_wait) s'" for s'
    by (rule notI, elim stepE) auto
  ultimately show ?thesis by (intro exI [of _ "?A A_accept R_wait"]) simp
qed

text \<open>C32: The receiving thread waits for a client with \<open>queueMutex\<close> locked, and that stops the
  dispatcher: while the receiving thread waits, without a spurious wakeup, and the dispatcher is about to lock the queue or
  waits for a packet, no thread but the one
  that accepts connections can take a step, and what is in the queue stays there.\<close>

theorem waiting_stops_dispatcher:
  assumes "reachable W False sv s" and "rpc s = R_wait" and "dpc s \<in> {D_lock, D_wait}"
  shows "\<forall>t s'. step W False t s s' \<longrightarrow> t = Acceptor \<and> messages (srv s') = messages (srv s)"
proof (intro allI impI)
  fix t s' assume st: "step W False t s s'"
  have "queueMutex s = Some Receiver"
    using lock_inv_reachable [OF assms(1)] assms(2) by (simp add: lock_inv_def)
  with st assms(2,3) show "t = Acceptor \<and> messages (srv s') = messages (srv s)"
    by (elim stepE) (auto dest: accept_queue)
qed

theorem waiting_stops_dispatcher_witness:
  "\<exists>s. messages (srv s) = [\<lparr>m_message = ''@12||'', m_socket = 7\<rparr>] \<and>
     (\<forall>t s'. step demo_ws False t s s' \<longrightarrow> t = Acceptor)"
proof -
  let ?sv = "demo_server\<lparr>messages := [\<lparr>m_message = ''@12||'', m_socket = 7\<rparr>]\<rparr>"
  let ?D = "init_sys ?sv\<lparr>dpc := D_lock\<rparr>"
  have "step demo_ws False Dispatcher (init_sys ?sv) ?D"
    using step.disp_check [of "init_sys ?sv" demo_ws False] by (simp add: init_sys_def)
  then have 1: "reachable demo_ws False ?sv ?D" by (rule reachable_step [OF reachable_init])
  have "reachable demo_ws False ?sv (?D\<lparr>queueMutex := Some Receiver, rpc := R_wait\<rparr>)"
    by (rule receiver_waits [OF 1]) (simp_all add: init_sys_def)
  from waiting_stops_dispatcher [OF this] show ?thesis
    by (intro exI [of _ "?D\<lparr>queueMutex := Some Receiver, rpc := R_wait\<rparr>"]) (simp add: init_sys_def)
qed

end
