(* ===== verification/ManagerOps.thy ===== *)
theory ManagerOps
  imports RestoreMsg Accounts Packets ServerIO PacketParser Replies
begin

text \<open>
  \<open>Manager.cpp\<close>: the object that owns every component and turns one received packet into calls
  of them.  All components refer to the same database; \<open>zoom\<close> runs an operation of a component
  on the part of the state it sees.  Console output is not modelled.
\<close>

section \<open>State\<close>

record ('db, 'n) manager =
  m_db :: 'db
  m_online :: "int \<Rightarrow> string option"
  m_online_opposite :: "string \<Rightarrow> int option"
  groups_mtx :: bool
  lists_mtx :: bool
  restore_vars :: "unit restore"
  m_server :: "'n server"
  threads :: "bool list"

definition THREADS_MAX :: nat where "THREADS_MAX = 10"

definition zoom :: "('s \<Rightarrow> 'c) \<Rightarrow> ('c \<Rightarrow> 's \<Rightarrow> 's) \<Rightarrow> ('e, 'c, 'a) prog \<Rightarrow> ('e, 's, 'a) prog" where
  "zoom get put m = (\<lambda>s. case m (get s) of (r, c) \<Rightarrow> (r, put c s))"

definition get_users :: "('db, 'n) manager \<Rightarrow> 'db users" where
  "get_users s = \<lparr>users_database = m_db s, online_users = m_online s, online_users_opposite = m_online_opposite s\<rparr>"
definition put_users :: "'db users \<Rightarrow> ('db, 'n) manager \<Rightarrow> ('db, 'n) manager" where
  "put_users c s = s\<lparr>m_db := users_database c, m_online := online_users c,
     m_online_opposite := online_users_opposite c\<rparr>"

definition get_groups :: "('db, 'n) manager \<Rightarrow> 'db guarded" where
  "get_groups s = \<lparr>database = m_db s, mtx = groups_mtx s\<rparr>"
definition put_groups :: "'db guarded \<Rightarrow> ('db, 'n) manager \<Rightarrow> ('db, 'n) manager" where
  "put_groups c s = s\<lparr>m_db := database c, groups_mtx := mtx c\<rparr>"

definition get_lists :: "('db, 'n) manager \<Rightarrow> 'db guarded" where
  "get_lists s = \<lparr>database = m_db s, mtx = lists_mtx s\<rparr>"
definition put_lists :: "'db guarded \<Rightarrow> ('db, 'n) manager \<Rightarrow> ('db, 'n) manager" where
  "put_lists c s = s\<lparr>m_db := database c, lists_mtx := mtx c\<rparr>"

definition get_restore :: "('db, 'n) manager \<Rightarrow> 'db restore" where
  "get_restore s = (let r = restore_vars s in
     \<lparr>r_database = m_db s, m_groups = m_groups r, m_users = m_users r, m_items = m_items r,
      m_index_g = m_index_g r, m_index_u = m_index_u r, m_index_i = m_index_i r\<rparr>)"
definition put_restore :: "'db restore \<Rightarrow> ('db, 'n) manager \<Rightarrow> ('db, 'n) manager" where
  "put_restore c s = s\<lparr>m_db := r_database c, restore_vars :=
     \<lparr>r_database = (), m_groups = m_groups c, m_users = m_users c, m_items = m_items c,
      m_index_g = m_index_g c, m_index_u = m_index_u c, m_index_i = m_index_i c\<rparr>\<rparr>"

definition put_server :: "'n server \<Rightarrow> ('db, 'n) manager \<Rightarrow> ('db, 'n) manager" where
  "put_server c s = s\<lparr>m_server := c\<rparr>"
definition put_db :: "'db \<Rightarrow> ('db, 'n) manager \<Rightarrow> ('db, 'n) manager" where
  "put_db c s = s\<lparr>m_db := c\<rparr>"

abbreviation "on_users \<equiv> zoom get_users put_users"
abbreviation "on_groups \<equiv> zoom get_groups put_groups"
abbreviation "on_lists \<equiv> zoom get_lists put_lists"
abbreviation "on_restore \<equiv> zoom get_restore put_restore"
abbreviation "on_server \<equiv> zoom m_server put_server"
abbreviation "on_db \<equiv> zoom m_db put_db"

section \<open>Sending\<close>

definition trySend ::
  "'db engine \<Rightarrow> 'n winsock \<Rightarrow> string \<Rightarrow> string \<Rightarrow> (cxx_exn, ('db, 'n) manager, unit) prog" where
  "trySend q W username message =
     bnd (on_users (isLogin_name username)) (\<lambda>login.
       if login then
         bnd (on_users (getSock username)) (\<lambda>sock. on_server (sendMessage W sock message))
       else thn (on_db (db_query q (sql_insert_packet username message))) (ret ()))"

definition cell_at :: "string list \<Rightarrow> nat \<Rightarrow> ('e, 's, string) prog" where
  "cell_at row j = (if j < length row then ret (row ! j) else undef)"

definition sendToAll ::
  "'db engine \<Rightarrow> 'n winsock \<Rightarrow> string list list \<Rightarrow> string \<Rightarrow> (cxx_exn, ('db, 'n) manager, unit) prog" where
  "sendToAll q W users message =
     for_each (\<lambda>row. bnd (cell_at row 1) (\<lambda>username. trySend q W username message)) users"

section \<open>One packet\<close>

definition of_outcome :: "('e, 'a) outcome \<Rightarrow> ('e, 's, 'a) prog" where
  "of_outcome r = (\<lambda>s. (r, s))"

definition of_option :: "'a option \<Rightarrow> ('e, 's, 'a) prog" where
  "of_option x = (case x of None \<Rightarrow> undef | Some a \<Rightarrow> ret a)"

definition need_args :: "nat \<Rightarrow> string list \<Rightarrow> (cxx_exn, 's, 'a) prog \<Rightarrow> (cxx_exn, 's, 'a) prog" where
  "need_args n args m = (if length args \<noteq> n then throw_own WrongArgumentsNumberException else m)"

text \<open>Each case of the \<open>switch\<close>.\<close>

definition do_register ::
  "'db engine \<Rightarrow> 'n winsock \<Rightarrow> int \<Rightarrow> string list \<Rightarrow> (cxx_exn, ('db, 'n) manager, unit) prog" where
  "do_register q W sock args = need_args 2 args
    (thn (on_users (Register q (args ! 0) (args ! 1)))
         (on_server (sendMessage W sock (makeReceive_str PGM_SCC_REGISTER ''''))))"

definition do_login ::
  "'db engine \<Rightarrow> 'n winsock \<Rightarrow> int \<Rightarrow> string list \<Rightarrow> (cxx_exn, ('db, 'n) manager, unit) prog" where
  "do_login q W sock args = need_args 2 args
    (thn (on_users (Login q sock (args ! 0) (args ! 1)))
         (trySend q W (args ! 0) (makeReceive_str PGM_SCC_LOGIN '''')))"

definition do_logout :: "int \<Rightarrow> string list \<Rightarrow> (cxx_exn, ('db, 'n) manager, unit) prog" where
  "do_logout sock args = need_args 0 args (on_users (Logout_sock sock))"

definition do_create_group ::
  "'db engine \<Rightarrow> 'n winsock \<Rightarrow> string \<Rightarrow> int \<Rightarrow> string \<Rightarrow> string list \<Rightarrow> (cxx_exn, ('db, 'n) manager, unit) prog" where
  "do_create_group q W time_now sock admin args = need_args 1 args
    (bnd (on_groups (createGroup q time_now (args ! 0) admin)) (\<lambda>res.
       on_server (sendMessage W sock (makeReceive_str PGM_SCC_ACTE_CREATED res))))"

definition do_group_list ::
  "'db engine \<Rightarrow> 'n winsock \<Rightarrow> int \<Rightarrow> string \<Rightarrow> string list \<Rightarrow> (cxx_exn, ('db, 'n) manager, unit) prog" where
  "do_group_list q W sock username args = need_args 0 args
    (bnd (on_groups (getAllGroupsOfUser q username)) (\<lambda>data.
     bnd (of_option (makeReceive_rows PGM_GET_GROUPS_LIST data)) (\<lambda>receive.
       on_server (sendMessage W sock receive))))"

definition do_invite_user ::
  "'db engine \<Rightarrow> 'n winsock \<Rightarrow> string \<Rightarrow> string list \<Rightarrow> (cxx_exn, ('db, 'n) manager, unit) prog" where
  "do_invite_user q W username args = need_args 3 args
    (bnd (on_users (isExist q (args ! 1))) (\<lambda>exists.
     if exists = False then throw_own WrongUsernameException
     else
       thn (on_groups (addUser q username (args ! 0) (args ! 1) (args ! 2)))
      (bnd (on_groups (getGroupName q (args ! 0))) (\<lambda>name.
       bnd (ret (take 1 args @ [name] @ drop 1 args)) (\<lambda>args.
       bnd (on_groups (getAllUsersInGroup q (args ! 0))) (\<lambda>data.
       thn (sendToAll q W data (makeReceive_args PGM_CTR_NEW_USER args))
      (thn (for_each (\<lambda>row. bnd (cell_at row 1) (\<lambda>member.
              if args ! 2 = member then ret ()
              else trySend q W (args ! 2) (makeReceive_args PGM_CTR_NEW_USER row))) data)
      (bnd (on_lists (getAllItemsInGroup q (args ! 0))) (\<lambda>data.
       for_each (\<lambda>row. trySend q W (args ! 2) (makeReceive_args LST_SCC_ADD_ITEM row)) data)))))))))"

definition do_remove_user ::
  "'db engine \<Rightarrow> 'n winsock \<Rightarrow> string \<Rightarrow> string list \<Rightarrow> (cxx_exn, ('db, 'n) manager, unit) prog" where
  "do_remove_user q W username args = need_args 2 args
    (bnd (on_users (isExist q (args ! 1))) (\<lambda>exists.
     if exists = False then throw_own WrongUsernameException
     else
       thn (on_groups (removeUser q username (args ! 0) (args ! 1)))
      (bnd (ret (makeReceive_args PGM_CTR_USER_LEAVE args)) (\<lambda>receive.
       bnd (on_groups (getAllUsersInGroup q (args ! 0))) (\<lambda>data.
       thn (sendToAll q W data receive)
           (trySend q W (args ! 0) receive))))))"

definition do_set_status ::
  "'db engine \<Rightarrow> 'n winsock \<Rightarrow> string \<Rightarrow> string list \<Rightarrow> (cxx_exn, ('db, 'n) manager, unit) prog" where
  "do_set_status q W username args = need_args 3 args
    (bnd (on_users (isExist q (args ! 1))) (\<lambda>exists.
     if exists = False then throw_own WrongUsernameException
     else
       thn (on_groups (setUserStatus q username (args ! 0) (args ! 1) (args ! 2)))
      (bnd (on_groups (getAllUsersInGroup q (args ! 0))) (\<lambda>data.
       sendToAll q W data (makeReceive_args PGM_CTR_STATUS_CHANGED args)))))"

definition do_close_group ::
  "'db engine \<Rightarrow> 'n winsock \<Rightarrow> string \<Rightarrow> string list \<Rightarrow> (cxx_exn, ('db, 'n) manager, unit) prog" where
  "do_close_group q W username args = need_args 1 args
    (bnd (on_groups (getAllUsersInGroup q (args ! 0))) (\<lambda>data.
     thn (on_groups (removeGroup q username (args ! 0)))
         (sendToAll q W data (makeReceive_args PGM_CTR_GROUP_CLOSED args))))"

definition do_add_item ::
  "'db engine \<Rightarrow> 'n winsock \<Rightarrow> string \<Rightarrow> string list \<Rightarrow> (cxx_exn, ('db, 'n) manager, unit) prog" where
  "do_add_item q W username args = need_args 4 args
    (thn (on_lists (addItem q username (args ! 0) (args ! 1) (args ! 2) (args ! 3)))
    (bnd (on_groups (getAllUsersInGroup q (args ! 0))) (\<lambda>data.
     sendToAll q W data (makeReceive_args LST_SCC_ADD_ITEM args))))"

definition do_remove_item ::
  "'db engine \<Rightarrow> 'n winsock \<Rightarrow> string \<Rightarrow> string list \<Rightarrow> (cxx_exn, ('db, 'n) manager, unit) prog" where
  "do_remove_item q W username args = need_args 2 args
    (thn (on_lists (removeItem q username (args ! 0) (args ! 1)))
    (bnd (on_groups (getAllUsersInGroup q (args ! 0))) (\<lambda>data.
     sendToAll q W data (makeReceive_args LST_SCC_REMOVE_ITEM args))))"

definition do_set_item ::
  "'db engine \<Rightarrow> 'n winsock \<Rightarrow> string \<Rightarrow> string list \<Rightarrow> (cxx_exn, ('db, 'n) manager, unit) prog" where
  "do_set_item q W username args = need_args 5 args
    (thn (on_lists (updateItem q username (args ! 0) (args ! 1) (args ! 2) (args ! 3) (args ! 4)))
    (bnd (on_groups (getAllUsersInGroup q (args ! 0))) (\<lambda>data.
     sendToAll q W data (makeReceive_args LST_SCC_SET_ITEM args))))"

definition do_restore ::
  "'db engine \<Rightarrow> 'n winsock \<Rightarrow> string \<Rightarrow> string list \<Rightarrow> (cxx_exn, ('db, 'n) manager, unit) prog" where
  "do_restore q W username args = need_args 0 args
    (bnd (on_restore (buildRestoreMessage q username)) (\<lambda>receive. trySend q W username receive))"

text \<open>Codes the table knows but the \<open>switch\<close> does not are ignored.\<close>

definition dispatch ::
  "'db engine \<Rightarrow> 'n winsock \<Rightarrow> string \<Rightarrow> int \<Rightarrow> int \<Rightarrow> string \<Rightarrow> string list \<Rightarrow> (cxx_exn, ('db, 'n) manager, unit) prog" where
  "dispatch q W time_now code sock username args =
    (if code = EN_REGISTER then do_register q W sock args
     else if code = EN_LOGIN then do_login q W sock args
     else if code = EN_LOGOUT then do_logout sock args
     else if code = GR_CREATE_GROUP then do_create_group q W time_now sock username args
     else if code = GR_GROUP_LIST then do_group_list q W sock username args
     else if code = GR_INVITE_USER then do_invite_user q W username args
     else if code = GR_REMOVE_USER then do_remove_user q W username args
     else if code = GR_SET_STATUS then do_set_status q W username args
     else if code = GR_CLOSE_GROUP then do_close_group q W username args
     else if code = LST_ADD_ITEM then do_add_item q W username args
     else if code = LST_REMOVE_ITEM then do_remove_item q W username args
     else if code = LST_SET_ITEM then do_set_item q W username args
     else if code = RE_RESTORE then do_restore q W username args
     else ret ())"

definition code_handler ::
  "'db engine \<Rightarrow> 'n winsock \<Rightarrow> string \<Rightarrow> message \<Rightarrow> (cxx_exn, ('db, 'n) manager, unit) prog" where
  "code_handler q W time_now msg =
     bnd (of_outcome (Parser_ctor (getMessage msg))) (\<lambda>p.
    (let sock = getSocket msg; code = getMsgCode p; args = getArguments p in
     bnd (on_users (isLogin_sock sock)) (\<lambda>login.
       if login = False \<and> code \<noteq> EN_REGISTER \<and> code \<noteq> EN_LOGIN then throw_own UserIsOfflineException
       else
         bnd (on_users (getUsername sock)) (\<lambda>username.
         dispatch q W time_now code sock username args))))"

section \<open>The handler of a packet\<close>

definition drop_turn :: "unit \<Rightarrow> (cxx_exn, ('db, 'n) manager, unit) prog" where
  "drop_turn = (\<lambda>_.
     bnd (gets (\<lambda>s. hd (disconnected_sockets (m_server s)))) (\<lambda>sock.
     thn (bnd (on_users (isLogin_sock sock)) (\<lambda>login.
            if login then on_users (Logout_sock sock) else ret ()))
         (modify (\<lambda>s. s\<lparr>m_server := (m_server s)
            \<lparr>disconnected_sockets := tl (disconnected_sockets (m_server s))\<rparr>\<rparr>))))"

definition catching ::
  "'n winsock \<Rightarrow> int \<Rightarrow> (cxx_exn, ('db, 'n) manager, unit) prog \<Rightarrow> (cxx_exn, ('db, 'n) manager, unit) prog" where
  "catching W sock m = (\<lambda>s.
     case m s of
       (Throw (Own ex), t) \<Rightarrow> on_server (sendMessage W sock (''@500|'' @ what_text ex @ ''||'')) t
     | (Throw (Std e), t) \<Rightarrow> on_server (sendMessage W sock (''@500|'' @ ''Unknown Error||'')) t
     | x \<Rightarrow> x)"

definition message_handler ::
  "'db engine \<Rightarrow> 'n winsock \<Rightarrow> string \<Rightarrow> message \<Rightarrow> nat \<Rightarrow> (cxx_exn, ('db, 'n) manager, unit) prog" where
  "message_handler q W time_now msg index =
     thn (while_do (\<lambda>s. disconnected_sockets (m_server s) \<noteq> []) drop_turn ())
    (thn (catching W (getSocket msg) (code_handler q W time_now msg))
         (modify (\<lambda>s. s\<lparr>threads := (threads s)[index := False]\<rparr>)))"

fun getFreeThreadIndex :: "bool list \<Rightarrow> nat" where
  "getFreeThreadIndex [] = 0"
| "getFreeThreadIndex (t # ts) = (if \<not> t then 0 else Suc (getFreeThreadIndex ts))"

definition runs_free :: "('db, 'n) manager \<Rightarrow> nat" where
  "runs_free s = getFreeThreadIndex (threads s)"

end
