(* ===== verification/Components.thy ===== *)
theory Components
  imports ManagerOps
begin

text \<open>
  How \<open>Manager\<close> and its components share the database: the locale \<open>component\<close> is the interface
  between the state of \<open>Manager\<close> and the part of it an operation sees.  It is interpreted for every
  component.  A \<open>quiet_component\<close> does not see who is online.
\<close>

section \<open>The interface\<close>

locale component =
  fixes get :: "('db, 'n) manager \<Rightarrow> 'c"
    and put :: "'c \<Rightarrow> ('db, 'n) manager \<Rightarrow> ('db, 'n) manager"
    and db :: "'c \<Rightarrow> 'db"
  assumes get_put: "get (put c s) = c"
    and put_get: "put (get s) s = s"
    and put_put: "put c (put c' s) = put c s"
    and db_get: "db (get s) = m_db s"
    and db_put: "m_db (put c s) = db c"
begin

lemma run_part: "fst (zoom get put m s) = fst (m (get s))" "snd (zoom get put m s) = put (snd (m (get s))) s"
  by (simp_all add: zoom_def split: prod.split)

text \<open>An operation sees what the one before it left, whatever the rest of the state.\<close>

lemma zoom_bnd: "zoom get put (bnd m f) = bnd (zoom get put m) (\<lambda>a. zoom get put (f a))"
proof
  fix s
  obtain r c where m: "m (get s) = (r, c)" by fastforce
  show "zoom get put (bnd m f) s = bnd (zoom get put m) (\<lambda>a. zoom get put (f a)) s"
    using m by (cases r) (simp_all add: zoom_def bnd_def get_put put_put split: prod.split)
qed

lemma zoom_thn: "zoom get put (thn m n) = thn (zoom get put m) (zoom get put n)"
  by (simp add: thn_def zoom_bnd)

lemma zoom_ret: "zoom get put (ret a) = ret a"
  by (simp add: fun_eq_iff zoom_def prog_simps put_get)

lemma zoom_db: "m_db (snd (zoom get put m s)) = db (snd (m (get s)))"
  by (simp add: run_part db_put)

lemma zoom_same: "snd (m (get s)) = get s \<Longrightarrow> snd (zoom get put m s) = s"
  by (simp add: run_part put_get)

end

locale quiet_component = component +
  assumes online_put: "m_online (put c s) = m_online s"
begin

lemma zoom_online: "m_online (snd (zoom get put m s)) = m_online s"
  by (simp add: run_part online_put)

end

section \<open>The components\<close>

interpretation users_part: component get_users put_users users_database
  by unfold_locales (simp_all add: get_users_def put_users_def)

interpretation groups_part: quiet_component get_groups put_groups database
  by unfold_locales (simp_all add: get_groups_def put_groups_def)

interpretation lists_part: quiet_component get_lists put_lists database
  by unfold_locales (simp_all add: get_lists_def put_lists_def)

interpretation restore_part: quiet_component get_restore put_restore r_database
  by unfold_locales (simp_all add: get_restore_def put_restore_def Let_def)

interpretation packets_part: quiet_component m_db put_db "\<lambda>d. d"
  by unfold_locales (simp_all add: put_db_def)

end
