(* ===== verification/SafeTexts.thy ===== *)
theory SafeTexts
  imports Invariants
begin

text \<open>
  The names and texts in the database come from arguments the parser has passed, so they can be
  spliced into SQL again when a handler reads them back (\<open>safe_view\<close>).  Every call of an
  operation keeps them so.
\<close>

section \<open>Texts in the database\<close>

definition safe_view :: "ilist \<Rightarrow> bool" where
  "safe_view v \<longleftrightarrow> (\<forall>k i. group_of v k = Some i \<longrightarrow> safe_text (g_name i)) \<and>
     (\<forall>k u st. status_of v k u = Some st \<longrightarrow> safe_text u \<and> safe_text st) \<and>
     (\<forall>k i n m. item_of v k i = Some (n, m) \<longrightarrow> safe_text i \<and> safe_text m)"

lemma safe_viewD:
  assumes "safe_view v"
  shows "group_of v k = Some i \<Longrightarrow> safe_text (g_name i)"
    and "status_of v k u = Some st \<Longrightarrow> safe_text u \<and> safe_text st"
    and "item_of v k x = Some (n, m) \<Longrightarrow> safe_text x \<and> safe_text m"
  using assms by (auto simp: safe_view_def)

named_theorems safe_intros "what keeps the texts of the database safe"

lemma safe_members [safe_intros]:
  "safe_view v \<Longrightarrow> safe_text u \<Longrightarrow> safe_text st \<Longrightarrow> safe_view (set_member k u st v)"
  "safe_view v \<Longrightarrow> safe_view (drop_member k u v)"
  by (auto simp: safe_view_def split: if_splits)

lemma safe_groups [safe_intros]:
  "safe_view v \<Longrightarrow> safe_view (set_count k n v)"
  "safe_view v \<Longrightarrow> safe_text (g_name i) \<Longrightarrow> safe_view (new_group k i v)"
  "safe_view v \<Longrightarrow> safe_view (erase_group k v)"
  by (auto simp: safe_view_def split: if_splits)

lemma safe_items [safe_intros]:
  "safe_view v \<Longrightarrow> safe_text i \<Longrightarrow> safe_text (snd x) \<Longrightarrow> safe_view (set_item k i x v)"
  "safe_view v \<Longrightarrow> safe_view (drop_item k i v)"
  by (auto simp: safe_view_def split: if_splits)

lemma safe_requantify [safe_intros]:
  "safe_view v \<Longrightarrow> item_of v k i = Some (n, m) \<Longrightarrow> safe_view (set_item k i (n', m) v)"
  by (rule safe_items(1)) (auto dest: safe_viewD)

lemma safe_change [safe_intros]:
  "safe_view v \<Longrightarrow> safe_text i' \<Longrightarrow> safe_text (snd x) \<Longrightarrow> safe_view (change_item k i i' x v)"
  by (simp add: change_item_def safe_intros)

lemma safe_others [safe_intros]:
  "safe_view v \<Longrightarrow> safe_view (v\<lparr>users_tab := f\<rparr>)"
  "safe_view v \<Longrightarrow> safe_view (save_packet u m v)" "safe_view v \<Longrightarrow> safe_view (clear_packets u v)"
  by (auto simp: safe_view_def save_packet_def clear_packets_def Let_def)

section \<open>Every call keeps them safe\<close>

lemma spec_groups_safe:
  "safe_view (database s) \<Longrightarrow> safe_text n \<Longrightarrow> safe_text a \<Longrightarrow> safe_view (database (snd (spec_createGroup now n a s)))"
  "safe_view (database s) \<Longrightarrow> safe_view (database (snd (spec_removeGroup e k s)))"
  "safe_view (database s) \<Longrightarrow> safe_text u \<Longrightarrow> safe_text st \<Longrightarrow> safe_view (database (snd (spec_addUser e k u st s)))"
  "safe_view (database s) \<Longrightarrow> safe_view (database (snd (spec_removeUser e k u s)))"
  "safe_view (database s) \<Longrightarrow> safe_text u \<Longrightarrow> safe_text st \<Longrightarrow> safe_view (database (snd (spec_setUserStatus e k u st s)))"
  by (auto simp: spec_createGroup_def spec_removeGroup_def spec_addUser_def spec_removeUser_def
      spec_setUserStatus_def locked_def Let_def safe_intros split: option.split sum.split)

lemma spec_items_safe:
  "safe_view (database s) \<Longrightarrow> safe_text i \<Longrightarrow> safe_text m \<Longrightarrow> safe_view (database (snd (spec_addItem e k i n m s)))"
  "safe_view (database s) \<Longrightarrow> safe_view (database (snd (spec_removeItem e k i s)))"
  "safe_view (database s) \<Longrightarrow> safe_text i \<Longrightarrow> safe_text m \<Longrightarrow>
     safe_view (database (snd (spec_updateItem e k key i n m s)))"
  by (auto simp: spec_addItem_def spec_removeItem_def spec_updateItem_def spec_writer_def
      locked_def Let_def safe_intros dest: safe_viewD split: option.split sum.split)

lemma spec_users_safe:
  "safe_view (users_database s) \<Longrightarrow> safe_view (users_database (snd (spec_Register u p s)))"
  "safe_view (users_database s) \<Longrightarrow> safe_view (users_database (snd (spec_Login sock u p s)))"
  by (auto simp: spec_Register_def spec_Login_def put_online_def Let_def safe_intros)

lemma spec_acts_safe: "spec_acts e v v' \<Longrightarrow> safe_view v \<Longrightarrow> safe_view v'"
  by (erule spec_acts.cases) (auto intro: spec_groups_safe spec_items_safe spec_users_safe safe_others)

end
