(* ===== verification/Triples.thy ===== *)
theory Triples
  imports ManagerOps
begin

text \<open>
  A small Hoare logic for the programs of the model: what holds after a program however it ends,
  and what holds of the value it returns.  The rules are collected in \<open>triple_intros\<close>.
\<close>

section \<open>Programs that keep an invariant\<close>

text \<open>
  \<open>triple P m I Q\<close>: from a state with \<open>P\<close>, the program leaves a state with \<open>I\<close> however it ends,
  and a value it returns has \<open>Q\<close>.
\<close>

definition triple ::
  "('s \<Rightarrow> bool) \<Rightarrow> ('e, 's, 'a) prog \<Rightarrow> ('s \<Rightarrow> bool) \<Rightarrow> ('a \<Rightarrow> bool) \<Rightarrow> bool" where
  "triple P m I Q \<longleftrightarrow> (\<forall>s. P s \<longrightarrow> I (snd (m s)) \<and> (\<forall>a. fst (m s) = Ret a \<longrightarrow> Q a))"

abbreviation keeps_inv :: "('s \<Rightarrow> bool) \<Rightarrow> ('e, 's, 'a) prog \<Rightarrow> bool" where
  "keeps_inv I m \<equiv> triple I m I (\<lambda>_. True)"

named_theorems triple_intros "rules for programs that keep an invariant"

lemma tripleI:
  "(\<And>s. P s \<Longrightarrow> I (snd (m s))) \<Longrightarrow> (\<And>s a. P s \<Longrightarrow> fst (m s) = Ret a \<Longrightarrow> Q a) \<Longrightarrow> triple P m I Q"
  by (simp add: triple_def)

lemma triple_mono:
  "triple P m I Q \<Longrightarrow> (\<And>s. P' s \<Longrightarrow> P s) \<Longrightarrow> (\<And>s. I s \<Longrightarrow> I' s) \<Longrightarrow> (\<And>a. Q a \<Longrightarrow> Q' a) \<Longrightarrow> triple P' m I' Q'"
  unfolding triple_def by blast

lemma triple_bnd_from:
  assumes "triple P m J Q" and "\<And>a. Q a \<Longrightarrow> triple J (f a) I R" and "\<And>s. J s \<Longrightarrow> I s"
  shows "triple P (bnd m f) I R"
  unfolding triple_def
proof (intro allI impI)
  fix s assume s: "P s"
  obtain r t where m: "m s = (r, t)" by (metis surj_pair)
  with s assms(1) have "J t" "\<And>a. r = Ret a \<Longrightarrow> Q a" by (auto simp: triple_def)
  with assms(2,3) m show "I (snd (bnd m f s)) \<and> (\<forall>a. fst (bnd m f s) = Ret a \<longrightarrow> R a)"
    by (cases r) (auto simp: bnd_def triple_def)
qed

lemma triple_bnd [triple_intros]:
  "triple I m I Q \<Longrightarrow> (\<And>a. Q a \<Longrightarrow> triple I (f a) I R) \<Longrightarrow> triple I (bnd m f) I R"
  by (rule triple_bnd_from)

lemma triple_thn [triple_intros]:
  "keeps_inv I m \<Longrightarrow> triple I n I R \<Longrightarrow> triple I (thn m n) I R"
  unfolding thn_def by (rule triple_bnd)

lemma triple_basic [triple_intros]:
  "Q a \<Longrightarrow> triple I (ret a) I Q" "triple I (throw e) I Q" "triple I undef I Q" "triple I hang I Q"
  "triple I (gets f) I (\<lambda>_. True)" "triple I (of_option opt) I (\<lambda>_. True)"
  by (auto simp: triple_def prog_simps of_option_def split: option.split)

lemma triple_values:
  "(\<And>a. r = Ret a \<Longrightarrow> Q a) \<Longrightarrow> triple I (of_outcome r) I Q"
  "(j < length row \<Longrightarrow> Q' (row ! j)) \<Longrightarrow> triple I (cell_at row j) I Q'"
  by (auto simp: triple_def prog_simps of_outcome_def cell_at_def)

lemma triple_if [triple_intros]:
  "(b \<Longrightarrow> triple P m I Q) \<Longrightarrow> (\<not> b \<Longrightarrow> triple P n I Q) \<Longrightarrow> triple P (if b then m else n) I Q"
  by simp

lemma triple_for_each [triple_intros]:
  "(\<And>x. x \<in> set xs \<Longrightarrow> keeps_inv I (f x)) \<Longrightarrow> keeps_inv I (for_each f xs)"
  by (induction xs) (auto intro: triple_intros)

lemma triple_need_args [triple_intros]:
  "(length args = n \<Longrightarrow> triple P m I Q) \<Longrightarrow> (\<And>s. P s \<Longrightarrow> I s) \<Longrightarrow> triple P (need_args n args m) I Q"
  by (auto simp: need_args_def triple_def prog_simps)

lemma thn_ret_state: "snd (thn m (ret a) s) = snd (m s)"
  by (simp add: thn_def bnd_def prog_simps split: prod.split outcome.split)

lemma bnd_ret [simp]: "bnd (ret a) f = f a"
  by (simp add: fun_eq_iff bnd_def prog_simps)

lemma triple_modify_thn:
  "triple P' n I R \<Longrightarrow> (\<And>s. P s \<Longrightarrow> P' (f s)) \<Longrightarrow> triple P (thn (modify f) n) I R"
  unfolding triple_def by (auto simp: prog_simps)

lemma triple_conj:
  "triple P m P' Q \<Longrightarrow> triple R m R' Q' \<Longrightarrow> triple (\<lambda>s. P s \<and> R s) m (\<lambda>s. P' s \<and> R' s) (\<lambda>a. Q a \<and> Q' a)"
  unfolding triple_def by blast

lemma triple_while:
  assumes "\<And>a. keeps_inv I (body a)"
  shows "keeps_inv I (while_do c body a)"
proof (rule tripleI, goal_cases)
  case I: (1 s)
  let ?b = "\<lambda>(r, t). case r of Ret _ \<Rightarrow> c t | _ \<Rightarrow> False"
  let ?f = "\<lambda>(r, t). case r of Ret b \<Rightarrow> body b t | _ \<Rightarrow> (r, t)"
  show ?case
  proof (cases "while_option ?b ?f (Ret a, s)")
    case None
    with I show ?thesis by (simp add: while_do_def)
  next
    case (Some x)
    have "I (snd (?f y))" if "I (snd y)" for y
      using assms that by (cases y) (auto simp: triple_def split: outcome.split)
    from while_option_rule [where P = "\<lambda>y. I (snd y)", OF this Some]
    show ?thesis using Some I by (simp add: while_do_def)
  qed
qed simp

lemma triple_cases: "(\<And>x. triple (\<lambda>s. P s \<and> f s = x) m I Q) \<Longrightarrow> triple P m I Q"
  by (simp add: triple_def)

end
