(* ===== verification/ServerInvariant.thy ===== *)
theory ServerInvariant
  imports Components SafeTexts Triples
begin

text \<open>
  The invariant of the whole server: the groups are consistent, the texts in the database can be
  spliced into SQL, every name online is that of an account or empty, and \<open>R\<close>, a property of the
  tables that the calls of the user who sends a packet spare.  With nothing for \<open>R\<close> this is the
  invariant of the server; \<open>Isolation\<close> takes the state of one group.  Here: every operation a
  handler calls keeps it.
\<close>

section \<open>The invariant of the server\<close>

abbreviation db_good :: "('db \<Rightarrow> bool) \<Rightarrow> ('db \<Rightarrow> store) \<Rightarrow> 'db \<Rightarrow> bool" where
  "db_good ok A d \<equiv> db_inv ok A d \<and> safe_view (view (A d))"

text \<open>A name somebody can be online with: that of an account, or the empty one.\<close>

definition known_name :: "ilist \<Rightarrow> string \<Rightarrow> bool" where
  "known_name v u \<longleftrightarrow> safe_text u \<and> (u = '''' \<or> users_tab v u \<noteq> None)"

lemma known_empty [simp]: "known_name v ''''"
  by (simp add: known_name_def safe_text_def)

lemma known_later: "known_name v u \<Longrightarrow> map_le (users_tab v) (users_tab v') \<Longrightarrow> known_name v' u"
  by (force simp: known_name_def map_le_def)

definition server_with ::
  "('db \<Rightarrow> bool) \<Rightarrow> ('db \<Rightarrow> store) \<Rightarrow> (ilist \<Rightarrow> bool) \<Rightarrow> ('db, 'n) manager \<Rightarrow> bool" where
  "server_with ok A R s \<longleftrightarrow> db_good ok A (m_db s) \<and> R (view (A (m_db s))) \<and>
     (\<forall>sock u. m_online s sock = Some u \<longrightarrow> known_name (view (A (m_db s))) u)"

abbreviation server_inv :: "('db \<Rightarrow> bool) \<Rightarrow> ('db \<Rightarrow> store) \<Rightarrow> ('db, 'n) manager \<Rightarrow> bool" where
  "server_inv ok A \<equiv> server_with ok A (\<lambda>_. True)"

text \<open>No call that the user \<open>u\<close> makes breaks \<open>R\<close>.\<close>

definition spares :: "(ilist \<Rightarrow> bool) \<Rightarrow> string \<Rightarrow> bool" where
  "spares R u \<longleftrightarrow> (\<forall>v v'. group_inv v \<longrightarrow> packet_codes_ok v \<longrightarrow> R v \<longrightarrow> spec_acts u v v' \<longrightarrow> R v')"

lemma spares_nothing [simp]: "spares (\<lambda>_. True) u"
  by (simp add: spares_def)

text \<open>A group more can be created: SQLite has not yet given the last code.\<close>

definition room :: "('db \<Rightarrow> store) \<Rightarrow> ('db, 'n) manager \<Rightarrow> bool" where
  "room A s \<longleftrightarrow> last_group (view (A (m_db s))) + 1 < 2 ^ 63"

definition safe_row :: "string list \<Rightarrow> bool" where
  "safe_row row \<longleftrightarrow> (\<forall>c \<in> set row. safe_text c)"

lemma safe_to_string [simp]: "safe_text (to_string n)"
  by (auto simp: safe_text_def dest: to_string_chars)

lemma safe_append [simp]: "safe_text (a @ b) \<longleftrightarrow> safe_text a \<and> safe_text b"
  by (auto simp: safe_text_def)

lemma safe_Cons [simp]: "safe_text (c # s) \<longleftrightarrow> c \<noteq> quote \<and> c \<noteq> CHR 0x00 \<and> safe_text s"
  by (auto simp: safe_text_def)

lemma safe_concat: "(\<And>x. x \<in> set xs \<Longrightarrow> safe_text x) \<Longrightarrow> safe_text (concat xs)"
  by (induction xs) auto

lemma safe_append_fields: "safe_row as \<Longrightarrow> safe_text r \<Longrightarrow> safe_text (append_fields r as)"
  by (induction r as rule: append_fields.induct) (auto simp: safe_row_def)

lemma safe_receive [simp]:
  "safe_row as \<Longrightarrow> safe_text (makeReceive_args code as)" "safe_text a \<Longrightarrow> safe_text (makeReceive_str code a)"
  by (simp_all add: makeReceive_args_def makeReceive_str_def safe_append_fields)

lemma safe_args: "safe_row args \<Longrightarrow> j < length args \<Longrightarrow> safe_text (args ! j)"
  by (simp add: safe_row_def)

text \<open>What does not touch the database or the users who are online.\<close>

lemma inv_frame:
  "server_with ok A R s \<Longrightarrow> m_db t = m_db s \<Longrightarrow> m_online t = m_online s \<Longrightarrow> server_with ok A R t"
  by (simp add: server_with_def)

lemma zoom_run: "snd (zoom get put m s) = put (snd (m (get s))) s" "fst (zoom get put m s) = fst (m (get s))"
  by (simp_all add: zoom_def split: prod.split)

lemma keep_server [triple_intros]: "triple (server_with ok A R) (on_server m) (server_with ok A R) (\<lambda>_. True)"
  by (rule tripleI) (auto intro: inv_frame simp: zoom_run put_server_def)

lemma keep_modify [triple_intros]:
  "(\<And>s. m_db (f s) = m_db s) \<Longrightarrow> (\<And>s. m_online (f s) = m_online s) \<Longrightarrow> keeps_inv (server_with ok A R) (modify f)"
  by (rule tripleI) (auto intro: inv_frame simp: prog_simps)

text \<open>The names online: every operation leaves names that were there, the argument, or the empty one.\<close>

lemma online_simps [simp]:
  "m_online (put_users c s) = online_users c" "m_db (put_users c s) = users_database c"
  "m_online (put_groups g s) = m_online s" "m_db (put_groups g s) = database g"
  "m_online (put_lists g s) = m_online s" "m_db (put_lists g s) = database g"
  "m_online (put_restore r s) = m_online s" "m_db (put_restore r s) = r_database r"
  "m_online (put_db d s) = m_online s" "m_db (put_db d s) = d"
  "users_database (get_users s) = m_db s" "online_users (get_users s) = m_online s"
  "database (get_groups s) = m_db s" "database (get_lists s) = m_db s" "r_database (get_restore s) = m_db s"
  by (simp_all add: put_users_def put_groups_def put_lists_def put_restore_def put_db_def get_users_def
      get_groups_def get_lists_def get_restore_def Let_def)

lemma keep_online:
  assumes "\<And>s. users_database (snd (m s)) = users_database s"
    and "\<And>s sock u. online_users (snd (m s)) sock = Some u \<Longrightarrow> online_users s sock = Some u \<or> u = ''''"
  shows "triple (server_with ok A R) (on_users m) (server_with ok A R) (\<lambda>_. True)"
proof (rule tripleI, goal_cases)
  case inv: (1 s)
  then show ?case
    using assms(1) by (auto simp: zoom_run server_with_def dest!: assms(2))
qed simp

lemma run_Logout:
  "Logout_sock sock s = (Ret (), put_offline sock (case online_users s sock of None \<Rightarrow> '''' | Some u \<Rightarrow> u) s)"
  by (cases "online_users s sock") (simp_all add: Logout_sock_def prog_simps put_offline_def)

lemma keep_logins [triple_intros]:
  "keeps_inv (server_with ok A R) (on_users (isLogin_sock sock))" "keeps_inv (server_with ok A R) (on_users (isLogin_name u))"
  "keeps_inv (server_with ok A R) (on_users (getSock u))" "keeps_inv (server_with ok A R) (on_users (Logout_sock sock))"
  by (rule keep_online; auto simp: prog_simps run_Logout put_offline_def split: option.splits if_splits)+

lemma keep_getUsername:
  "triple (server_with ok A R) (on_users (getUsername sock)) (server_with ok A R) safe_text"
  by (rule tripleI)
     (auto simp: zoom_run prog_simps server_with_def known_name_def safe_text_def split: option.splits if_splits)

text \<open>A call that only reads leaves the view as it was; \<open>Q\<close> is what its result satisfies.\<close>

definition reading :: "('db \<Rightarrow> bool) \<Rightarrow> ('db \<Rightarrow> store) \<Rightarrow> ('s \<Rightarrow> 'db) \<Rightarrow> ('e, 's, 'a) prog \<Rightarrow> ('a \<Rightarrow> bool) \<Rightarrow> bool" where
  "reading ok A db m Q \<longleftrightarrow> (\<forall>s. db_good ok A (db s) \<longrightarrow>
     db_ok ok A (db (snd (m s))) \<and> view (A (db (snd (m s)))) = view (A (db s)) \<and> (\<forall>a. fst (m s) = Ret a \<longrightarrow> Q a))"

lemma readingD:
  assumes "reading ok A db m Q" and "db_good ok A (db s)"
  shows "db_good ok A (db (snd (m s)))" and "fst (m s) = Ret a \<Longrightarrow> Q a"
    and "view (A (db (snd (m s)))) = view (A (db s))"
  using assms by (auto simp: reading_def db_inv_def)

text \<open>The database after a call that keeps what is to be kept.\<close>

definition grown :: "('db \<Rightarrow> bool) \<Rightarrow> ('db \<Rightarrow> store) \<Rightarrow> (ilist \<Rightarrow> bool) \<Rightarrow> 'db \<Rightarrow> 'db \<Rightarrow> bool" where
  "grown ok A R d d' \<longleftrightarrow> db_good ok A d' \<and> R (view (A d')) \<and> map_le (users_tab (view (A d))) (users_tab (view (A d')))"

context component
begin

lemma keep_reading_online:
  assumes "reading ok A db m Q" and "\<And>s. m_online (put (snd (m (get s))) s) = m_online s"
  shows "triple (server_with ok A R) (zoom get put m) (server_with ok A R) Q"
proof (rule tripleI, goal_cases)
  case (1 s)
  then have "db_good ok A (db (get s))" by (simp add: server_with_def db_get)
  from readingD(1,3) [OF assms(1) this] 1 show ?case
    by (simp add: server_with_def run_part db_put db_get assms(2))
next
  case (2 s a)
  then have "db_good ok A (db (get s))" by (simp add: server_with_def db_get)
  from readingD(2) [OF assms(1) this] 2(2) show ?case by (simp add: run_part)
qed

end

context quiet_component
begin

lemma keep_part:
  assumes "\<And>s. P s \<Longrightarrow> server_with ok A R s" and "\<And>s. P s \<Longrightarrow> grown ok A R (db (get s)) (db (snd (m (get s))))"
  shows "triple P (zoom get put m) (server_with ok A R) (\<lambda>_. True)"
proof (rule tripleI, goal_cases)
  case (1 s)
  then show ?case
    using assms(1) [of s] assms(2) [of s]
    by (auto simp: server_with_def grown_def zoom_db zoom_online db_get) (metis known_later)
qed simp

lemma keep_reading:
  "reading ok A db m Q \<Longrightarrow> triple (server_with ok A R) (zoom get put m) (server_with ok A R) Q"
  by (rule keep_reading_online) (assumption, rule online_put)

end

context sql_query
begin

lemma acts_keep:
  assumes "acts q A e (m_db s) d" and "server_with ok A R s" and "spares R e"
  shows "grown ok A R (m_db s) d"
proof -
  let ?v = "view (A (m_db s))"
  have dok: "db_ok ok A (m_db s)" and inv: "group_inv ?v" "safe_view ?v" "R ?v"
    using assms(2) by (auto simp: server_with_def db_inv_def)
  have "packet_codes_ok ?v" using dok by (simp add: db_ok_def tables_wf_q view_packet_codes)
  with acts_simulated [OF assms(1) dok] inv assms(3) show ?thesis
    by (auto simp: grown_def db_inv_def spares_def dest: spec_acts_inv spec_acts_safe spec_acts_accounts)
qed

lemma inv_acts:
  assumes "server_with ok A R s" and "spares R e" and "acts q A e (m_db s) (m_db t)"
    and "\<And>sock u. m_online t sock = Some u \<Longrightarrow> m_online s sock = Some u \<or> known_name (view (A (m_db s))) u"
  shows "server_with ok A R t"
  using acts_keep [OF assms(3,1,2)] assms(1,4)
  by (fastforce simp: server_with_def grown_def elim: known_later)

lemma keep_groups_call:
  assumes "\<And>s. P s \<Longrightarrow> server_with ok A R s" and "spares R e"
    and "\<And>s. P s \<Longrightarrow> acts q A e (m_db s) (database (snd (m \<lparr>database = m_db s, mtx = groups_mtx s\<rparr>)))"
  shows "triple P (on_groups m) (server_with ok A R) (\<lambda>_. True)"
proof (rule groups_part.keep_part [OF assms(1)])
  fix s assume "P s"
  from acts_keep [OF assms(3,1,2), OF this this]
  show "grown ok A R (database (get_groups s)) (database (snd (m (get_groups s))))" by (simp add: get_groups_def)
qed

lemma keep_lists_call:
  assumes "\<And>s. P s \<Longrightarrow> server_with ok A R s" and "spares R e"
    and "\<And>s. P s \<Longrightarrow> acts q A e (m_db s) (database (snd (m \<lparr>database = m_db s, mtx = lists_mtx s\<rparr>)))"
  shows "triple P (on_lists m) (server_with ok A R) (\<lambda>_. True)"
proof (rule lists_part.keep_part [OF assms(1)])
  fix s assume "P s"
  from acts_keep [OF assms(3,1,2), OF this this]
  show "grown ok A R (database (get_lists s)) (database (snd (m (get_lists s))))" by (simp add: get_lists_def)
qed

lemma keep_users_call:
  assumes "spares R e"
    and "\<And>s :: ('db, 'n) manager. server_with ok A R s \<Longrightarrow>
      acts q A e (m_db s) (users_database (snd (m \<lparr>users_database = m_db s, online_users = m_online s,
        online_users_opposite = m_online_opposite s\<rparr>)))"
    and "\<And>s sock u. db_ok ok A (users_database s) \<Longrightarrow> online_users (snd (m s)) sock = Some u \<Longrightarrow>
      online_users s sock = Some u \<or> known_name (view (A (users_database s))) u"
  shows "keeps_inv (server_with ok A R :: ('db, 'n) manager \<Rightarrow> bool) (on_users m)"
proof (rule tripleI, goal_cases)
  case inv: (1 s)
  then have dok: "db_ok ok A (m_db s)" by (simp add: server_with_def db_inv_def)
  have "acts q A e (m_db s) (m_db (snd (on_users m s)))"
    using assms(2) [OF inv] by (simp only: zoom_run online_simps get_users_def)
  from inv assms(1) this show ?case
  proof (rule inv_acts)
    fix sock u assume "m_online (snd (on_users m s)) sock = Some u"
    then show "m_online s sock = Some u \<or> known_name (view (A (m_db s))) u"
      using assms(3) [of "get_users s" sock u] dok by (simp add: zoom_run)
  qed
qed simp

lemma reading_members: "is_code g \<Longrightarrow> reading ok A database (getAllUsersInGroup q g) (\<lambda>rows. \<forall>row \<in> set rows. safe_row row)"
proof -
  assume g: "is_code g"
  have "db_ok ok A (database (snd (getAllUsersInGroup q g s))) \<and>
      view (A (database (snd (getAllUsersInGroup q g s)))) = view (A (database s)) \<and>
      (\<forall>a. fst (getAllUsersInGroup q g s) = Ret a \<longrightarrow> (\<forall>row \<in> set a. safe_row row))"
    if "db_inv ok A (database s)" "safe_view (view (A (database s)))" for s
  proof -
    have dok: "db_ok ok A (database s)" using that(1) by (simp add: db_inv_def)
    from getAllUsersInGroup_run [OF dok g] that(2) show ?thesis
      by (auto simp: safe_row_def dest!: safe_viewD(2) [OF that(2)])
  qed
  then show ?thesis unfolding reading_def by blast
qed

lemma reading_groups: "safe_text u \<Longrightarrow> reading ok A database (getAllGroupsOfUser q u) (\<lambda>_. True)"
  unfolding reading_def db_inv_def using getAllGroupsOfUser_run by fastforce

lemma reading_items: "is_code g \<Longrightarrow> reading ok A database (getAllItemsInGroup q g) (\<lambda>rows. \<forall>row \<in> set rows. safe_row row)"
proof -
  assume g: "is_code g"
  have "db_ok ok A (database (snd (getAllItemsInGroup q g s))) \<and>
      view (A (database (snd (getAllItemsInGroup q g s)))) = view (A (database s)) \<and>
      (\<forall>a. fst (getAllItemsInGroup q g s) = Ret a \<longrightarrow> (\<forall>row \<in> set a. safe_row row))"
    if "db_inv ok A (database s)" "safe_view (view (A (database s)))" for s
  proof -
    have dok: "db_ok ok A (database s)" using that(1) by (simp add: db_inv_def)
    from getAllItemsInGroup_run [OF dok g] that(2) show ?thesis
      by (auto simp: safe_row_def dest!: safe_viewD(3) [OF that(2)])
  qed
  then show ?thesis unfolding reading_def by blast
qed

lemma reading_name: "is_code g \<Longrightarrow> reading ok A database (getGroupName q g) safe_text"
  unfolding reading_def db_inv_def
  by (auto simp: run_getGroupName group_name_query dest: safe_viewD split: option.splits)

lemma reading_exist: "safe_text u \<Longrightarrow> reading ok A users_database (isExist q u) (\<lambda>_. True)"
  unfolding reading_def db_inv_def by (auto simp: run_isExist exists_query)

lemma safe_dash_join: "(\<And>x. x \<in> set xs \<Longrightarrow> safe_text x) \<Longrightarrow> safe_text (dash_join xs)"
  by (induction xs rule: dash_join.induct) auto

lemma safe_describes:
  assumes "safe_view v" and "describes v k piece"
  shows "safe_text piece"
proof -
  obtain i us its where p: "group_of v k = Some i" "piece = group_text k (g_name i) us its"
    "set us = {(u, s). status_of v k u = Some s}" "set its = {(x, n, m). items_tab v (k, x) = Some (n, m)}"
    using assms(2) by (auto simp: describes_def)
  note D = safe_viewD [OF assms(1)]
  have "safe_text (dash_join (map user_text us))"
    by (rule safe_dash_join) (use p(3) in \<open>auto simp: user_text_def dest!: D(2)\<close>)
  moreover have "safe_text (dash_join (map item_text its))"
    by (rule safe_dash_join) (use p(4) in \<open>auto simp: item_text_def dest!: D(3)\<close>)
  ultimately show ?thesis using p(2) D(1) [OF p(1)] by (simp add: group_text_def)
qed

lemma reading_restore: "safe_text u \<Longrightarrow> reading ok A r_database (buildRestoreMessage q u) safe_text"
proof -
  assume u: "safe_text u"
  have "db_ok ok A (r_database (snd (buildRestoreMessage q u s))) \<and>
      view (A (r_database (snd (buildRestoreMessage q u s)))) = view (A (r_database s)) \<and>
      (\<forall>a. fst (buildRestoreMessage q u s) = Ret a \<longrightarrow> safe_text a)"
    if "db_inv ok A (r_database s)" and safe: "safe_view (view (A (r_database s)))" for s
  proof -
    have "group_inv (view (A (r_database s)))" "keeps ok A (view (A (r_database s))) (r_database s)"
      using that(1) by (simp_all add: db_inv_def keeps_def)
    from buildRestoreMessage_run [OF this u] obtain gs pieces s' where
      run: "buildRestoreMessage q u s = (Ret (''@400|'' @ concat pieces @ ''|''), s')"
        "list_all2 (describes (view (A (r_database s)))) gs pieces"
        "keeps ok A (view (A (r_database s))) (r_database s')" by blast
    then have "safe_text (concat pieces)"
      by (intro safe_concat) (metis in_set_conv_nth list_all2_conv_all_nth safe_describes safe)
    with run show ?thesis by (simp add: keeps_def)
  qed
  then show ?thesis unfolding reading_def by blast
qed

section \<open>The operations a handler calls\<close>

abbreviation s_inv :: "(ilist \<Rightarrow> bool) \<Rightarrow> ('db, 'n) manager \<Rightarrow> bool" where
  "s_inv R \<equiv> server_with ok A R"

lemma keep_group_ops [triple_intros]:
  "is_code g \<Longrightarrow> safe_text e \<Longrightarrow> spares R e \<Longrightarrow> keeps_inv (s_inv R) (on_groups (removeGroup q e g))"
  "is_code g \<Longrightarrow> safe_text e \<Longrightarrow> spares R e \<Longrightarrow> safe_text u \<Longrightarrow> safe_text st \<Longrightarrow> keeps_inv (s_inv R) (on_groups (addUser q e g u st))"
  "is_code g \<Longrightarrow> safe_text e \<Longrightarrow> spares R e \<Longrightarrow> safe_text u \<Longrightarrow> keeps_inv (s_inv R) (on_groups (removeUser q e g u))"
  "is_code g \<Longrightarrow> safe_text e \<Longrightarrow> spares R e \<Longrightarrow> safe_text u \<Longrightarrow> safe_text st \<Longrightarrow> keeps_inv (s_inv R) (on_groups (setUserStatus q e g u st))"
  by (rule keep_groups_call [where e = e]; blast intro: acts.intros)+

lemma keep_createGroup:
  "safe_text now \<Longrightarrow> safe_text n \<Longrightarrow> safe_text a \<Longrightarrow> spares R a \<Longrightarrow>
   triple (\<lambda>s. s_inv R s \<and> room A s) (on_groups (createGroup q now n a)) (s_inv R) (\<lambda>_. True)"
  by (rule keep_groups_call [where e = a]) (auto simp: room_def intro: acts.intros)

lemma keep_list_ops [triple_intros]:
  "is_code g \<Longrightarrow> safe_text e \<Longrightarrow> spares R e \<Longrightarrow> safe_text i \<Longrightarrow> is_code n \<Longrightarrow> safe_text m \<Longrightarrow>
     keeps_inv (s_inv R) (on_lists (addItem q e g i n m))"
  "is_code g \<Longrightarrow> safe_text e \<Longrightarrow> spares R e \<Longrightarrow> safe_text i \<Longrightarrow> keeps_inv (s_inv R) (on_lists (removeItem q e g i))"
  "is_code g \<Longrightarrow> safe_text e \<Longrightarrow> spares R e \<Longrightarrow> safe_text k \<Longrightarrow> safe_text i \<Longrightarrow> safe_text m \<Longrightarrow>
     keeps_inv (s_inv R) (on_lists (updateItem q e g k i n m))"
  by (rule keep_lists_call [where e = e]; blast intro: acts.intros)+

lemma keep_account_ops [triple_intros]:
  assumes "safe_text u" and "safe_text p" and anyone: "\<exists>e. spares R e"
  shows "keeps_inv (s_inv R) (on_users (Register q u p))" and "keeps_inv (s_inv R) (on_users (Login q sock u p))"
proof -
  obtain e where e: "spares R e" using anyone by blast
  have online: "online_users (snd (m s)) = online_users (snd (M (u_abs A s)))"
    if "refines (u_ok ok A) (u_abs A) m M" "db_ok ok A (users_database s)" for m M and s :: "'db users"
    using refines_end(2) [OF that(1), of s] that(2) by (simp add: u_ok_def u_abs_def) (metis users.select_convs(2))
  show "keeps_inv (s_inv R) (on_users (Register q u p))"
  proof (rule keep_users_call [OF e])
    fix s :: "'db users" and sock x
    assume "db_ok ok A (users_database s)" "online_users (snd (Register q u p s)) sock = Some x"
    then show "online_users s sock = Some x \<or> known_name (view (A (users_database s))) x"
      using online [OF Register_refines, of u p s] assms(1,2)
      by (auto simp: spec_Register_def Let_def u_abs_def split: if_splits)
  qed (use assms in \<open>auto intro: acts.intros\<close>)
  show "keeps_inv (s_inv R) (on_users (Login q sock u p))"
  proof (rule keep_users_call [OF e])
    fix s :: "'db users" and sock' x
    assume "db_ok ok A (users_database s)" "online_users (snd (Login q sock u p s)) sock' = Some x"
    then show "online_users s sock' = Some x \<or> known_name (view (A (users_database s))) x"
      using online [OF Login_refines, of u p s sock] assms(1,2)
      by (auto simp: spec_Login_def put_online_def u_abs_def known_name_def split: if_splits)
  qed (use assms in \<open>auto intro: acts.intros\<close>)
qed

lemma keep_reads [triple_intros]:
  "is_code g \<Longrightarrow> triple (s_inv R) (on_groups (getAllUsersInGroup q g)) (s_inv R) (\<lambda>rows. \<forall>row \<in> set rows. safe_row row)"
  "is_code g \<Longrightarrow> triple (s_inv R) (on_lists (getAllItemsInGroup q g)) (s_inv R) (\<lambda>rows. \<forall>row \<in> set rows. safe_row row)"
  "is_code g \<Longrightarrow> triple (s_inv R) (on_groups (getGroupName q g)) (s_inv R) safe_text"
  "safe_text u \<Longrightarrow> keeps_inv (s_inv R) (on_groups (getAllGroupsOfUser q u))"
  "safe_text u \<Longrightarrow> triple (s_inv R) (on_restore (buildRestoreMessage q u)) (s_inv R) safe_text"
  by (rule groups_part.keep_reading lists_part.keep_reading restore_part.keep_reading;
      simp add: reading_members reading_items reading_name reading_groups reading_restore)+

lemma keep_isExist [triple_intros]: "safe_text u \<Longrightarrow> keeps_inv (s_inv R) (on_users (isExist q u))"
proof -
  assume "safe_text u"
  moreover have "m_online (put_users (snd (isExist q u (get_users s))) s) = m_online s" for s
    by (simp add: isExist_def u_query_def bnd_def prog_simps split: prod.split outcome.split)
  ultimately show ?thesis by (intro users_part.keep_reading_online [OF reading_exist]) simp_all
qed

end

end
