(* ===== verification/Dispatcher.thy ===== *)
theory Dispatcher
  imports ManagerOps Schema
begin

text \<open>
  The loop \<open>Manager::threads_handler\<close> and the life of a \<open>Manager\<close>.  The loop starts a thread for
  each packet and waits for it, so packets are handled one after the other; what is concurrent is
  the array of slots: the loop stores the new thread in its slot while the thread, at its end,
  stores a null pointer there.  A \<open>race\<close> says which of the two comes first.
\<close>

section \<open>One packet\<close>

datatype race =
  Joined \<comment> \<open>the thread clears the slot after \<open>join\<close> has read it\<close>
| Early_null \<comment> \<open>the thread clears the slot before \<open>join\<close> reads it\<close>
| Late_store \<comment> \<open>the thread clears the slot before the loop stores the pointer\<close>

definition store_slot :: "nat \<Rightarrow> (cxx_exn, ('db, 'n) manager, unit) prog" where
  "store_slot index = modify (\<lambda>s. s\<lparr>threads := (threads s)[index := True]\<rparr>)"

text \<open>
  \<open>arrived\<close> are the packets the receiving thread has queued since the last turn.  A loop that
  finds no free slot waits, and does not look at the slots again when it is woken.
\<close>

definition dispatch_turn ::
  "'db engine \<Rightarrow> 'n winsock \<Rightarrow> string \<times> race \<times> message list \<Rightarrow> (cxx_exn, ('db, 'n) manager, unit) prog" where
  "dispatch_turn q W turn = (case turn of (now, order, arrived) \<Rightarrow>
     thn (modify (\<lambda>s. s\<lparr>m_server := (m_server s)\<lparr>messages := messages (m_server s) @ arrived\<rparr>\<rparr>))
    (bnd (on_server take_packet) (\<lambda>msg.
     bnd (gets runs_free) (\<lambda>index.
       if index = THREADS_MAX then hang
       else
         (case order of
            Joined \<Rightarrow> thn (store_slot index) (message_handler q W now msg index)
          | Early_null \<Rightarrow> thn (store_slot index) (thn (message_handler q W now msg index) undef)
          | Late_store \<Rightarrow> thn (message_handler q W now msg index) (store_slot index))))))"

text \<open>
  The loop has no exit.  \<open>turns n\<close> is what its \<open>n\<close>-th turn finds; \<open>None\<close> is a turn whose call of
  \<open>getLastPacket\<close> is never woken, as no further packet comes.
\<close>

definition threads_handler ::
  "'db engine \<Rightarrow> 'n winsock \<Rightarrow> (nat \<Rightarrow> (string \<times> race \<times> message list) option) \<Rightarrow>
   (cxx_exn, ('db, 'n) manager, unit) prog" where
  "threads_handler q W turns = forever (\<lambda>n.
     thn (case turns n of None \<Rightarrow> hang | Some turn \<Rightarrow> dispatch_turn q W turn) (ret (Inl (Suc n)))) 0"

section \<open>Construction and destruction\<close>

definition runServer :: "'n winsock \<Rightarrow> (cxx_exn, ('db, 'n) manager, bool) prog" where
  "runServer W = on_server (server_run W)"

definition getServer :: "('db, 'n) manager \<Rightarrow> 'n server" where
  "getServer s = m_server s"

text \<open>\<open>index\<close> stands for the three counters of \<open>Restore\<close>, which are not initialised.\<close>

definition new_manager :: "int \<Rightarrow> 'db \<Rightarrow> 'n server \<Rightarrow> ('db, 'n) manager" where
  "new_manager index db srv =
     \<lparr>m_db = db, m_online = Map.empty, m_online_opposite = Map.empty, groups_mtx = False, lists_mtx = False,
      restore_vars = \<lparr>r_database = (), m_groups = [], m_users = [], m_items = [],
        m_index_g = index, m_index_u = index, m_index_i = index\<rparr>,
      m_server = srv, threads = replicate THREADS_MAX False\<rparr>"

lemma new_manager_parts:
  "get_users (new_manager index db srv) = Users_ctor db"
  "get_groups (new_manager index db srv) = PublicGroup_ctor db"
  "get_lists (new_manager index db srv) = PublicLists_ctor db"
  "get_restore (new_manager index db srv) = Restore_ctor index db"
  "m_db (new_manager index db srv) = UsersPackets_ctor db"
  by (simp_all add: new_manager_def get_users_def get_groups_def get_lists_def get_restore_def Users_ctor_def
      PublicGroup_ctor_def PublicLists_ctor_def Restore_ctor_def UsersPackets_ctor_def)

definition Manager_ctor ::
  "('db, 'st) sqlite \<Rightarrow> 'n winsock \<Rightarrow> int \<Rightarrow> 'n server \<Rightarrow> (nat \<Rightarrow> (string \<times> race \<times> message list) option) \<Rightarrow>
   (cxx_exn, unit) outcome \<times> ('db, 'n) manager" where
  "Manager_ctor S W index srv turns =
     (case DataBase_ctor S of
        (Ret _, db) \<Rightarrow> threads_handler (query S) W turns (new_manager index db srv)
      | (Throw e, db) \<Rightarrow> (Throw e, new_manager index db srv)
      | (Undef, db) \<Rightarrow> (Undef, new_manager index db srv)
      | (Hang, db) \<Rightarrow> (Hang, new_manager index db srv))"

text \<open>
  \<open>join\<close> waits for the thread that called \<open>Server::run\<close>.  When \<open>run\<close> got to its two threads
  (\<open>running\<close>), it is in its own first \<open>join\<close>, of the loop of \<open>acceptFunction\<close>; otherwise it has returned.
\<close>

definition acceptFunction :: "'n winsock \<Rightarrow> (cxx_exn, 'n server, unit) prog" where
  "acceptFunction W = forever (\<lambda>_. bnd (accept_turn W) (\<lambda>_. ret (Inl ()))) ()"

definition join_server :: "'n winsock \<Rightarrow> bool \<Rightarrow> (cxx_exn, ('db, 'n) manager, unit) prog" where
  "join_server W running = (if running then on_server (acceptFunction W) else ret ())"

text \<open>\<open>delete\<close> is for what \<open>new\<close> made; the array of slots is made with \<open>new[]\<close>.\<close>

datatype allocation = New_object | New_array

definition delete_object :: "allocation \<Rightarrow> ('e, 's, unit) prog" where
  "delete_object made = (if made = New_object then ret () else undef)"

definition Manager_dtor :: "'n winsock \<Rightarrow> bool \<Rightarrow> (cxx_exn, ('db, 'n) manager, unit) prog" where
  "Manager_dtor W running =
     thn (join_server W running) (thn (on_server (Server_dtor W)) (delete_object New_array))"

section \<open>Slots\<close>

lemma free_index_le: "getFreeThreadIndex ts \<le> length ts"
  by (induction ts) auto

lemma free_index_full: "getFreeThreadIndex ts = length ts \<longleftrightarrow> (\<forall>t \<in> set ts. t)"
  using free_index_le by (induction ts) (auto simp: le_Suc_eq)

lemma free_index_free: "getFreeThreadIndex ts < length ts \<Longrightarrow> \<not> ts ! getFreeThreadIndex ts"
  by (induction ts) auto

definition occupied :: "('db, 'n) manager \<Rightarrow> nat" where
  "occupied s = length (filter id (threads s))"

lemma occupied_update:
  "i < length ts \<Longrightarrow> \<not> ts ! i \<Longrightarrow> length (filter id (ts[i := True])) = Suc (length (filter id ts))"
  by (induction ts arbitrary: i) (auto split: nat.splits simp: nth_Cons)

text \<open>\<open>keeps_slots\<close>: the program does not touch the slots.\<close>

definition keeps_slots :: "(cxx_exn, ('db, 'n) manager, 'a) prog \<Rightarrow> bool" where
  "keeps_slots m \<longleftrightarrow> (\<forall>s. threads (snd (m s)) = threads s)"

named_theorems slot_intros "programs that do not touch the slots"

lemma keeps_basic [slot_intros]:
  "keeps_slots (ret a)" "keeps_slots (throw e)" "keeps_slots undef" "keeps_slots hang" "keeps_slots (gets f)"
  "keeps_slots (of_outcome r)" "keeps_slots (of_option x)" "keeps_slots (cell_at row j)"
  by (auto simp: keeps_slots_def prog_simps of_outcome_def of_option_def cell_at_def split: option.split)

lemma keeps_modify [slot_intros]: "(\<And>s. threads (f s) = threads s) \<Longrightarrow> keeps_slots (modify f)"
  by (simp add: keeps_slots_def prog_simps)

lemma keeps_bnd [slot_intros]:
  "keeps_slots m \<Longrightarrow> (\<And>a. keeps_slots (f a)) \<Longrightarrow> keeps_slots (bnd m f)"
  by (auto simp: keeps_slots_def bnd_def split: prod.split outcome.split) (metis snd_conv)+

lemma keeps_thn [slot_intros]: "keeps_slots m \<Longrightarrow> keeps_slots n \<Longrightarrow> keeps_slots (thn m n)"
  unfolding thn_def by (rule keeps_bnd)

lemma keeps_if [slot_intros]:
  "(b \<Longrightarrow> keeps_slots m) \<Longrightarrow> (\<not> b \<Longrightarrow> keeps_slots n) \<Longrightarrow> keeps_slots (if b then m else n)"
  by simp

lemma keeps_for_each [slot_intros]: "(\<And>x. keeps_slots (f x)) \<Longrightarrow> keeps_slots (for_each f xs)"
  by (induction xs) (auto intro: slot_intros)

lemma keeps_zoom [slot_intros]:
  "keeps_slots (on_users m1)" "keeps_slots (on_groups m2)" "keeps_slots (on_lists m3)"
  "keeps_slots (on_restore m4)" "keeps_slots (on_server m5)" "keeps_slots (on_db m6)"
  by (auto simp: keeps_slots_def zoom_def put_users_def put_groups_def put_lists_def put_restore_def
      put_server_def put_db_def split: prod.split)

lemma keeps_send [slot_intros]: "keeps_slots (trySend q W u m)" "keeps_slots (sendToAll q W us m)"
  unfolding trySend_def sendToAll_def by (intro slot_intros)+

lemma keeps_need_args [slot_intros]: "keeps_slots m \<Longrightarrow> keeps_slots (need_args n args m)"
  by (simp add: need_args_def slot_intros)

lemma keeps_dispatch [slot_intros]: "keeps_slots (dispatch q W now code sock u args)"
  unfolding dispatch_def do_register_def do_login_def do_logout_def do_create_group_def do_group_list_def
    do_invite_user_def do_remove_user_def do_set_status_def do_close_group_def do_add_item_def
    do_remove_item_def do_set_item_def do_restore_def
  by (intro slot_intros)

lemma keeps_code_handler [slot_intros]: "keeps_slots (code_handler q W now msg)"
  unfolding code_handler_def Let_def by (intro slot_intros)

lemma keeps_catching [slot_intros]:
  assumes "keeps_slots m"
  shows "keeps_slots (catching W sock m)"
  unfolding keeps_slots_def
proof
  fix s
  obtain r t where m: "m s = (r, t)" by (metis surj_pair)
  then have t: "threads t = threads s" using assms by (metis keeps_slots_def snd_conv)
  show "threads (snd (catching W sock m s)) = threads s"
    using t by (cases r) (simp_all add: catching_def m keeps_zoom(5) [unfolded keeps_slots_def, rule_format]
      split: cxx_exn.split)
qed

section \<open>The handler and its slot\<close>

lemma keeps_drop [slot_intros]: "keeps_slots (drop_turn u)"
  unfolding drop_turn_def by (intro slot_intros) simp

lemma keeps_while:
  assumes "\<And>a. keeps_slots (body a)"
  shows "keeps_slots (while_do c body a)"
  unfolding keeps_slots_def
proof
  fix s
  let ?b = "\<lambda>(r, t). case r of Ret _ \<Rightarrow> c t | _ \<Rightarrow> False"
  let ?f = "\<lambda>(r, t). case r of Ret b \<Rightarrow> body b t | _ \<Rightarrow> (r, t)"
  show "threads (snd (while_do c body a s)) = threads s"
  proof (cases "while_option ?b ?f (Ret a, s)")
    case None
    then show ?thesis by (simp add: while_do_def)
  next
    case (Some x)
    have "threads (snd (?f y)) = threads s" if "threads (snd y) = threads s" for y
      using assms that by (cases y) (auto simp: keeps_slots_def split: outcome.split)
    from while_option_rule [where P = "\<lambda>y. threads (snd y) = threads s", OF this Some]
    show ?thesis using Some by (simp add: while_do_def)
  qed
qed

text \<open>A handler that returns has cleared its slot and touched no other.\<close>

lemma message_handler_slots:
  assumes "message_handler q W now msg index s = (Ret (), t)"
  shows "threads t = (threads s)[index := False]"
proof -
  let ?drop = "while_do (\<lambda>s. disconnected_sockets (m_server s) \<noteq> []) drop_turn ()"
  let ?work = "catching W (getSocket msg) (code_handler q W now msg)"
  have "keeps_slots ?drop" by (rule keeps_while) (rule keeps_drop)
  moreover have "keeps_slots ?work" by (intro slot_intros)
  ultimately have k: "threads (snd (thn ?drop ?work s)) = threads s"
    using keeps_thn keeps_slots_def by blast
  have "message_handler q W now msg index s =
      thn (thn ?drop ?work) (modify (\<lambda>s. s\<lparr>threads := (threads s)[index := False]\<rparr>)) s"
    by (simp add: message_handler_def thn_def bnd_assoc)
  then show ?thesis
    using assms k by (auto simp: thn_def bnd_def prog_simps split: prod.splits outcome.splits)
qed

end
