(* ===== verification/PacketInvariant.thy ===== *)
theory PacketInvariant
  imports ServerInvariant Dispatcher
begin

text \<open>
  The invariant of the server under the packets it handles: every case of the switch, the handler
  of a packet and the turns of the dispatcher keep it, in every outcome, as long as the arguments
  in the place of a number are numbers.
\<close>

section \<open>One packet\<close>

context sql_query
begin

lemma keep_store [triple_intros]:
  assumes "safe_text u" and "safe_text m" and "\<exists>e. spares R e"
  shows "keeps_inv (s_inv R) (on_db (db_query q (sql_insert_packet u m)))"
proof (rule tripleI, goal_cases)
  case st: (1 s)
  obtain e where e: "spares R e" using assms(3) by blast
  have "acts q A e (m_db s) (snd (addUserPacket q u m (m_db s)))" by (rule acts.intros) fact+
  then have "acts q A e (m_db s) (m_db (snd (on_db (db_query q (sql_insert_packet u m)) s)))"
    by (simp add: addUserPacket_def thn_ret_state zoom_run)
  from st e this show ?case by (rule inv_acts) (simp add: zoom_run)
qed simp

lemma keep_trySend [triple_intros]: 
  "safe_text u \<Longrightarrow> safe_text m \<Longrightarrow> \<exists>e. spares R e \<Longrightarrow> keeps_inv (s_inv R) (trySend q W u m)"
  unfolding trySend_def by (rule triple_intros | simp)+

lemma keep_sendToAll [triple_intros]:
  assumes "\<forall>row \<in> set rs. safe_row row" and "safe_text m" and "\<exists>e. spares R e"
  shows "keeps_inv (s_inv R) (sendToAll q W rs m)"
  unfolding sendToAll_def
proof (rule triple_for_each)
  fix row assume "row \<in> set rs"
  then have row: "safe_row row" using assms(1) by simp
  show "keeps_inv (s_inv R) (bnd (cell_at row 1) (\<lambda>u. trySend q W u m))"
    by (rule triple_bnd [where Q = safe_text])
       (use row assms(2,3) in \<open>auto intro!: triple_intros triple_values simp: safe_args\<close>)
qed

lemma keep_do:
  assumes "safe_row args" and u: "safe_text u" and m: "\<exists>e. spares R e"
  shows "keeps_inv (s_inv R) (do_register q W sock args)" "keeps_inv (s_inv R) (do_login q W sock args)"
    "keeps_inv (s_inv R) (do_logout sock args)" "keeps_inv (s_inv R) (do_group_list q W sock u args)"
    "keeps_inv (s_inv R) (do_restore q W u args)"
proof -
  note a = safe_args [OF assms(1)]
  show "keeps_inv (s_inv R) (do_register q W sock args)" "keeps_inv (s_inv R) (do_login q W sock args)"
    "keeps_inv (s_inv R) (do_logout sock args)" "keeps_inv (s_inv R) (do_group_list q W sock u args)"
    "keeps_inv (s_inv R) (do_restore q W u args)"
    unfolding do_register_def do_login_def do_logout_def do_group_list_def do_restore_def
    by (rule triple_intros | simp add: a u m)+
qed

lemma keep_do_group:
  assumes "safe_row args" and u: "safe_text u" and m: "spares R u"
    and g: "args \<noteq> [] \<Longrightarrow> is_code (args ! 0)"
  shows "keeps_inv (s_inv R) (do_remove_user q W u args)" "keeps_inv (s_inv R) (do_set_status q W u args)"
    "keeps_inv (s_inv R) (do_close_group q W u args)" "keeps_inv (s_inv R) (do_remove_item q W u args)"
    "keeps_inv (s_inv R) (do_set_item q W u args)"
    "(2 < length args \<Longrightarrow> is_code (args ! 2)) \<Longrightarrow> keeps_inv (s_inv R) (do_add_item q W u args)"
proof -
  note a = safe_args [OF assms(1)]
  have m': "\<exists>e. spares R e" using m by blast
  have g': "n = length args \<Longrightarrow> 0 < n \<Longrightarrow> is_code (args ! 0)" for n using g by auto
  show "keeps_inv (s_inv R) (do_remove_user q W u args)" "keeps_inv (s_inv R) (do_set_status q W u args)"
    "keeps_inv (s_inv R) (do_close_group q W u args)" "keeps_inv (s_inv R) (do_remove_item q W u args)"
    "keeps_inv (s_inv R) (do_set_item q W u args)"
    unfolding do_remove_user_def do_set_status_def do_close_group_def do_remove_item_def do_set_item_def bnd_ret
    by (rule triple_intros | simp add: a u m m' assms(1) g')+
  show "keeps_inv (s_inv R) (do_add_item q W u args)" if "2 < length args \<Longrightarrow> is_code (args ! 2)"
    unfolding do_add_item_def
    by (rule triple_intros | simp add: a u m m' assms(1) g' that)+
qed

lemma keep_do_invite:
  assumes args: "safe_row args" and u: "safe_text u" and m: "spares R u"
    and g: "args \<noteq> [] \<Longrightarrow> is_code (args ! 0)"
  shows "keeps_inv (s_inv R) (do_invite_user q W u args)"
proof -
  note a = safe_args [OF args]
  have m': "\<exists>e. spares R e" using m by blast
  have g': "length args = 3 \<Longrightarrow> is_code (args ! 0)" by (rule g) auto
  have row: "safe_row (take (Suc 0) args @ name # drop (Suc 0) args)" if "safe_text name" for name
    using args that by (auto simp: safe_row_def dest: in_set_takeD in_set_dropD)
  have new: "length args = 3 \<Longrightarrow> (take (Suc 0) args @ name # drop (Suc 0) args) ! 0 = args ! 0"
    "length args = 3 \<Longrightarrow> (take (Suc 0) args @ name # drop (Suc 0) args) ! 2 = args ! 1" for name
    by (auto simp: nth_append)
  have notify: "keeps_inv (s_inv R) (for_each (\<lambda>row. bnd (cell_at row 1) (\<lambda>member.
      if x = member then ret () else trySend q W x (makeReceive_args c row))) rs)"
    if "\<forall>row \<in> set rs. safe_row row" "safe_text x" for rs x c
  proof (rule triple_for_each)
    fix row assume "row \<in> set rs"
    with that(1) have "safe_row row" by simp
    with that(2) show "keeps_inv (s_inv R) (bnd (cell_at row 1) (\<lambda>member.
        if x = member then ret () else trySend q W x (makeReceive_args c row)))"
      by (intro triple_bnd [where Q = "\<lambda>_. True"] triple_values triple_intros) (simp_all add: m')
  qed
  have items: "keeps_inv (s_inv R) (for_each (\<lambda>row. trySend q W x (makeReceive_args c row)) rs)"
    if "\<forall>row \<in> set rs. safe_row row" "safe_text x" for rs x c
    by (rule triple_for_each, rule keep_trySend) (use that m' in auto)
  show ?thesis
    unfolding do_invite_user_def bnd_ret
    by (rule triple_need_args; (rule triple_intros notify items | simp add: a u m m' g' row new)+)
qed

lemma keep_do_create:
  assumes "safe_row args" and "safe_text u" and "safe_text now" and "spares R u"
  shows "triple (\<lambda>s. s_inv R s \<and> room A s) (do_create_group q W now sock u args) (s_inv R) (\<lambda>_. True)"
  unfolding do_create_group_def
proof (rule triple_need_args)
  assume "length args = 1"
  then have "safe_text (args ! 0)" using assms(1) by (simp add: safe_args)
  from keep_createGroup [OF assms(3) this assms(2,4)]
  show "triple (\<lambda>s. s_inv R s \<and> room A s) (bnd (on_groups (createGroup q now (args ! 0) u)) (\<lambda>res.
      on_server (sendMessage W sock (makeReceive_str PGM_SCC_ACTE_CREATED res)))) (s_inv R) (\<lambda>_. True)"
    by (rule triple_bnd_from) (simp_all add: keep_server)
qed simp

end

text \<open>The arguments in the place of a number are numbers: the code of a group, and a quantity.\<close>

definition numeric_args :: "int \<Rightarrow> string list \<Rightarrow> bool" where
  "numeric_args code args \<longleftrightarrow>
     (code \<in> {GR_INVITE_USER, GR_REMOVE_USER, GR_SET_STATUS, GR_CLOSE_GROUP, LST_ADD_ITEM, LST_REMOVE_ITEM,
        LST_SET_ITEM} \<longrightarrow> args \<noteq> [] \<longrightarrow> is_code (args ! 0)) \<and>
     (code = LST_ADD_ITEM \<longrightarrow> 2 < length args \<longrightarrow> is_code (args ! 2))"

context sql_query
begin

lemma keep_dispatch:
  assumes "safe_row args" and "safe_text u" and "safe_text now" and "numeric_args code args"
    and anyone: "\<exists>e. spares R e" and m: "code \<noteq> EN_REGISTER \<Longrightarrow> code \<noteq> EN_LOGIN \<Longrightarrow> spares R u"
  shows "triple (\<lambda>s. s_inv R s \<and> room A s) (dispatch q W now code sock u args) (s_inv R) (\<lambda>_. True)"
proof -
  have weak: "keeps_inv (s_inv R) m \<Longrightarrow> triple (\<lambda>s. s_inv R s \<and> room A s) m (s_inv R) (\<lambda>_. True)" for m
    by (erule triple_mono) simp_all
  note g = assms(4) [unfolded numeric_args_def]
  show ?thesis
    unfolding dispatch_def
    by (rule triple_if | rule keep_do_create weak | rule keep_do keep_do_group keep_do_invite triple_basic |
        (use assms g in simp))+
qed

end

section \<open>The handler\<close>

text \<open>What leaves the database alone leaves room for a group.\<close>

lemma keep_room_users:
  "(\<And>s. users_database (snd (m s)) = users_database s) \<Longrightarrow> keeps_inv (room A) (on_users m)"
  by (rule tripleI) (simp_all add: room_def zoom_run)

lemma keep_room [triple_intros]:
  "keeps_inv (room A) (on_users (isLogin_sock sock))" "keeps_inv (room A) (on_users (Logout_sock sock))"
  "keeps_inv (room A) (on_users (getUsername sock))"
  by (rule keep_room_users; simp add: prog_simps run_Logout put_offline_def split: option.split)+

lemma keep_room_modify [triple_intros]: "(\<And>s. m_db (f s) = m_db s) \<Longrightarrow> keeps_inv (room A) (modify f)"
  by (rule tripleI) (simp_all add: room_def prog_simps)

text \<open>The two questions the handler asks first: \<open>x\<close> is who is online on the socket.\<close>

lemma keep_who:
  shows "triple (\<lambda>s. (server_with ok A R s \<and> room A s) \<and> m_online s sock = x) (on_users (isLogin_sock sock))
      (\<lambda>s. (server_with ok A R s \<and> room A s) \<and> m_online s sock = x) (\<lambda>login. login = (x \<noteq> None))"
    and "triple (\<lambda>s. (server_with ok A R s \<and> room A s) \<and> m_online s sock = x) (on_users (getUsername sock))
      (\<lambda>s. server_with ok A R s \<and> room A s) (\<lambda>u. safe_text u \<and> (x = None \<or> x = Some u))"
proof -
  have [simp]: "put_users (get_users s) s = s" for s :: "('db, 'n) manager"
    by (simp add: put_users_def get_users_def)
  show "triple (\<lambda>s. (server_with ok A R s \<and> room A s) \<and> m_online s sock = x) (on_users (isLogin_sock sock))
      (\<lambda>s. (server_with ok A R s \<and> room A s) \<and> m_online s sock = x) (\<lambda>login. login = (x \<noteq> None))"
    by (rule tripleI) (auto simp: zoom_run prog_simps split: option.splits)
  have "triple (\<lambda>s. server_with ok A R s \<and> room A s) (on_users (getUsername sock))
      (\<lambda>s. server_with ok A R s \<and> room A s) safe_text"
    using triple_conj [OF keep_getUsername keep_room(3)] by simp
  then show "triple (\<lambda>s. (server_with ok A R s \<and> room A s) \<and> m_online s sock = x) (on_users (getUsername sock))
      (\<lambda>s. server_with ok A R s \<and> room A s) (\<lambda>u. safe_text u \<and> (x = None \<or> x = Some u))"
    by (auto simp: triple_def zoom_run prog_simps split: option.splits)
qed

lemma triple_catching:
  assumes "triple P m I Q" and "\<And>x. keeps_inv I (on_server (sendMessage W sock x))"
  shows "triple P (catching W sock m) I (\<lambda>_. True)"
proof (rule tripleI, goal_cases)
  case P: (1 s)
  obtain r t where m: "m s = (r, t)" by fastforce
  with P assms(1) have "I t" by (auto simp: triple_def)
  then have "I (snd (on_server (sendMessage W sock x) t))" for x
    using assms(2) by (simp add: triple_def)
  with \<open>I t\<close> show ?case
    by (simp add: catching_def m split: outcome.split cxx_exn.split)
qed simp

text \<open>The text of a packet without zero bytes, with numbers where they belong.\<close>

definition spliceable :: "string \<Rightarrow> bool" where
  "spliceable msg \<longleftrightarrow> CHR 0x00 \<notin> set msg \<and>
     (case Parser_ctor msg of Ret p \<Rightarrow> numeric_args (getMsgCode p) (getArguments p) | _ \<Rightarrow> True)"

lemma spliceable_args:
  assumes "spliceable msg" and p: "Parser_ctor msg = Ret p"
  shows "safe_row (getArguments p)" and "numeric_args (getMsgCode p) (getArguments p)"
proof -
  obtain cs where cs: "msg = packet cs (p_args p)" "legal_packet cs (p_args p)"
    using p by (rule Parser_ctor_Ret)
  show "numeric_args (getMsgCode p) (getArguments p)" using assms by (simp add: spliceable_def)
  have "CHR 0x00 \<notin> set a" if "a \<in> set (p_args p)" for a
    using assms(1) that unfolding spliceable_def cs(1) set_packet by blast
  then show "safe_row (getArguments p)"
    using legal_packet_clean [OF cs(2)] by (auto simp: safe_row_def getArguments_def clean_arg_def safe_text_def)
qed

text \<open>The packet is next: whoever is online on its socket can do \<open>R\<close> no harm.\<close>

definition ready_for ::
  "('db \<Rightarrow> bool) \<Rightarrow> ('db \<Rightarrow> store) \<Rightarrow> (ilist \<Rightarrow> bool) \<Rightarrow> int \<Rightarrow> ('db, 'n) manager \<Rightarrow> bool" where
  "ready_for ok A R sock s \<longleftrightarrow> server_with ok A R s \<and> room A s \<and>
     (\<forall>u. m_online s sock = Some u \<longrightarrow> spares R u)"

text \<open>Who is online on a socket: dropping the sockets that are gone brings nobody new.\<close>

definition online_has :: "int \<Rightarrow> (string \<Rightarrow> bool) \<Rightarrow> ('db, 'n) manager \<Rightarrow> bool" where
  "online_has sock P s \<longleftrightarrow> (\<forall>u. m_online s sock = Some u \<longrightarrow> P u)"

lemma keep_online_has [triple_intros]:
  "keeps_inv (online_has sock P) (on_users (isLogin_sock x))"
  "keeps_inv (online_has sock P) (on_users (Logout_sock x))"
  "(\<And>s. m_online (f s) = m_online s) \<Longrightarrow> keeps_inv (online_has sock P) (modify f)"
  by (rule tripleI; auto simp: online_has_def zoom_run prog_simps run_Logout put_offline_def
      split: option.splits if_splits)+

context sql_query
begin

abbreviation ready_inv :: "(ilist \<Rightarrow> bool) \<Rightarrow> int \<Rightarrow> ('db, 'n) manager \<Rightarrow> bool" where
  "ready_inv R \<equiv> ready_for ok A R"

lemma keep_code_handler:
  assumes "spliceable (getMessage msg)" and now: "safe_text now" and anyone: "\<exists>e. spares R e"
  shows "triple (ready_inv R (getSocket msg)) (code_handler q W now msg) (s_inv R) (\<lambda>_. True)"
  unfolding code_handler_def Let_def
proof (rule triple_bnd_from [where J = "ready_inv R (getSocket msg)" and
      Q = "\<lambda>p. Parser_ctor (getMessage msg) = Ret p"])
  fix p assume p: "Parser_ctor (getMessage msg) = Ret p"
  note args = spliceable_args [OF assms(1) p]
  let ?sock = "getSocket msg" and ?code = "getMsgCode p" and ?args = "getArguments p"
  let ?I = "\<lambda>s. s_inv R s \<and> room A s"
  have act: "triple (\<lambda>s. ?I s \<and> m_online s ?sock = x)
      (bnd (on_users (getUsername ?sock)) (\<lambda>u. dispatch q W now ?code ?sock u ?args)) (s_inv R) (\<lambda>_. True)"
    if "x = None \<Longrightarrow> ?code = EN_REGISTER \<or> ?code = EN_LOGIN" "\<And>u. x = Some u \<Longrightarrow> spares R u" for x
    by (rule triple_bnd_from [OF keep_who(2)]) (use that in \<open>auto intro!: keep_dispatch args now anyone\<close>)
  have stop: "triple (\<lambda>s. ?I s \<and> b s) (throw e) (s_inv R) (\<lambda>_. True)" for e b
    by (simp add: triple_def prog_simps)
  show "triple (ready_inv R ?sock) (bnd (on_users (isLogin_sock ?sock)) (\<lambda>login.
      if login = False \<and> ?code \<noteq> EN_REGISTER \<and> ?code \<noteq> EN_LOGIN then throw_own UserIsOfflineException
      else bnd (on_users (getUsername ?sock)) (\<lambda>u. dispatch q W now ?code ?sock u ?args))) (s_inv R) (\<lambda>_. True)"
  proof (rule triple_cases [where f = "\<lambda>s. m_online s ?sock"])
    fix x
    show "triple (\<lambda>s. ready_inv R ?sock s \<and> m_online s ?sock = x) (bnd (on_users (isLogin_sock ?sock)) (\<lambda>login.
      if login = False \<and> ?code \<noteq> EN_REGISTER \<and> ?code \<noteq> EN_LOGIN then throw_own UserIsOfflineException
      else bnd (on_users (getUsername ?sock)) (\<lambda>u. dispatch q W now ?code ?sock u ?args))) (s_inv R) (\<lambda>_. True)"
    proof (cases "\<exists>u. x = Some u \<and> \<not> spares R u")
      case True
      then show ?thesis by (auto simp: triple_def ready_for_def)
    next
      case False
      show ?thesis
      proof (rule triple_bnd_from [where J = "\<lambda>s. ?I s \<and> m_online s ?sock = x" and Q = "\<lambda>login. login = (x \<noteq> None)"])
        show "triple (\<lambda>s. ready_inv R ?sock s \<and> m_online s ?sock = x) (on_users (isLogin_sock ?sock))
          (\<lambda>s. ?I s \<and> m_online s ?sock = x) (\<lambda>login. login = (x \<noteq> None))"
          by (rule triple_mono [OF keep_who(1) [where R = R]]) (simp_all add: ready_for_def)
      qed (rule triple_if, rule stop, rule act, (use False in auto)+)
    qed
  qed
qed (simp_all add: triple_values ready_for_def)

lemma keep_drop_turn: "keeps_inv (ready_inv R sock) (drop_turn u)"
proof -
  have "keeps_inv (s_inv R) (drop_turn u)" "keeps_inv (room A) (drop_turn u)"
    "keeps_inv (online_has sock (spares R)) (drop_turn u)"
    unfolding drop_turn_def by (rule triple_intros | simp)+
  then show ?thesis by (auto simp: triple_def ready_for_def online_has_def)
qed

lemma keep_message_handler:
  assumes "spliceable (getMessage msg)" and "safe_text now" and "\<exists>e. spares R e"
  shows "triple (ready_inv R (getSocket msg)) (message_handler q W now msg index) (s_inv R) (\<lambda>_. True)"
proof -
  have 1: "keeps_inv (ready_inv R (getSocket msg)) (while_do c drop_turn ())" for c
    by (rule triple_while) (rule keep_drop_turn)
  have 2: "triple (ready_inv R (getSocket msg)) (catching W (getSocket msg) (code_handler q W now msg)) (s_inv R) (\<lambda>_. True)"
    by (rule triple_catching) (rule keep_code_handler [OF assms], rule keep_server)
  have 3: "keeps_inv (s_inv R) (modify (\<lambda>s. s\<lparr>threads := (threads s)[index := False]\<rparr>))"
    by (rule keep_modify) simp_all
  show ?thesis
    unfolding message_handler_def thn_def
    by (rule triple_bnd_from [OF 1], rule triple_bnd_from [OF 2], rule 3) (simp_all add: ready_for_def)
qed

end

section \<open>Turns of the dispatcher\<close>

definition queue_ok :: "('db, 'n) manager \<Rightarrow> bool" where
  "queue_ok s \<longleftrightarrow> (\<forall>m \<in> set (messages (m_server s)). spliceable (getMessage m))"

lemma triple_take:
  "triple (\<lambda>s. server_with ok A R s \<and> room A s \<and> queue_ok s) (on_server take_packet)
     (\<lambda>s. server_with ok A R s \<and> room A s) (\<lambda>m. spliceable (getMessage m))"
proof (rule tripleI, goal_cases)
  case (1 s)
  then show ?case by (auto intro: inv_frame simp: zoom_run put_server_def room_def)
next
  case (2 s m)
  then show ?case
    by (cases "messages (m_server s)") (auto simp: zoom_run take_packet_def prog_simps queue_ok_def)
qed

context sql_query
begin

lemma keep_turn:
  assumes "\<forall>m \<in> set arrived. spliceable (getMessage m)" and now: "safe_text now" and all: "\<And>u. spares R u"
  shows "triple (\<lambda>s. s_inv R s \<and> room A s \<and> queue_ok s) (dispatch_turn q W (now, order, arrived)) (s_inv R) (\<lambda>_. True)"
proof -
  let ?K = "\<lambda>s. s_inv R s \<and> room A s \<and> queue_ok s"
  have arrive: "triple ?K (modify (\<lambda>s. s\<lparr>m_server := (m_server s)
      \<lparr>messages := messages (m_server s) @ arrived\<rparr>\<rparr>)) ?K (\<lambda>_. True)"
    using assms(1) by (auto intro!: tripleI elim: inv_frame simp: prog_simps room_def queue_ok_def)
  have store: "keeps_inv (s_inv R) (store_slot i)" for i
    unfolding store_slot_def by (rule keep_modify) simp_all
  have "keeps_inv (room A) (store_slot i)" for i
    unfolding store_slot_def by (rule keep_room_modify) simp
  from triple_conj [OF store this] have store': "triple (\<lambda>s. s_inv R s \<and> room A s) (store_slot i) (\<lambda>s. s_inv R s \<and> room A s) (\<lambda>_. True)" for i
    by simp
  have handle: "triple (\<lambda>s. s_inv R s \<and> room A s) (message_handler q W now msg i) (s_inv R) (\<lambda>_. True)"
    if "spliceable (getMessage msg)" for msg i
    by (rule triple_mono [OF keep_message_handler [OF that now]]) (simp_all add: ready_for_def all)
  have run: "triple (\<lambda>s. s_inv R s \<and> room A s) (case order of
        Joined \<Rightarrow> thn (store_slot i) (message_handler q W now msg i)
      | Early_null \<Rightarrow> thn (store_slot i) (thn (message_handler q W now msg i) undef)
      | Late_store \<Rightarrow> thn (message_handler q W now msg i) (store_slot i)) (s_inv R) (\<lambda>_. True)"
    if msg: "spliceable (getMessage msg)" for msg i
  proof (cases order)
    case Joined
    then show ?thesis by (simp add: thn_def triple_bnd_from [OF store'] handle [OF msg])
  next
    case Early_null
    then show ?thesis
      by (simp add: thn_def triple_bnd_from [OF store'] triple_bnd_from [OF handle [OF msg]] triple_basic)
  next
    case Late_store
    then show ?thesis by (simp add: thn_def triple_bnd_from [OF handle [OF msg]] store)
  qed
  have free: "triple (\<lambda>s. s_inv R s \<and> room A s) (bnd (gets runs_free) (\<lambda>index. if index = THREADS_MAX then hang else
        (case order of
          Joined \<Rightarrow> thn (store_slot index) (message_handler q W now msg index)
        | Early_null \<Rightarrow> thn (store_slot index) (thn (message_handler q W now msg index) undef)
        | Late_store \<Rightarrow> thn (message_handler q W now msg index) (store_slot index)))) (s_inv R) (\<lambda>_. True)"
    if "spliceable (getMessage msg)" for msg
  proof (rule triple_bnd_from [OF triple_basic(5)], rule triple_if)
    show "triple (\<lambda>s. s_inv R s \<and> room A s) hang (s_inv R) (\<lambda>_. True)" by (simp add: triple_def prog_simps)
  qed (simp_all add: run [OF that])
  show ?thesis
    unfolding dispatch_turn_def prod.case
    by (subst (1) thn_def, rule triple_bnd_from [OF arrive], rule triple_bnd_from [OF triple_take])
       (simp_all add: free)
qed

end

end
