(* ===== verification/Isolation.thy ===== *)
theory Isolation
  imports PacketInvariant
begin

text \<open>
  The groups are isolated from strangers: what the database holds about one group
  (\<open>group_slice\<close>) is left as it is by every call of a user who is not a member, and with the
  rules of \<open>PacketInvariant\<close> by every packet such a user sends.
\<close>

section \<open>The part of one group\<close>

definition group_slice ::
  "int \<Rightarrow> ilist \<Rightarrow> group_info option \<times> (string \<Rightarrow> string option) \<times> (string \<Rightarrow> (int \<times> string) option)" where
  "group_slice k v = (group_of v k, (\<lambda>u. status_of v k u), (\<lambda>i. item_of v k i))"

text \<open>\<open>u\<close> is not a member of the group \<open>k\<close>, which exists.\<close>

definition stranger :: "int \<Rightarrow> string \<Rightarrow> ilist \<Rightarrow> bool" where
  "stranger k u v \<longleftrightarrow> group_of v k \<noteq> None \<and> status_of v k u = None"

lemma slice_frame:
  "groups_tab v' = groups_tab v \<Longrightarrow> members_tab v' = members_tab v \<Longrightarrow> items_tab v' = items_tab v \<Longrightarrow>
   group_slice k v' = group_slice k v"
  by (simp add: group_slice_def)

lemma slice_eqD:
  assumes "group_slice k v = group_slice k w"
  shows "group_of v k = group_of w k" and "status_of v k u = status_of w k u" and "item_of v k x = item_of w k x"
  using assms by (auto simp: group_slice_def fun_eq_iff)

text \<open>A change of another group is no change of this one.\<close>

lemma slice_other:
  assumes "k' \<noteq> k"
  shows "group_slice k (set_member k' u st v) = group_slice k v"
    and "group_slice k (drop_member k' u v) = group_slice k v"
    and "group_slice k (set_count k' n v) = group_slice k v"
    and "group_slice k (new_group k' i v) = group_slice k v"
    and "group_slice k (erase_group k' v) = group_slice k v"
    and "group_slice k (set_item k' x y v) = group_slice k v"
    and "group_slice k (drop_item k' x v) = group_slice k v"
    and "group_slice k (change_item k' x x' y v) = group_slice k v"
  using assms by (auto simp: group_slice_def change_item_def fun_eq_iff)

lemma slice_everybody:
  "group_slice k (v\<lparr>users_tab := f\<rparr>) = group_slice k v"
  "group_slice k (save_packet u m v) = group_slice k v" "group_slice k (clear_packets u v) = group_slice k v"
  by (rule slice_frame; simp add: save_packet_def clear_packets_def Let_def)+

section \<open>Every call of a stranger\<close>

lemma stranger_elsewhere: "stranger k e v \<Longrightarrow> status_of v k' e = Some st \<Longrightarrow> k' \<noteq> k"
  by (auto simp: stranger_def)

lemma slice_groups:
  assumes "stranger k e (database s)"
  shows "group_slice k (database (snd (spec_removeGroup e k' s))) = group_slice k (database s)"
    and "group_slice k (database (snd (spec_addUser e k' u st s))) = group_slice k (database s)"
    and "group_slice k (database (snd (spec_removeUser e k' u s))) = group_slice k (database s)"
    and "group_slice k (database (snd (spec_setUserStatus e k' u st s))) = group_slice k (database s)"
  by (auto simp: spec_removeGroup_def spec_addUser_def spec_removeUser_def spec_setUserStatus_def
      locked_def Let_def slice_other dest: stranger_elsewhere [OF assms] split: option.split sum.split)

lemma slice_items:
  assumes "stranger k e (database s)"
  shows "group_slice k (database (snd (spec_addItem e k' i n m s))) = group_slice k (database s)"
    and "group_slice k (database (snd (spec_removeItem e k' i s))) = group_slice k (database s)"
    and "group_slice k (database (snd (spec_updateItem e k' x i n m s))) = group_slice k (database s)"
  by (auto simp: spec_addItem_def spec_removeItem_def spec_updateItem_def spec_writer_def
      locked_def Let_def slice_other dest: stranger_elsewhere [OF assms] split: option.split sum.split)

text \<open>A group more has a code of its own.\<close>

lemma slice_createGroup:
  assumes "group_inv (database s)" and "stranger k e (database s)" and "last_group (database s) + 1 < 2 ^ 63"
  shows "group_slice k (database (snd (spec_createGroup now n e s))) = group_slice k (database s)"
proof -
  have "k \<in> dom (groups_tab (database s))" using assms(2) by (auto simp: stranger_def)
  then have "k \<le> last_group (database s)"
    using inv_codes [OF assms(1)] unfolding group_codes_ok_def by blast
  then have "last_group (database s) + 1 \<noteq> k" by simp
  with assms(3) show ?thesis
    by (auto simp: spec_createGroup_def locked_def Let_def slice_other)
qed

lemma slice_users:
  "group_slice k (users_database (snd (spec_Register u p s))) = group_slice k (users_database s)"
  "group_slice k (users_database (snd (spec_Login sock u p s))) = group_slice k (users_database s)"
  by (simp_all add: spec_Register_def spec_Login_def put_online_def Let_def slice_everybody)

lemmas slices = slice_groups slice_items slice_createGroup slice_users slice_everybody

lemma stranger_spares:
  assumes "stranger k u v"
  shows "spares (\<lambda>w. group_slice k w = group_slice k v) u"
  unfolding spares_def
proof (intro allI impI)
  fix w w' assume inv: "group_inv w" and slice: "group_slice k w = group_slice k v" and act: "spec_acts u w w'"
  have away: "stranger k u w" using assms slice by (auto simp: stranger_def group_slice_def fun_eq_iff)
  from act have "group_slice k w' = group_slice k w"
    by (rule spec_acts.cases) (use away inv in \<open>auto simp: slices\<close>)
  with slice show "group_slice k w' = group_slice k v" by simp
qed

section \<open>Every call of a reader\<close>

text \<open>The items are as they were and \<open>u\<close> has its status \<open>st\<close>, or the whole group is gone.\<close>

definition items_kept :: "int \<Rightarrow> string \<Rightarrow> string \<Rightarrow> (string \<Rightarrow> (int \<times> string) option) \<Rightarrow> ilist \<Rightarrow> bool" where
  "items_kept k u st its v \<longleftrightarrow> (status_of v k u = Some st \<and> (\<lambda>i. item_of v k i) = its) \<or>
     (group_of v k = None \<and> k \<le> last_group v)"

lemmas spec_defs = spec_createGroup_def spec_removeGroup_def spec_addUser_def spec_removeUser_def
  spec_setUserStatus_def spec_addItem_def spec_removeItem_def spec_updateItem_def spec_writer_def
  spec_Register_def spec_Login_def put_online_def save_packet_def change_item_def locked_def Let_def

lemma gone_stays:
  assumes "spec_acts e v v'" and "group_of v k = None" and "k \<le> last_group v"
  shows "group_of v' k = None \<and> k \<le> last_group v'"
  using assms(1)
  by (rule spec_acts.cases)
    (use assms(2,3) in \<open>auto simp: spec_defs set_member_def set_item_def drop_item_def split: option.split sum.split\<close>)

lemma reader_stays:
  assumes "spec_acts e v v'" and "group_inv v" and "status_of v k e = Some st" and "\<not> may_write st"
  shows "items_kept k e st (\<lambda>i. item_of v k i) v'"
proof -
  have "group_of v k \<noteq> None" using assms(2,3) group_inv_member by fast
  then have "k \<in> dom (groups_tab v)" by auto
  then have k: "k \<le> last_group v" using inv_codes [OF assms(2)] unfolding group_codes_ok_def by blast
  from assms(1) show ?thesis
    by (rule spec_acts.cases)
      (use assms(3,4) k in \<open>auto simp: items_kept_def spec_defs fun_eq_iff split: option.split sum.split\<close>)
qed

lemma reader_spares:
  assumes "\<not> may_write st"
  shows "spares (items_kept k u st its) u"
  unfolding spares_def
proof (intro allI impI)
  fix v v' assume "group_inv v" "items_kept k u st its v" "spec_acts u v v'"
  then show "items_kept k u st its v'"
    using reader_stays [of u v v' k st] gone_stays [of u v v' k] assms by (auto simp: items_kept_def)
qed

text \<open>There is always somebody who is not a member.\<close>

lemma ex_stranger:
  assumes "group_inv v" and "group_of v k \<noteq> None"
  shows "\<exists>u. stranger k u v"
proof -
  obtain i where "group_of v k = Some i" using assms(2) by blast
  then have "finite (members_of v k)" using group_invD(1) [OF assms(1)] by simp
  then have "\<exists>u. u \<notin> members_of v k" by (rule ex_new_if_finite [OF infinite_UNIV_listI])
  then show ?thesis using assms(2) by (auto simp: stranger_def members_of_def)
qed

context sql_query
begin

theorem stranger_packet:
  assumes "server_inv ok A s" and "room A s" and "spliceable (getMessage msg)" and "safe_text now"
    and "group_of (view (A (m_db s))) k \<noteq> None"
    and "\<And>u. m_online s (getSocket msg) = Some u \<Longrightarrow> status_of (view (A (m_db s))) k u = None"
  shows "group_slice k (view (A (m_db (snd (message_handler q W now msg i s))))) = group_slice k (view (A (m_db s)))"
proof -
  let ?v = "view (A (m_db s))" and ?R = "\<lambda>w. group_slice k w = group_slice k (view (A (m_db s)))"
  have "\<exists>u. spares ?R u"
    using ex_stranger [of ?v k] stranger_spares [of k _ ?v] assms(1,5)
    by (auto simp: server_with_def db_inv_def)
  from keep_message_handler [OF assms(3,4) this, where W = W and index = i]
  have "ready_inv ?R (getSocket msg) s \<Longrightarrow> ?thesis" by (auto simp: triple_def server_with_def)
  moreover have "ready_inv ?R (getSocket msg) s"
    using assms stranger_spares [of k _ ?v] by (auto simp: ready_for_def server_with_def stranger_def)
  ultimately show ?thesis by blast
qed

theorem reader_packet:
  assumes "server_inv ok A s" and "room A s" and "spliceable (getMessage msg)" and "safe_text now"
    and "m_online s (getSocket msg) = Some u" and "status_of (view (A (m_db s))) k u = Some st" and "\<not> may_write st"
  shows "items_kept k u st (\<lambda>i. item_of (view (A (m_db s))) k i)
    (view (A (m_db (snd (message_handler q W now msg i s)))))"
proof -
  let ?R = "items_kept k u st (\<lambda>i. item_of (view (A (m_db s))) k i)"
  have spares: "spares ?R u" using assms(7) by (rule reader_spares)
  then have "\<exists>e. spares ?R e" by blast
  from keep_message_handler [OF assms(3,4) this, where W = W and index = i]
  have "ready_inv ?R (getSocket msg) s \<Longrightarrow> ?thesis" by (auto simp: triple_def server_with_def)
  moreover have "ready_inv ?R (getSocket msg) s"
    using assms spares by (simp add: ready_for_def server_with_def items_kept_def)
  ultimately show ?thesis by blast
qed

end

end
