(* ===== verification/Logins.thy ===== *)
theory Logins
  imports PacketInvariant
begin

text \<open>
  Who can come online.  Only a login enters a name in the map of the users who are online, for the
  socket the packet came from, and only with the password of the account; whatever else a packet
  makes the server do leaves in the map what was there, apart from empty names.
\<close>

section \<open>The names online\<close>

definition online_ok :: "(int \<Rightarrow> string \<Rightarrow> bool) \<Rightarrow> ('db, 'n) manager \<Rightarrow> bool" where
  "online_ok P s \<longleftrightarrow> (\<forall>sock u. m_online s sock = Some u \<longrightarrow> u = '''' \<or> P sock u)"

lemma online_frame: "online_ok P s \<Longrightarrow> m_online t = m_online s \<Longrightarrow> online_ok P t"
  by (simp add: online_ok_def)

named_theorems online_intros "programs that bring nobody online"

lemma online_parts [online_intros]:
  "keeps_inv (online_ok P) (on_groups m1)" "keeps_inv (online_ok P) (on_lists m2)"
  "keeps_inv (online_ok P) (on_restore m3)" "keeps_inv (online_ok P) (on_db m4)"
  by (rule tripleI; auto elim: online_frame simp: zoom_run)+

lemma online_server [online_intros]: "keeps_inv (online_ok P) (on_server m)"
  by (rule tripleI; auto elim: online_frame simp: zoom_run put_server_def)

lemma online_modify [online_intros]:
  "(\<And>s. m_online (f s) = m_online s) \<Longrightarrow> keeps_inv (online_ok P) (modify f)"
  by (rule tripleI) (auto elim: online_frame simp: prog_simps)

lemma online_users_part:
  assumes "\<And>s sock u. online_users (snd (m s)) sock = Some u \<Longrightarrow> online_users s sock = Some u \<or> u = ''''"
  shows "keeps_inv (online_ok P) (on_users m)"
proof (rule tripleI, goal_cases)
  case (1 s)
  then show ?case by (fastforce simp: zoom_run online_ok_def dest: assms)
qed simp

lemma u_query_online: "online_users (snd (u_query q sql s)) = online_users s"
  by (simp add: u_query_def split: prod.split)

lemma online_users_ops [online_intros]:
  "keeps_inv (online_ok P) (on_users (isLogin_sock sock))" "keeps_inv (online_ok P) (on_users (isLogin_name u))"
  "keeps_inv (online_ok P) (on_users (getSock u))" "keeps_inv (online_ok P) (on_users (getUsername sock))"
  "keeps_inv (online_ok P) (on_users (Logout_sock sock))"
  by (rule online_users_part; auto simp: prog_simps run_Logout put_offline_def split: option.splits if_splits)+

lemma Register_online: "online_users (snd (Register q u p s)) = online_users s"
  using u_query_online [of q]
  by (auto simp: Register_def Let_def bnd_def thn_def prog_simps split: prod.split outcome.split) (metis snd_conv)+

lemma isExist_online: "online_users (snd (isExist q u s)) = online_users s"
  using u_query_online [of q] by (auto simp: isExist_def bnd_def prog_simps split: prod.split outcome.split) (metis snd_conv)+

lemma online_accounts [online_intros]:
  "keeps_inv (online_ok P) (on_users (Register q u p))" "keeps_inv (online_ok P) (on_users (isExist q u))"
  by (rule online_users_part; simp add: Register_online isExist_online)+

section \<open>Packets other than a login\<close>

lemma online_trySend [online_intros]: "keeps_inv (online_ok P) (trySend q W u m)"
  unfolding trySend_def by (rule online_intros triple_intros | simp)+

lemma online_cell_at [online_intros]: "keeps_inv (online_ok P) (cell_at row j)"
  by (rule triple_values) simp

lemma online_sendToAll [online_intros]: "keeps_inv (online_ok P) (sendToAll q W rs m)"
  unfolding sendToAll_def by (rule online_intros triple_intros | simp)+

lemma online_dispatch:
  assumes "code \<noteq> EN_LOGIN"
  shows "keeps_inv (online_ok P) (dispatch q W now code sock u args)"
  unfolding dispatch_def do_register_def do_logout_def do_create_group_def do_group_list_def do_invite_user_def
    do_remove_user_def do_set_status_def do_close_group_def do_add_item_def do_remove_item_def do_set_item_def
    do_restore_def bnd_ret
  by (rule online_intros triple_intros | use assms in simp)+

section \<open>A login\<close>

lemma same_db_users:
  "(\<And>s. users_database (snd (m s)) = users_database s) \<Longrightarrow> keeps_inv (\<lambda>t. m_db t = d) (on_users m)"
  by (rule tripleI) (simp_all add: zoom_run)

lemma same_db:
  "keeps_inv (\<lambda>t. m_db t = d) (on_users (isLogin_sock sock))" "keeps_inv (\<lambda>t. m_db t = d) (on_users (Logout_sock sock))"
  "keeps_inv (\<lambda>t. m_db t = d) (on_users (getUsername sock))"
  "(\<And>s. m_db (f s) = m_db s) \<Longrightarrow> keeps_inv (\<lambda>t. m_db t = d) (modify f)"
  by (rule same_db_users; simp add: prog_simps run_Logout put_offline_def split: option.split)+
     (rule tripleI; simp add: prog_simps)

text \<open>What the packet can bring online: its socket, under the name and with the password it holds.\<close>

definition logs_in :: "('db \<Rightarrow> store) \<Rightarrow> ('db, 'n) manager \<Rightarrow> message \<Rightarrow> int \<Rightarrow> string \<Rightarrow> bool" where
  "logs_in A s msg sock u \<longleftrightarrow> sock = getSocket msg \<and>
     (\<exists>p pwd. Parser_ctor (getMessage msg) = Ret p \<and> getMsgCode p = EN_LOGIN \<and> getArguments p = [u, pwd] \<and>
       users_tab (view (A (m_db s))) u = Some pwd)"

context sql_query
begin

lemma online_login:
  assumes "db_ok ok A d" and "safe_text u" and "safe_text p"
    and "users_tab (view (A d)) u = Some p \<Longrightarrow> P sock u"
  shows "triple (\<lambda>s. m_db s = d \<and> online_ok P s) (on_users (Login q sock u p)) (online_ok P) (\<lambda>_. True)"
proof (rule tripleI, goal_cases)
  case (1 s)
  let ?s = "get_users s"
  have "u_ok ok A ?s" using 1 assms(1) by (simp add: u_ok_def)
  from refines_end(2) [OF Login_refines [OF assms(2,3)] this]
  have "online_users (snd (Login q sock u p ?s)) = online_users (snd (spec_Login sock u p (u_abs A ?s)))"
    by (simp add: u_abs_def) (metis users.select_convs(2))
  then show ?case
    using 1 assms(4) by (auto simp: online_ok_def zoom_run spec_Login_def put_online_def u_abs_def split: if_splits)
qed simp

lemma online_code_handler:
  assumes "spliceable (getMessage msg)" and dok: "db_ok ok A (m_db s)"
  shows "triple (\<lambda>t. m_db t = m_db s \<and> online_ok (\<lambda>sock u. m_online s sock = Some u \<or> logs_in A s msg sock u) t)
    (code_handler q W now msg) (online_ok (\<lambda>sock u. m_online s sock = Some u \<or> logs_in A s msg sock u)) (\<lambda>_. True)"
    (is "triple ?J _ ?I _")
  unfolding code_handler_def Let_def
proof (rule triple_bnd_from [where J = ?J and Q = "\<lambda>p. Parser_ctor (getMessage msg) = Ret p"])
  fix p assume p: "Parser_ctor (getMessage msg) = Ret p"
  let ?sock = "getSocket msg" and ?code = "getMsgCode p" and ?args = "getArguments p"
  have who: "keeps_inv ?J (on_users (isLogin_sock ?sock))" "keeps_inv ?J (on_users (getUsername ?sock))"
    using triple_conj [OF same_db(1) online_users_ops(1)] triple_conj [OF same_db(3) online_users_ops(4)] by simp_all
  have act: "triple ?J (dispatch q W now ?code ?sock u ?args) ?I (\<lambda>_. True)" for u
  proof (cases "?code = EN_LOGIN")
    case False
    then show ?thesis by (intro triple_mono [OF online_dispatch]) simp_all
  next
    case True
    have "triple ?J (do_login q W ?sock ?args) ?I (\<lambda>_. True)"
      unfolding do_login_def
    proof (rule triple_need_args)
      assume len: "length ?args = 2"
      have args: "?args = [?args ! 0, ?args ! 1]" using len by (simp add: list_eq_iff_nth_eq less_2_cases_iff)
      have safe: "safe_text (?args ! 0)" "safe_text (?args ! 1)"
        using spliceable_args(1) [OF assms(1) p] len by (simp_all add: safe_args)
      have login: "triple ?J (on_users (Login q ?sock (?args ! 0) (?args ! 1))) ?I (\<lambda>_. True)"
        by (rule online_login [OF dok safe]) (use p True args in \<open>auto simp: logs_in_def\<close>)
      show "triple ?J (thn (on_users (Login q ?sock (?args ! 0) (?args ! 1)))
          (trySend q W (?args ! 0) (makeReceive_str PGM_SCC_LOGIN ''''))) ?I (\<lambda>_. True)"
        unfolding thn_def by (rule triple_bnd_from [OF login]) (simp_all add: online_trySend)
    qed simp
    then show ?thesis using True by (simp add: dispatch_def EN_LOGIN_def EN_REGISTER_def)
  qed
  have stop: "triple ?J (throw e) ?I (\<lambda>_. True)" for e
    by (simp add: triple_def prog_simps)
  have go: "triple ?J (bnd (on_users (getUsername ?sock)) (\<lambda>u. dispatch q W now ?code ?sock u ?args)) ?I (\<lambda>_. True)"
    by (rule triple_bnd_from [OF who(2)]) (simp_all add: act)
  show "triple ?J (bnd (on_users (isLogin_sock ?sock)) (\<lambda>login.
      if login = False \<and> ?code \<noteq> EN_REGISTER \<and> ?code \<noteq> EN_LOGIN then throw_own UserIsOfflineException
      else bnd (on_users (getUsername ?sock)) (\<lambda>u. dispatch q W now ?code ?sock u ?args))) ?I (\<lambda>_. True)"
    by (rule triple_bnd_from [OF who(1)]) (simp_all add: go stop)
qed (simp_all add: triple_values)

lemma online_drop_turn: "keeps_inv (\<lambda>t. m_db t = d \<and> online_ok P t) (drop_turn u)"
proof -
  have "keeps_inv (\<lambda>t. m_db t = d) (drop_turn u)" "keeps_inv (online_ok P) (drop_turn u)"
    unfolding drop_turn_def by (rule online_intros same_db triple_intros | simp)+
  from triple_conj [OF this] show ?thesis by simp
qed

lemma online_message_handler:
  assumes "spliceable (getMessage msg)" and "db_ok ok A (m_db s)"
  shows "triple (\<lambda>t. t = s) (message_handler q W now msg i)
    (online_ok (\<lambda>sock u. m_online s sock = Some u \<or> logs_in A s msg sock u)) (\<lambda>_. True)"
    (is "triple _ _ (online_ok ?P) _")
proof -
  let ?J = "\<lambda>t. m_db t = m_db s \<and> online_ok ?P t"
  have 1: "keeps_inv ?J (while_do c drop_turn ())" for c
    by (rule triple_while) (rule online_drop_turn)
  have 2: "triple ?J (catching W (getSocket msg) (code_handler q W now msg)) (online_ok ?P) (\<lambda>_. True)"
    by (rule triple_catching) (rule online_code_handler [OF assms], rule online_server)
  have 3: "keeps_inv (online_ok ?P) (modify (\<lambda>s. s\<lparr>threads := (threads s)[i := False]\<rparr>))"
    by (rule online_modify) simp
  have "triple ?J (message_handler q W now msg i) (online_ok ?P) (\<lambda>_. True)"
    unfolding message_handler_def thn_def
    by (rule triple_bnd_from [OF 1], rule triple_bnd_from [OF 2], rule 3) simp_all
  then show ?thesis by (rule triple_mono) (auto simp: online_ok_def)
qed

end

end
