(* ===== verification/System.thy ===== *)
theory System
  imports PacketInvariant Threads
begin

text \<open>
  The whole server: the threads of \<open>Server\<close> and the handlers of \<open>Manager\<close> on one state.  The
  accepting and the receiving thread take their steps whenever they can; when the dispatcher is
  to take a packet, the turn of \<open>Manager\<close> that handles it is one step, since the loop waits for its
  handler.  What the receiving thread does while a handler runs therefore comes before or after the
  whole turn; the finer interleaving, in which it falls between two sends, is that of \<open>Threads\<close>.
\<close>

section \<open>Steps\<close>

record ('db, 'n) system =
  t_part :: "'n sys"
  m_part :: "('db, 'n) manager"

inductive system_step ::
  "'db engine \<Rightarrow> 'n winsock \<Rightarrow> bool \<Rightarrow> ('db \<Rightarrow> store) \<Rightarrow> ('db, 'n) system \<Rightarrow> ('db, 'n) system \<Rightarrow> bool"
  for q :: "'db engine" and W :: "'n winsock" and spurious :: bool and A :: "'db \<Rightarrow> store" where
  thread_step: "\<lbrakk>step W spurious t (t_part s) n; t = Dispatcher \<Longrightarrow> dpc (t_part s) \<notin> {D_pop, D_run}\<rbrakk> \<Longrightarrow>
    system_step q W spurious A s (s\<lparr>t_part := n, m_part := (m_part s)\<lparr>m_server := srv n\<rparr>\<rparr>)"
| packet_step: "\<lbrakk>dpc (t_part s) = D_pop; dispatch_turn q W (now, order, []) (m_part s) = (r, d); room A (m_part s);
      safe_text now\<rbrakk> \<Longrightarrow>
    system_step q W spurious A s (s\<lparr>m_part := d, t_part := (t_part s)\<lparr>srv := m_server d, queueMutex := None,
      dpc := (if r = Ret () then D_check else D_dead),
      taken := taken (t_part s) @ take 1 (messages (srv (t_part s)))\<rparr>\<rparr>)"

inductive_cases system_stepE: "system_step q W spurious A s t"

definition start_system :: "('db, 'n) manager \<Rightarrow> ('db, 'n) system" where
  "start_system d = \<lparr>t_part = init_sys (m_server d), m_part = d\<rparr>"

section \<open>Handlers leave the queue alone\<close>

definition queue_is :: "message list \<Rightarrow> ('db, 'n) manager \<Rightarrow> bool" where
  "queue_is ms s \<longleftrightarrow> messages (m_server s) = ms"

named_theorems queue_intros "programs that leave the queue of packets alone"

lemma queue_parts [queue_intros]:
  "keeps_inv (queue_is ms) (on_groups m1)" "keeps_inv (queue_is ms) (on_lists m2)"
  "keeps_inv (queue_is ms) (on_restore m3)" "keeps_inv (queue_is ms) (on_db m4)"
  "keeps_inv (queue_is ms) (on_users m5)"
  by (rule tripleI; simp add: zoom_run queue_is_def put_groups_def put_lists_def put_restore_def put_db_def
      put_users_def)+

lemma queue_send [queue_intros]: "keeps_inv (queue_is ms) (on_server (sendMessage W sock x))"
proof (rule tripleI, goal_cases)
  case (1 s)
  obtain r t where "sendMessage W sock x (m_server s) = (r, t)" by fastforce
  with send_queue [OF this] 1 show ?case by (simp add: zoom_run put_server_def queue_is_def)
qed simp

lemma queue_modify [queue_intros]:
  "(\<And>s. messages (m_server (f s)) = messages (m_server s)) \<Longrightarrow> keeps_inv (queue_is ms) (modify f)"
  by (rule tripleI) (simp_all add: queue_is_def prog_simps)

lemma queue_values [queue_intros]:
  "keeps_inv (queue_is ms) (cell_at row j)" "keeps_inv (queue_is ms) (of_outcome r)"
  by (rule triple_values; simp)+

lemma queue_trySend [queue_intros]: "keeps_inv (queue_is ms) (trySend q W u m)"
  unfolding trySend_def by (rule queue_intros triple_intros | simp)+

lemma queue_sendToAll [queue_intros]: "keeps_inv (queue_is ms) (sendToAll q W rs m)"
  unfolding sendToAll_def by (rule queue_intros triple_intros | simp)+

lemma queue_dispatch [queue_intros]: "keeps_inv (queue_is ms) (dispatch q W now code sock u args)"
  unfolding dispatch_def do_register_def do_login_def do_logout_def do_create_group_def do_group_list_def
    do_invite_user_def do_remove_user_def do_set_status_def do_close_group_def do_add_item_def
    do_remove_item_def do_set_item_def do_restore_def bnd_ret
  by (rule queue_intros triple_intros | simp)+

lemma queue_code_handler [queue_intros]: "keeps_inv (queue_is ms) (code_handler q W now msg)"
  unfolding code_handler_def Let_def by (rule queue_intros triple_intros | simp)+

lemma queue_message_handler [queue_intros]: "keeps_inv (queue_is ms) (message_handler q W now msg i)"
  unfolding message_handler_def drop_turn_def
  by (rule queue_intros triple_intros triple_while triple_catching | simp)+

lemma queue_take: "triple (queue_is ms) (on_server take_packet) (queue_is (tl ms)) (\<lambda>_. True)"
  by (rule tripleI; cases ms)
     (simp_all add: zoom_run put_server_def take_packet_def prog_simps queue_is_def)

lemma queue_turn:
  "messages (m_server (snd (dispatch_turn q W (now, order, []) s))) = tl (messages (m_server s))"
proof -
  let ?ms = "messages (m_server s)"
  have slot: "keeps_inv (queue_is ms) (store_slot i)" for i ms
    unfolding store_slot_def by (rule queue_modify) simp
  have run: "keeps_inv (queue_is ms) (case order of
        Joined \<Rightarrow> thn (store_slot i) (message_handler q W now msg i)
      | Early_null \<Rightarrow> thn (store_slot i) (thn (message_handler q W now msg i) undef)
      | Late_store \<Rightarrow> thn (message_handler q W now msg i) (store_slot i))" for msg i ms
    by (cases order) (simp_all add: triple_thn slot queue_message_handler triple_basic)
  have "triple (queue_is ?ms) (dispatch_turn q W (now, order, [])) (queue_is (tl ?ms)) (\<lambda>_. True)"
    unfolding dispatch_turn_def prod.case
    by (rule triple_modify_thn [where P' = "queue_is ?ms"], rule triple_bnd_from [OF queue_take],
        rule triple_bnd [OF triple_basic(5)], rule triple_if, rule triple_basic, rule run)
       (simp_all add: queue_is_def)
  then show ?thesis by (simp add: triple_def queue_is_def)
qed

section \<open>The invariant in every interleaving\<close>

definition system_inv :: "('db \<Rightarrow> bool) \<Rightarrow> ('db \<Rightarrow> store) \<Rightarrow> (ilist \<Rightarrow> bool) \<Rightarrow> ('db, 'n) system \<Rightarrow> bool" where
  "system_inv ok A R s \<longleftrightarrow> m_server (m_part s) = srv (t_part s) \<and> queue_inv (t_part s) \<and> server_with ok A R (m_part s)"

lemma pushed_grows: "step W spurious t s s' \<Longrightarrow> set (pushed s) \<subseteq> set (pushed s')"
  by (elim stepE) auto

lemma system_pushed: "system_step q W spurious A s t \<Longrightarrow> set (pushed (t_part s)) \<subseteq> set (pushed (t_part t))"
  by (elim system_stepE) (auto dest: pushed_grows)

context sql_query
begin

lemma system_step_inv:
  assumes "system_step q W spurious A s t" and inv: "system_inv ok A R s" and spares: "\<And>u. spares R u"
    and "\<forall>m \<in> set (pushed (t_part t)). spliceable (getMessage m)"
  shows "system_inv ok A R t"
  using assms(1)
proof cases
  case (thread_step th n)
  with inv have "queue_inv n" by (auto simp: system_inv_def dest: queue_inv_step)
  with thread_step(1) inv show ?thesis by (auto simp: system_inv_def server_with_def)
next
  case (packet_step now order r d)
  note t = packet_step(1) and turn = packet_step(3)
  have "queue_ok (m_part s)"
    using assms(4) t inv by (auto simp: queue_ok_def system_inv_def queue_inv_def)
  with packet_step(3-5) have "server_with ok A R d"
    using keep_turn [of "[]" now R W order] inv spares by (auto simp: triple_def system_inv_def)
  moreover have "messages (m_server d) = tl (messages (srv (t_part s)))"
    using queue_turn [of q W now order "m_part s"] turn inv by (simp add: system_inv_def)
  then have "queue_inv (t_part t)"
    using inv t by (cases "messages (srv (t_part s))") (auto simp: system_inv_def queue_inv_def)
  ultimately show ?thesis using t by (simp add: system_inv_def)
qed

lemma system_run_inv:
  assumes "(system_step q W spurious A)\<^sup>*\<^sup>* s t" and "system_inv ok A R s" and "\<And>u. spares R u"
    and "\<forall>m \<in> set (pushed (t_part t)). spliceable (getMessage m)"
  shows "system_inv ok A R t"
  using assms
proof (induction rule: rtranclp_induct)
  case (step t u)
  then show ?case using system_step_inv [OF step(2)] system_pushed [OF step(2)] by blast
qed

end

lemma start_system_inv: "server_with ok A R d \<Longrightarrow> system_inv ok A R (start_system d)"
  by (simp add: system_inv_def start_system_def init_sys_def queue_inv_def)

text \<open>A run that handles the packet in the queue.\<close>

lemma one_packet_run:
  assumes "messages (m_server d) = [m]" and "room A d" and "safe_text now"
  shows "\<exists>s. (system_step q W spurious A)\<^sup>*\<^sup>* (start_system d) s \<and>
    m_part s = snd (dispatch_turn q W (now, order, []) d) \<and> taken (t_part s) = [m] \<and> pushed (t_part s) = [m]"
proof -
  let ?S = "\<lambda>n. \<lparr>t_part = n, m_part = d\<rparr>" and ?n = "init_sys (m_server d)"
  let ?n1 = "?n\<lparr>dpc := D_lock\<rparr>" and ?n2 = "?n\<lparr>dpc := D_pop, queueMutex := Some Dispatcher\<rparr>"
  obtain r u where turn: "dispatch_turn q W (now, order, []) d = (r, u)" by fastforce
  have same: "d\<lparr>m_server := m_server d\<rparr> = d" by simp
  have "step W spurious Dispatcher ?n ?n1"
    using disp_check [of ?n W spurious] assms(1) by (simp add: init_sys_def)
  from thread_step [OF _, of W spurious Dispatcher "?S ?n" ?n1] this
  have 1: "system_step q W spurious A (start_system d) (?S ?n1)"
    by (simp add: init_sys_def start_system_def same)
  have "step W spurious Dispatcher ?n1 ?n2"
    using disp_lock [of ?n1 W spurious] by (simp add: init_sys_def)
  from thread_step [OF _, of W spurious Dispatcher "?S ?n1" ?n2] this
  have 2: "system_step q W spurious A (?S ?n1) (?S ?n2)" by (simp add: init_sys_def same)
  have "system_step q W spurious A (?S ?n2) ((?S ?n2)\<lparr>m_part := u, t_part := ?n2\<lparr>srv := m_server u, queueMutex := None,
      dpc := (if r = Ret () then D_check else D_dead), taken := taken ?n2 @ take 1 (messages (srv ?n2))\<rparr>\<rparr>)"
    using packet_step [of "?S ?n2" q W now order r u A spurious] turn assms(2,3) by simp
  with 1 2 have "(system_step q W spurious A)\<^sup>*\<^sup>* (start_system d)
      ((?S ?n2)\<lparr>m_part := u, t_part := ?n2\<lparr>srv := m_server u, queueMutex := None,
      dpc := (if r = Ret () then D_check else D_dead), taken := taken ?n2 @ take 1 (messages (srv ?n2))\<rparr>\<rparr>)"
    by (meson rtranclp.rtrancl_into_rtrancl rtranclp.rtrancl_refl)
  then show ?thesis using turn assms(1) by (fastforce simp: init_sys_def)
qed

end
