(* ===== verification/Lifetimes.thy ===== *)
theory Lifetimes
  imports System
begin

text \<open>
  The database file across restarts: what the server may find in its file when it starts is a file
  without rows or what an earlier run left there, and each start begins with the constructor
  of \<open>Manager\<close>.
\<close>

section \<open>The constructor of the database\<close>

lemma rows_create_all: "rows (create_all st) t = (if created st t then rows st t else [])"
  by (cases t) (simp_all add: create_all_def create_effect_def set_rows_def)

lemma create_all_ready: "ready st \<Longrightarrow> create_all st = st"
  by (simp add: create_all_def create_effect_def ready_def)

text \<open>The engine on a disk where the file of the program holds \<open>db\<close>.\<close>

definition on_file :: "('db, 'st) sqlite \<Rightarrow> 'db \<Rightarrow> ('db, 'st) sqlite" where
  "on_file S db = S\<lparr>sqlite3_open := (sqlite3_open S)(DB_NAME := (SQLITE_OK, db))\<rparr>"

lemma yields_on_file [simp]: "yields (on_file S f) n db st rs db' = yields S n db st rs db'"
proof -
  have "column_string (on_file S f) = column_string S" by (intro ext) (simp add: on_file_def column_string_def)
  moreover have "sqlite3_step (on_file S f) = sqlite3_step S" "sqlite3_finalize (on_file S f) = sqlite3_finalize S"
    by (simp_all add: on_file_def)
  ultimately show ?thesis by (induction rs arbitrary: db st) simp_all
qed

lemma api_on_file: "sqlite_api S A ok \<Longrightarrow> sqlite_api (on_file S db) A ok"
  unfolding sqlite_api_def yields_on_file by (simp add: on_file_def)

context sqlite_api
begin

lemma queries: "sql_query (query S) A ok"
  by unfold_locales

lemma DataBase_ctor_effect:
  assumes "sqlite3_open S DB_NAME = (rc, db)" and "ok db"
  shows "\<exists>d. DataBase_ctor S = (Ret (), d) \<and> A d = create_all (A db) \<and> ok d"
  using stmt.create_tables_effect [OF assms(2)] assms(1)
  by (auto simp: DataBase_ctor_def DataBase_open_def)

end

section \<open>One life after another\<close>

text \<open>
  \<open>life\<close>: the server starts on the file \<open>db\<close>, and \<open>s\<close> is a state it comes to.  \<open>server_file\<close>: a file
  without rows, or the file after a life of the server that was stopped between two steps.
\<close>

definition life ::
  "('db, 'st) sqlite \<Rightarrow> ('db \<Rightarrow> store) \<Rightarrow> 'n winsock \<Rightarrow> bool \<Rightarrow> 'db \<Rightarrow> int \<Rightarrow> 'n server \<Rightarrow> ('db, 'n) system \<Rightarrow> bool" where
  "life S A W spurious db index sv s =
     (case DataBase_ctor (on_file S db) of
        (Ret _, d) \<Rightarrow>
          (system_step (query (on_file S db)) W spurious A)\<^sup>*\<^sup>* (start_system (new_manager index d sv)) s \<and>
          (\<forall>m \<in> set (pushed (t_part s)). spliceable (getMessage m))
      | _ \<Rightarrow> False)"

inductive server_file ::
  "('db, 'st) sqlite \<Rightarrow> ('db \<Rightarrow> store) \<Rightarrow> ('db \<Rightarrow> bool) \<Rightarrow> 'n winsock \<Rightarrow> bool \<Rightarrow> 'db \<Rightarrow> bool"
  for S :: "('db, 'st) sqlite" and A :: "'db \<Rightarrow> store" and ok :: "'db \<Rightarrow> bool" and W :: "'n winsock" and spurious :: bool where
  new_file: "\<lbrakk>ok db; \<And>t. rows (A db) t = []\<rbrakk> \<Longrightarrow> server_file S A ok W spurious db"
| next_file: "\<lbrakk>server_file S A ok W spurious db; life S A W spurious db index sv s; ok db'; A db' = A (m_db (m_part s))\<rbrakk> \<Longrightarrow>
    server_file S A ok W spurious db'"

text \<open>What such a file has when the tables that were missing are there.\<close>

definition file_good :: "store \<Rightarrow> bool" where
  "file_good st \<longleftrightarrow> group_inv (view (create_all st)) \<and> safe_view (view (create_all st))"

lemma no_rows_good:
  assumes "wf_store (create_all st)" and "\<And>t. rows st t = []"
  shows "file_good st"
proof -
  let ?v = "view (create_all st)"
  have rows: "rows (create_all st) t = []" for t by (simp add: rows_create_all assms(2))
  have none: "groups_tab ?v = Map.empty" "members_tab ?v = Map.empty" "items_tab ?v = Map.empty"
    by (simp_all add: view_def rows)
  have "group_inv ?v"
  proof (rule group_invI)
    show "group_codes_ok ?v" using view_codes_ok [OF assms(1)] .
    show "group_at ?v k" for k by (simp add: group_at_def members_of_def none)
  qed
  moreover have "safe_view ?v" by (simp add: safe_view_def none)
  ultimately show ?thesis by (simp add: file_good_def)
qed

lemma server_file_ok: "server_file S A ok W spurious db \<Longrightarrow> ok db"
  by (erule server_file.cases) simp_all

context sqlite_api
begin

lemma opened:
  assumes "ok db"
  obtains d where "DataBase_ctor (on_file S db) = (Ret (), d)" and "A d = create_all (A db)" and "ok d"
    and "sql_query (query (on_file S db)) A ok"
proof -
  have api: "sqlite_api (on_file S db) A ok" by (rule api_on_file [OF sqlite_api_axioms])
  have "sqlite3_open (on_file S db) DB_NAME = (SQLITE_OK, db)" by (simp add: on_file_def)
  from sqlite_api.DataBase_ctor_effect [OF api this assms] sqlite_api.queries [OF api] show thesis
    using that by blast
qed

lemma life_keeps:
  assumes "life S A W spurious db index sv s" and "ok db" and "file_good (A db)"
    and "R (view (create_all (A db)))" and "\<And>u. spares R u"
  shows "server_with ok A R (m_part s)"
proof (rule opened [OF assms(2)])
  fix d assume d: "DataBase_ctor (on_file S db) = (Ret (), d)" "A d = create_all (A db)" "ok d"
    and q: "sql_query (query (on_file S db)) A ok"
  have "server_with ok A R (new_manager index d sv)"
    using assms(3,4) d(2,3)
    by (simp add: server_with_def db_inv_def db_ok_def new_manager_def file_good_def ready_create_all)
  with assms(1) d(1) have "system_inv ok A R s"
    using sql_query.system_run_inv [OF q _ start_system_inv assms(5)] by (auto simp: life_def)
  then show ?thesis by (simp add: system_inv_def)
qed

lemma server_file_good: "server_file S A ok W spurious db \<Longrightarrow> file_good (A db)"
proof (induction rule: server_file.induct)
  case (new_file db)
  have "wf_store (create_all (A db))"
    using opened [OF new_file(1)] tables_wf by metis
  then show ?case using new_file(2) by (rule no_rows_good)
next
  case (next_file db index sv s db')
  have "server_inv ok A (m_part s)"
    using life_keeps [OF next_file(2) server_file_ok [OF next_file(1)] next_file.IH _ spares_nothing] by simp
  then show ?case
    using next_file(4) by (simp add: file_good_def server_with_def db_inv_def db_ok_def create_all_ready)
qed

text \<open>The constructor finds every account of the file.\<close>

lemma server_file_accounts:
  assumes "server_file S A ok W spurious db"
  shows "users_tab (view (create_all (A db))) = users_tab (view (A db))"
  using assms
proof cases
  case new_file
  then show ?thesis by (simp add: view_def rows_create_all)
next
  case (next_file f index sv s)
  have "server_inv ok A (m_part s)"
    using life_keeps [OF next_file(2) server_file_ok [OF next_file(1)] server_file_good [OF next_file(1)] _
        spares_nothing] by simp
  then show ?thesis using next_file(4) by (simp add: server_with_def db_inv_def db_ok_def create_all_ready)
qed

lemma accounts_spared: "spares (\<lambda>v. map_le a (users_tab v)) u"
  unfolding spares_def using spec_acts_accounts map_le_trans by blast

end

section \<open>A server stopped in the middle\<close>

text \<open>
  \<open>cut q\<close>: the database of a server that is killed at a query, after \<open>n\<close> more; what the
  earlier ones wrote is in the file, as each query is a transaction of its own.
\<close>

fun cut :: "'db engine \<Rightarrow> ('db \<times> nat) engine" where
  "cut q sql (db, 0) = None"
| "cut q sql (db, Suc n) = map_option (\<lambda>(rs, db'). (rs, (db', n))) (q sql db)"

lemma cut_query:
  "db_query (cut q) sql (d, 0) = (Hang, (d, 0))"
  "db_query q sql d = (Ret rs, d') \<Longrightarrow> db_query (cut q) sql (d, Suc n) = (Ret rs, (d', n))"
  by (auto simp: db_query_def split: option.splits)

context sql_query
begin

lemma createGroup_cut:
  assumes ok: "db_ok ok A d" and inv: "group_inv (view (A d))" and room: "last_group (view (A d)) + 1 < 2 ^ 63"
    and safe: "safe_text now" "safe_text n" "safe_text u" and k: "k = last_group (view (A d)) + 1"
  shows "\<exists>d'. createGroup (cut q) now n u \<lparr>database = (d, 1), mtx = False\<rparr> = (Hang, \<lparr>database = (d', 0), mtx = True\<rparr>) \<and>
    db_ok ok A d' \<and> view (A d') = new_group k \<lparr>g_name = n, g_admin = u, g_date = now, g_users = 1\<rparr> (view (A d))"
proof -
  note ins = insert_group_query [OF ok safe(2,3,1)]
  have "createGroup (cut q) now n u \<lparr>database = (d, Suc 0), mtx = False\<rparr> =
      (Hang, \<lparr>database = (after q (sql_insert_group n u now) d, 0), mtx = True\<rparr>)"
    using ins(1) by (simp add: createGroup_def sql_insert_group_c_str safe prog_simps cut_query)
  with ins(2,3) room k show ?thesis by auto
qed

end

lemma new_group_breaks:
  assumes "group_inv v" and "k = last_group v + 1"
  shows "members_of (new_group k i v) k = {}" and "\<not> group_inv (new_group k i v)"
proof -
  have "group_of v k = None"
    using assms by (cases "group_of v k") (auto simp: group_inv_def group_codes_ok_def domI dest!: bspec [where x = k])
  then show none: "members_of (new_group k i v) k = {}"
    using group_inv_member [OF assms(1), of k] by (fastforce simp: members_of_def new_group_def)
  have "group_of (new_group k i v) k = Some i" by (simp add: new_group_def)
  with none show "\<not> group_inv (new_group k i v)" using group_invD(4) by (fastforce simp: members_of_def)
qed

end
