(* ===== verification/Requests.thy ===== *)
theory Requests
  imports PacketInvariant
begin

text \<open>
  What a request of a user does from the packet to the replies: the handler of an online user, the
  delivery of a message to the members of a group, some online and some not, and the requests
  about items and groups as one step on the tables and the network.
\<close>

section \<open>Runs of small parts\<close>

lemma put_get [simp]: "put_users (get_users s) s = s"
  by (simp add: put_users_def get_users_def)

lemma get_users_simps [simp]:
  "users_database (get_users s) = m_db s" "online_users (get_users s) = m_online s"
  "online_users_opposite (get_users s) = m_online_opposite s"
  by (simp_all add: get_users_def)

lemma run_zoom [prog_simps]: "m (get s) = (r, c) \<Longrightarrow> zoom get put m s = (r, put c s)"
  by (simp add: zoom_def)

lemma run_of_outcome [prog_simps]: "of_outcome r s = (r, s)"
  by (simp add: of_outcome_def)

lemma run_login_sock [prog_simps]: "on_users (isLogin_sock sock) s = (Ret (m_online s sock \<noteq> None), s)"
  by (simp add: prog_simps)

lemma run_bnd_login [prog_simps]:
  "bnd (on_users (isLogin_sock sock)) f s = f (m_online s sock \<noteq> None) s"
  by (rule run_bnd(1)) (rule run_login_sock)

lemma disconnect_returns: "fst (disconnect W sock s) = Ret ()"
  by (simp add: disconnect_def prog_simps)

lemma send_returns: "fst (sendMessage W sock text s) = Ret ()"
  by (simp add: sendMessage_def disconnect_returns prog_simps split: prod.split)

lemma run_send: "sendMessage W sock text s = (Ret (), snd (sendMessage W sock text s))"
  by (metis send_returns prod.collapse)

lemma trySend_online:
  assumes "m_online_opposite s u = Some sock"
  shows "trySend q W u m s = (Ret (), put_server (snd (sendMessage W sock m (m_server s))) s)"
proof -
  have "on_users (isLogin_name u) s = (Ret True, s)" "on_users (getSock u) s = (Ret sock, s)"
    using assms by (simp_all add: prog_simps)
  moreover have "on_server (sendMessage W sock m) s = (Ret (), put_server (snd (sendMessage W sock m (m_server s))) s)"
    by (rule run_zoom) (rule run_send)
  ultimately show ?thesis by (simp add: trySend_def bnd_def)
qed

section \<open>Delivering a message\<close>

text \<open>
  \<open>deliver\<close>: the message for \<open>u\<close> goes to the socket of \<open>u\<close>, or is stored when \<open>u\<close> is not online.
  \<open>announced\<close>: a message was delivered once to each of a set of users, in some order.
\<close>

definition deliver ::
  "'n winsock \<Rightarrow> (string \<Rightarrow> int option) \<Rightarrow> string \<Rightarrow> string \<Rightarrow> ilist \<times> 'n server \<Rightarrow> ilist \<times> 'n server" where
  "deliver W opp m u x = (case opp u of
     None \<Rightarrow> (save_packet u m (fst x), snd x)
   | Some sock \<Rightarrow> (fst x, snd (sendMessage W sock m (snd x))))"

definition announced ::
  "'n winsock \<Rightarrow> (string \<Rightarrow> int option) \<Rightarrow> string \<Rightarrow> string set \<Rightarrow> ilist \<times> 'n server \<Rightarrow> ilist \<times> 'n server \<Rightarrow> bool" where
  "announced W opp m U x y \<longleftrightarrow> (\<exists>us. distinct us \<and> set us = U \<and> y = fold (deliver W opp m) us x)"

lemma deliver_tabs [simp]:
  "items_tab (fst (deliver W opp m u x)) = items_tab (fst x)"
  "members_tab (fst (deliver W opp m u x)) = members_tab (fst x)"
  by (simp_all add: deliver_def save_packet_def Let_def split: option.split)

lemma deliver_keeps:
  "items_tab (fst (fold (deliver W opp m) us x)) = items_tab (fst x)"
  "members_tab (fst (fold (deliver W opp m) us x)) = members_tab (fst x)"
  by (induction us arbitrary: x) simp_all

lemma deliver_many_keeps:
  "items_tab (fst (fold (\<lambda>m. deliver W opp m u) ms x)) = items_tab (fst x)"
  "members_tab (fst (fold (\<lambda>m. deliver W opp m u) ms x)) = members_tab (fst x)"
  by (induction ms arbitrary: x) simp_all

definition m_abs :: "('db \<Rightarrow> store) \<Rightarrow> ('db, 'n) manager \<Rightarrow> ilist \<times> 'n server" where
  "m_abs A s = (view (A (m_db s)), m_server s)"

text \<open>The rest of the state: who is online, and the two mutexes.\<close>

definition online_of :: "('db, 'n) manager \<Rightarrow> (int \<Rightarrow> string option) \<times> (string \<Rightarrow> int option)" where
  "online_of s = (m_online s, m_online_opposite s)"

definition m_rest :: "('db, 'n) manager \<Rightarrow> ((int \<Rightarrow> string option) \<times> (string \<Rightarrow> int option)) \<times> bool \<times> bool" where
  "m_rest s = (online_of s, groups_mtx s, lists_mtx s)"

lemma m_rest_simps [simp]:
  "online_of (s\<lparr>m_db := d\<rparr>) = online_of s" "online_of (s\<lparr>m_server := sv\<rparr>) = online_of s"
  "online_of (s\<lparr>threads := ts\<rparr>) = online_of s"
  "m_rest (s\<lparr>m_db := d\<rparr>) = m_rest s" "m_rest (s\<lparr>m_server := sv\<rparr>) = m_rest s" "m_rest (s\<lparr>threads := ts\<rparr>) = m_rest s"
  by (simp_all add: online_of_def m_rest_def)

lemma same_online: "online_of t = online_of s \<Longrightarrow> m_online_opposite t = m_online_opposite s"
  by (simp add: online_of_def)

text \<open>Only the database and the network change.\<close>

definition sends_to ::
  "('db \<Rightarrow> bool) \<Rightarrow> ('db \<Rightarrow> store) \<Rightarrow> (cxx_exn, ('db, 'n) manager, unit) prog \<Rightarrow> ('db, 'n) manager \<Rightarrow>
   ilist \<times> 'n server \<Rightarrow> bool" where
  "sends_to ok A m s y \<longleftrightarrow> (\<exists>d sv. m s = (Ret (), s\<lparr>m_db := d, m_server := sv\<rparr>) \<and> db_ok ok A d \<and>
     (view (A d), sv) = y)"

context sql_query
begin

lemma trySend_sends:
  assumes "db_ok ok A (m_db s)" and "safe_text u" and "safe_text m"
  shows "sends_to ok A (trySend q W u m) s (deliver W (m_online_opposite s) m u (m_abs A s))"
proof (cases "m_online_opposite s u")
  case None
  note put = insert_packet_query [OF assms]
  have "on_db (db_query q (sql_insert_packet u m)) s = (Ret [], put_db (after q (sql_insert_packet u m) (m_db s)) s)"
    by (rule run_zoom) (rule put(1))
  moreover have "on_users (isLogin_name u) s = (Ret False, s)"
    using None by (simp add: prog_simps)
  ultimately have "trySend q W u m s = (Ret (), s\<lparr>m_db := after q (sql_insert_packet u m) (m_db s), m_server := m_server s\<rparr>)"
    by (simp add: trySend_def bnd_def prog_simps put_db_def)
  with put(2,3) None show ?thesis unfolding sends_to_def by (auto simp: deliver_def m_abs_def)
next
  case (Some sock)
  let ?sv = "snd (sendMessage W sock m (m_server s))"
  have "trySend q W u m s = (Ret (), s\<lparr>m_db := m_db s, m_server := ?sv\<rparr>)"
    using trySend_online [OF Some] by (simp add: put_server_def)
  with assms(1) Some show ?thesis
    unfolding sends_to_def by (intro exI [of _ "m_db s"] exI [of _ ?sv]) (simp add: deliver_def m_abs_def)
qed

lemma sendToAll_sends:
  assumes "db_ok ok A (m_db s)" and "safe_text m" and "\<And>u st. (u, st) \<in> set us \<Longrightarrow> safe_text u"
  shows "sends_to ok A (sendToAll q W (map (\<lambda>(u, st). [g, u, st]) us) m) s
    (fold (deliver W (m_online_opposite s) m) (map fst us) (m_abs A s))"
  using assms(1,3)
proof (induction us arbitrary: s)
  case Nil
  then have "sendToAll q W (map (\<lambda>(u, st). [g, u, st]) []) m s = (Ret (), s\<lparr>m_db := m_db s, m_server := m_server s\<rparr>)"
    by (simp add: sendToAll_def prog_simps)
  with Nil(1) show ?case
    unfolding sends_to_def by (intro exI [of _ "m_db s"] exI [of _ "m_server s"]) (simp add: m_abs_def)
next
  case (Cons x us)
  obtain u st where x: "x = (u, st)" by fastforce
  obtain d sv where one: "trySend q W u m s = (Ret (), s\<lparr>m_db := d, m_server := sv\<rparr>)" "db_ok ok A d"
    "(view (A d), sv) = deliver W (m_online_opposite s) m u (m_abs A s)"
    using trySend_sends [OF Cons.prems(1) _ assms(2), of u W] Cons.prems(2) x by (auto simp: sends_to_def)
  let ?s = "s\<lparr>m_db := d, m_server := sv\<rparr>"
  have "sends_to ok A (sendToAll q W (map (\<lambda>(u, st). [g, u, st]) us) m) ?s
      (fold (deliver W (m_online_opposite s) m) (map fst us) (m_abs A ?s))"
    using Cons.IH [of ?s] Cons.prems(2) one(2) by fastforce
  moreover have "sendToAll q W (map (\<lambda>(u, st). [g, u, st]) (x # us)) m s =
      sendToAll q W (map (\<lambda>(u, st). [g, u, st]) us) m ?s"
    using one(1) x by (simp add: sendToAll_def cell_at_def prog_simps)
  ultimately show ?case using one(3) x by (auto simp: sends_to_def m_abs_def)
qed

text \<open>The members of a group get a message.\<close>

lemma announce_run:
  assumes ok: "db_ok ok A (m_db s)" and "is_code g" and "safe_text m"
    and safe: "\<And>u. u \<in> members_of (view (A (m_db s))) (code_val g) \<Longrightarrow> safe_text u"
  shows "\<exists>y. sends_to ok A (bnd (on_groups (getAllUsersInGroup q g)) (\<lambda>data. sendToAll q W data m)) s y \<and>
    announced W (m_online_opposite s) m (members_of (view (A (m_db s))) (code_val g)) (m_abs A s) y"
proof -
  let ?v = "view (A (m_db s))" and ?k = "code_val g" and ?d = "after q (sql_users_in_group g) (m_db s)"
  let ?s = "s\<lparr>m_db := ?d\<rparr>"
  have dok: "db_ok ok A (database (get_groups s))" and dbs: "database (get_groups s) = m_db s"
    using ok by (simp_all add: get_groups_def)
  obtain us where us: "getAllUsersInGroup q g (get_groups s) =
      (Ret (map (\<lambda>(u, st). [to_string ?k, u, st]) us), (get_groups s)\<lparr>database := ?d\<rparr>)"
    "distinct us" "set us = {(u, st). status_of ?v ?k u = Some st}"
    using getAllUsersInGroup_run(1) [OF dok assms(2)] unfolding dbs by blast
  have v: "view (A ?d) = ?v" and ok': "db_ok ok A ?d"
    using getAllUsersInGroup_run(2,3) [OF dok assms(2)] by (simp_all add: dbs)
  have read: "on_groups (getAllUsersInGroup q g) s = (Ret (map (\<lambda>(u, st). [to_string ?k, u, st]) us), ?s)"
    using us(1) by (simp add: zoom_def put_groups_def get_groups_def)
  have "sends_to ok A (sendToAll q W (map (\<lambda>(u, st). [to_string ?k, u, st]) us) m) ?s
      (fold (deliver W (m_online_opposite s) m) (map fst us) (m_abs A ?s))"
    using sendToAll_sends [of ?s m us] ok' assms(3) safe us(3) by (auto simp: members_of_def)
  then have sends: "sends_to ok A (bnd (on_groups (getAllUsersInGroup q g)) (\<lambda>data. sendToAll q W data m)) s
      (fold (deliver W (m_online_opposite s) m) (map fst us) (m_abs A s))"
    using read v by (simp add: sends_to_def m_abs_def bnd_def)
  have inj: "inj_on fst (set us)" by (auto simp: inj_on_def us(3))
  have "distinct (map fst us)" using us(2) inj by (simp add: distinct_map)
  moreover have "set (map fst us) = members_of ?v ?k" by (force simp: us(3) members_of_def)
  ultimately show ?thesis using sends unfolding announced_def by blast
qed

end

section \<open>Clients that have gone\<close>

definition go_offline ::
  "int \<Rightarrow> (int \<Rightarrow> string option) \<times> (string \<Rightarrow> int option) \<Rightarrow> (int \<Rightarrow> string option) \<times> (string \<Rightarrow> int option)" where
  "go_offline sock x = ((fst x)(sock := None), (case fst x sock of None \<Rightarrow> snd x | Some u \<Rightarrow> (snd x)(u := None)))"

text \<open>\<open>settled\<close>: the state when the clients that have gone are logged out, in the order of the queue.\<close>

definition settled :: "('db, 'n) manager \<Rightarrow> ('db, 'n) manager" where
  "settled s = (let x = fold go_offline (disconnected_sockets (m_server s)) (online_of s) in
     s\<lparr>m_online := fst x, m_online_opposite := snd x, m_server := (m_server s)\<lparr>disconnected_sockets := []\<rparr>\<rparr>)"

lemma fold_offline:
  "fst (fold go_offline ds x) = (\<lambda>sock. if sock \<in> set ds then None else fst x sock)"
  by (induction ds arbitrary: x) (auto simp: go_offline_def fun_eq_iff)

lemma settled_simps [simp]:
  "m_db (settled s) = m_db s" "groups_mtx (settled s) = groups_mtx s" "lists_mtx (settled s) = lists_mtx s"
  "threads (settled s) = threads s" "m_server (settled s) = (m_server s)\<lparr>disconnected_sockets := []\<rparr>"
  "online_of (settled s) = fold go_offline (disconnected_sockets (m_server s)) (online_of s)"
  "m_online (settled s) = (\<lambda>sock. if sock \<in> set (disconnected_sockets (m_server s)) then None else m_online s sock)"
  by (simp_all add: settled_def Let_def online_of_def) (simp add: fold_offline cong: if_cong)

lemma settled_already: "disconnected_sockets (m_server s) = [] \<Longrightarrow> settled s = s"
  by (simp add: settled_def online_of_def)

lemma drop_turn_run:
  assumes "disconnected_sockets (m_server s) = sock # rest"
  shows "\<exists>t. drop_turn u s = (Ret (), t) \<and> disconnected_sockets (m_server t) = rest \<and> settled t = settled s"
proof (cases "m_online s sock")
  case None
  then have "(m_online s)(sock := None) = m_online s" by auto
  then show ?thesis using assms None
    by (simp add: drop_turn_def prog_simps settled_def Let_def online_of_def go_offline_def)
next
  case (Some name)
  then show ?thesis
    using assms by (simp add: drop_turn_def Logout_sock_def prog_simps put_users_def get_users_def put_offline_def
        settled_def Let_def online_of_def go_offline_def)
qed

lemma drops_settle: "while_do (\<lambda>s. disconnected_sockets (m_server s) \<noteq> []) drop_turn () s = (Ret (), settled s)"
proof (induction "disconnected_sockets (m_server s)" arbitrary: s)
  case Nil
  then show ?case by (simp add: while_do_stop settled_already)
next
  case (Cons sock rest)
  note queue = Cons.hyps(2) [symmetric]
  from drop_turn_run [OF this] obtain t where t: "drop_turn () s = (Ret (), t)"
    "disconnected_sockets (m_server t) = rest" "settled t = settled s" by blast
  from Cons.hyps(1) [OF t(2) [symmetric]] t(3) show ?case
    using queue t(1) by (auto intro: while_do_step)
qed

text \<open>So a packet finds the state without them.\<close>

lemma handler_settles:
  "message_handler q W now msg i s = message_handler q W now msg i (settled s)"
  by (simp add: message_handler_def prog_simps drops_settle settled_already)

section \<open>The handler of a user who is online\<close>

fun error_reply :: "cxx_exn \<Rightarrow> string" where
  "error_reply (Own ex) = ''@500|'' @ what_text ex @ ''||''"
| "error_reply (Std e) = ''@500|'' @ ''Unknown Error||''"

text \<open>How the handler ends, and in which state, when the request ends in \<open>(r, t)\<close>.\<close>

definition replied ::
  "'n winsock \<Rightarrow> int \<Rightarrow> nat \<Rightarrow> (cxx_exn, unit) outcome \<times> ('db, 'n) manager \<Rightarrow>
   (cxx_exn, unit) outcome \<times> ('db, 'n) manager" where
  "replied W sock i x = (case x of
     (Ret _, t) \<Rightarrow> (Ret (), t\<lparr>threads := (threads t)[i := False]\<rparr>)
   | (Throw e, t) \<Rightarrow> (Ret (), t\<lparr>m_server := snd (sendMessage W sock (error_reply e) (m_server t)),
       threads := (threads t)[i := False]\<rparr>)
   | (r, t) \<Rightarrow> (r, t))"

lemma catching_replied:
  "thn (catching W sock m) (modify (\<lambda>s. s\<lparr>threads := (threads s)[i := False]\<rparr>)) s = replied W sock i (m s)"
proof -
  obtain r t where m: "m s = (r, t)" by fastforce
  have send: "on_server (sendMessage W sock x) t = (Ret (), t\<lparr>m_server := snd (sendMessage W sock x (m_server t))\<rparr>)" for x
    using send_returns [of W sock x "m_server t"]
    by (cases "sendMessage W sock x (m_server t)") (simp add: zoom_def put_server_def)
  show ?thesis
  proof (cases r)
    case (Throw e)
    then show ?thesis by (cases e) (simp_all add: catching_def replied_def m send thn_def bnd_def prog_simps)
  qed (simp_all add: catching_def replied_def m thn_def bnd_def prog_simps)
qed

lemma settled_handler:
  assumes "disconnected_sockets (m_server s) = []"
  shows "message_handler q W now msg i s = replied W (getSocket msg) i (code_handler q W now msg s)"
  unfolding message_handler_def using assms
  by (simp add: prog_simps while_do_stop flip: catching_replied)

text \<open>Every handler: what the packet does to the settled state, and what becomes of its exceptions.\<close>

lemma handler_replied:
  "message_handler q W now msg i s = replied W (getSocket msg) i (code_handler q W now msg (settled s))"
  by (subst handler_settles) (simp add: settled_handler)

lemma online_handler:
  assumes "Parser_ctor (getMessage msg) = Ret p" and "m_online s (getSocket msg) = Some u"
    and "disconnected_sockets (m_server s) = []"
  shows "message_handler q W now msg i s =
    replied W (getSocket msg) i (dispatch q W now (getMsgCode p) (getSocket msg) u (getArguments p) s)"
proof -
  have "on_users (getUsername (getSocket msg)) s = (Ret u, s)"
    using assms(2) by (simp add: prog_simps)
  then have "code_handler q W now msg s = dispatch q W now (getMsgCode p) (getSocket msg) u (getArguments p) s"
    using assms(1,2) by (simp add: code_handler_def Let_def prog_simps)
  then show ?thesis by (simp add: settled_handler [OF assms(3)])
qed

section \<open>A request and its announcement\<close>

text \<open>
  \<open>request_done\<close>: when a component ends with \<open>(r, v)\<close>, the handler announces \<open>text\<close> to the users \<open>U\<close> and
  then to the names \<open>also\<close>, or reports the exception to the sender, or ends as badly as the component; nobody
  comes or goes, and the mutexes are as the component leaves them (\<open>lk\<close>).
\<close>

definition request_done ::
  "('db \<Rightarrow> store) \<Rightarrow> 'n winsock \<Rightarrow> ('db, 'n) manager \<Rightarrow> int \<Rightarrow> string \<Rightarrow> string set \<Rightarrow> string list \<Rightarrow>
   (cxx_exn, unit) outcome \<times> ilist \<Rightarrow> bool \<times> bool \<Rightarrow> (cxx_exn, unit) outcome \<times> ('db, 'n) manager \<Rightarrow> bool" where
  "request_done A W s sock text U also x lk y \<longleftrightarrow> m_rest (snd y) = (online_of s, lk) \<and> (case x of
     (Ret _, v) \<Rightarrow> fst y = Ret () \<and>
       (\<exists>z. announced W (m_online_opposite s) text U (v, m_server s) z \<and>
         m_abs A (snd y) = fold (deliver W (m_online_opposite s) text) also z)
   | (Throw e, v) \<Rightarrow> fst y = Ret () \<and>
       m_abs A (snd y) = (v, snd (sendMessage W sock (error_reply e) (m_server s)))
   | (r, v) \<Rightarrow> fst y = r \<and> m_abs A (snd y) = (v, m_server s))"

text \<open>A program of a component that the handler runs, ending with \<open>r\<close>, tables \<open>v\<close> and mutexes \<open>lk\<close>.\<close>

definition part_ends ::
  "('db \<Rightarrow> bool) \<Rightarrow> ('db \<Rightarrow> store) \<Rightarrow> (cxx_exn, ('db, 'n) manager, 'a) prog \<Rightarrow> ('db, 'n) manager \<Rightarrow>
   (cxx_exn, 'a) outcome \<Rightarrow> ilist \<Rightarrow> bool \<times> bool \<Rightarrow> bool" where
  "part_ends ok A m s r v lk \<longleftrightarrow> (\<exists>t. m s = (r, t) \<and> db_ok ok A (m_db t) \<and> view (A (m_db t)) = v \<and>
     m_server t = m_server s \<and> m_rest t = (online_of s, lk))"

lemma part_of_refines:
  assumes "refines (g_ok ok A) (g_abs A) m M" and "db_ok ok A (m_db s)"
  shows "part_ends ok A (on_lists m) s (fst (M \<lparr>database = view (A (m_db s)), mtx = lists_mtx s\<rparr>))
      (database (snd (M \<lparr>database = view (A (m_db s)), mtx = lists_mtx s\<rparr>))) (groups_mtx s, mtx (snd (M \<lparr>database = view (A (m_db s)), mtx = lists_mtx s\<rparr>)))"
    and "part_ends ok A (on_groups m) s (fst (M \<lparr>database = view (A (m_db s)), mtx = groups_mtx s\<rparr>))
      (database (snd (M \<lparr>database = view (A (m_db s)), mtx = groups_mtx s\<rparr>))) (mtx (snd (M \<lparr>database = view (A (m_db s)), mtx = groups_mtx s\<rparr>)), lists_mtx s)"
proof -
  have run: "\<exists>g'. m g = (fst (M (g_abs A g)), g') \<and> db_ok ok A (database g') \<and>
      view (A (database g')) = database (snd (M (g_abs A g))) \<and> mtx g' = mtx (snd (M (g_abs A g)))" if "database g = m_db s" for g
    using assms that by (elim refinesE [where s = g]) (auto simp: g_ok_def g_abs_def dest: arg_cong [where f = database] arg_cong [where f = mtx])
  show "part_ends ok A (on_lists m) s (fst (M \<lparr>database = view (A (m_db s)), mtx = lists_mtx s\<rparr>))
      (database (snd (M \<lparr>database = view (A (m_db s)), mtx = lists_mtx s\<rparr>))) (groups_mtx s, mtx (snd (M \<lparr>database = view (A (m_db s)), mtx = lists_mtx s\<rparr>)))"
    using run [of "get_lists s"] by (auto simp: part_ends_def zoom_def get_lists_def put_lists_def g_abs_def m_rest_def online_of_def)
  show "part_ends ok A (on_groups m) s (fst (M \<lparr>database = view (A (m_db s)), mtx = groups_mtx s\<rparr>))
      (database (snd (M \<lparr>database = view (A (m_db s)), mtx = groups_mtx s\<rparr>))) (mtx (snd (M \<lparr>database = view (A (m_db s)), mtx = groups_mtx s\<rparr>)), lists_mtx s)"
    using run [of "get_groups s"] by (auto simp: part_ends_def zoom_def get_groups_def put_groups_def g_abs_def m_rest_def online_of_def)
qed

lemma request_fails:
  assumes "part_ends ok A m s r v lk" and "r \<noteq> Ret ()"
  shows "request_done A W s sock text U also (r, v) lk (replied W sock i (thn m n s))"
  using assms by (cases r) (auto simp: part_ends_def request_done_def replied_def thn_def bnd_def m_abs_def)

context sql_query
begin

lemma request_announces:
  assumes part: "part_ends ok A m s r v lk" and "is_code g" and "safe_text text"
    and safe: "\<And>u. u \<in> U \<Longrightarrow> safe_text u" and U: "r = Ret () \<Longrightarrow> members_of v (code_val g) = U"
  shows "request_done A W s sock text U [] (r, v) lk
      (replied W sock i (thn m (bnd (on_groups (getAllUsersInGroup q g)) (\<lambda>data. sendToAll q W data text)) s))"
    and "safe_text n \<Longrightarrow> request_done A W s sock text U [n] (r, v) lk
      (replied W sock i (thn m (bnd (on_groups (getAllUsersInGroup q g))
         (\<lambda>data. thn (sendToAll q W data text) (trySend q W n text))) s))"
proof -
  let ?say = "bnd (on_groups (getAllUsersInGroup q g)) (\<lambda>data. sendToAll q W data text)"
  have join: "bnd (on_groups (getAllUsersInGroup q g)) (\<lambda>data. thn (sendToAll q W data text) (trySend q W n text)) =
      thn ?say (trySend q W n text)" by (simp add: thn_def bnd_assoc)
  have "request_done A W s sock text U [] (r, v) lk (replied W sock i (thn m ?say s)) \<and>
      (safe_text n \<longrightarrow> request_done A W s sock text U [n] (r, v) lk
        (replied W sock i (thn m (thn ?say (trySend q W n text)) s)))"
  proof (cases "r = Ret ()")
    case True
    obtain t where t: "m s = (Ret (), t)" "db_ok ok A (m_db t)" "view (A (m_db t)) = v" "m_server t = m_server s"
      "m_online_opposite t = m_online_opposite s" "m_rest t = (online_of s, lk)"
      using part True by (auto simp: part_ends_def m_rest_def online_of_def)
    have "safe_text u" if "u \<in> members_of (view (A (m_db t))) (code_val g)" for u
      using that safe U [OF True] t(3) by simp
    from announce_run [OF t(2) assms(2,3) this, where W = W]
    obtain y where "sends_to ok A ?say t y" and told: "announced W (m_online_opposite s) text U (v, m_server s) y"
      using t(3-5) U [OF True] by (auto simp: m_abs_def)
    then obtain d sv where d: "?say t = (Ret (), t\<lparr>m_db := d, m_server := sv\<rparr>)" "db_ok ok A d" "(view (A d), sv) = y"
      by (auto simp: sends_to_def)
    let ?t = "t\<lparr>m_db := d, m_server := sv\<rparr>"
    have "request_done A W s sock text U [] (r, v) lk (replied W sock i (thn m ?say s))"
      using t(1,6) d told True by (cases y) (simp add: request_done_def replied_def thn_def bnd_def m_abs_def)
    moreover have "request_done A W s sock text U [n] (r, v) lk (replied W sock i (thn m (thn ?say (trySend q W n text)) s))"
      if "safe_text n"
    proof -
      have "db_ok ok A (m_db ?t)" using d(2) by simp
      from trySend_sends [OF this that assms(3), where W = W]
      obtain e sw where e: "trySend q W n text ?t = (Ret (), ?t\<lparr>m_db := e, m_server := sw\<rparr>)"
        "(view (A e), sw) = deliver W (m_online_opposite s) text n y"
        using t(5) d(3) by (auto simp: sends_to_def m_abs_def)
      have "request_done A W s sock text U [n] (r, v) lk (replied W sock i (Ret (), ?t\<lparr>m_db := e, m_server := sw\<rparr>))"
        using told e(2) t(6) True by (cases y) (auto simp: request_done_def replied_def m_abs_def)
      moreover have "thn m (thn ?say (trySend q W n text)) s = (Ret (), ?t\<lparr>m_db := e, m_server := sw\<rparr>)"
        using t(1) d(1) e(1) by (simp add: thn_def bnd_def)
      ultimately show ?thesis by (simp only:)
    qed
    ultimately show ?thesis by blast
  qed (simp add: request_fails [OF part])
  then show "request_done A W s sock text U [] (r, v) lk (replied W sock i (thn m ?say s))"
    "safe_text n \<Longrightarrow> request_done A W s sock text U [n] (r, v) lk
      (replied W sock i (thn m (bnd (on_groups (getAllUsersInGroup q g))
         (\<lambda>data. thn (sendToAll q W data text) (trySend q W n text))) s))"
    unfolding join by blast+
qed

end

section \<open>The requests about items\<close>

text \<open>How many arguments a request has, which code its notice has, and what it does to the tables.\<close>

definition list_arity :: "int \<Rightarrow> nat" where
  "list_arity code = (if code = LST_ADD_ITEM then 4 else if code = LST_REMOVE_ITEM then 2 else 5)"

definition list_notice :: "int \<Rightarrow> int" where
  "list_notice code = (if code = LST_ADD_ITEM then LST_SCC_ADD_ITEM
     else if code = LST_REMOVE_ITEM then LST_SCC_REMOVE_ITEM else LST_SCC_SET_ITEM)"

definition spec_list_request ::
  "string \<Rightarrow> int \<Rightarrow> string list \<Rightarrow> ilist guarded \<Rightarrow> (cxx_exn, unit) outcome \<times> ilist guarded" where
  "spec_list_request u code args s =
     (if length args \<noteq> list_arity code then (Throw (Own WrongArgumentsNumberException), s)
      else if code = LST_ADD_ITEM then spec_addItem u (code_val (args ! 0)) (args ! 1) (args ! 2) (args ! 3) s
      else if code = LST_REMOVE_ITEM then spec_removeItem u (code_val (args ! 0)) (args ! 1) s
      else spec_updateItem u (code_val (args ! 0)) (args ! 1) (args ! 2) (args ! 3) (args ! 4) s)"

lemma list_specs_members:
  "members_tab (database (snd (spec_addItem u k i n m s))) = members_tab (database s)"
  "members_tab (database (snd (spec_removeItem u k i s))) = members_tab (database s)"
  "members_tab (database (snd (spec_updateItem u k key i n m s))) = members_tab (database s)"
  by (simp_all add: spec_addItem_def spec_removeItem_def spec_updateItem_def spec_writer_def locked_def Let_def
      set_item_def drop_item_def change_item_def split: option.split sum.split)

lemma request_refused:
  "request_done A W s sock text U also (Throw e, view (A (m_db s))) (groups_mtx s, lists_mtx s) (replied W sock i (Throw e, s))"
  by (simp add: request_done_def replied_def m_abs_def m_rest_def online_of_def)

context sql_query
begin

lemma list_request:
  assumes inv: "server_inv ok A s" and code: "code \<in> {LST_ADD_ITEM, LST_REMOVE_ITEM, LST_SET_ITEM}"
    and args: "safe_row args" "numeric_args code args" and u: "safe_text u"
    and spec: "spec_list_request u code args \<lparr>database = view (A (m_db s)), mtx = lists_mtx s\<rparr> = (r, g)"
  shows "request_done A W s sock (makeReceive_args (list_notice code) args)
    (members_of (view (A (m_db s))) (code_val (args ! 0))) [] (r, database g) (groups_mtx s, mtx g)
    (replied W sock i (dispatch q W now code sock u args s))"
proof (cases "length args = list_arity code")
  case len: True
  let ?g = "\<lparr>database = view (A (m_db s)), mtx = lists_mtx s\<rparr>" and ?k = "code_val (args ! 0)"
  have ok: "db_ok ok A (m_db s)" and safe: "safe_view (view (A (m_db s)))"
    using inv by (simp_all add: server_with_def db_inv_def)
  have arg: "safe_text (args ! j)" if "j < list_arity code" for j
    using safe_args [OF args(1)] len that by simp
  have g: "is_code (args ! 0)"
    using args(2) code len by (auto simp: numeric_args_def list_arity_def split: if_splits)
  have announced: "request_done A W s sock (makeReceive_args (list_notice code) args) (members_of (view (A (m_db s))) ?k) []
      (fst (M ?g), database (snd (M ?g))) (groups_mtx s, mtx (snd (M ?g)))
      (replied W sock i (thn (on_lists m) (bnd (on_groups (getAllUsersInGroup q (args ! 0)))
         (\<lambda>data. sendToAll q W data (makeReceive_args (list_notice code) args))) s))"
    if "refines (g_ok ok A) (g_abs A) m M" and "members_tab (database (snd (M ?g))) = members_tab (database ?g)" for m M
    by (rule request_announces(1) [OF part_of_refines(1) [OF that(1) ok] g])
       (use args(1) safe_viewD(2) [OF safe] that(2) in \<open>auto simp: members_of_def\<close>)
  note defs = dispatch_def do_add_item_def do_remove_item_def do_set_item_def need_args_def list_arity_def
    list_notice_def spec_list_request_def
  consider "code = LST_ADD_ITEM" | "code = LST_REMOVE_ITEM" | "code = LST_SET_ITEM" using code by blast
  then show ?thesis
  proof cases
    case 1
    then have "is_code (args ! 2)" using args(2) len by (simp add: numeric_args_def list_arity_def)
    from announced [OF addItem_refines [OF g u arg [of 1] this arg [of 3]] list_specs_members(1)] 1 len spec
    show ?thesis by (simp add: defs)
  next
    case 2
    from announced [OF removeItem_refines [OF g u arg [of 1]] list_specs_members(2)] 2 len spec
    show ?thesis by (simp add: defs)
  next
    case 3
    from announced [OF updateItem_refines [OF g u arg [of 1] arg [of 2] arg [of 4], where n = "args ! 3"]
        list_specs_members(3)] 3 len spec
    show ?thesis by (simp add: defs)
  qed
next
  case False
  then have "(r, g) = (Throw (Own WrongArgumentsNumberException), \<lparr>database = view (A (m_db s)), mtx = lists_mtx s\<rparr>)"
    using spec by (simp add: spec_list_request_def)
  moreover have "dispatch q W now code sock u args s = (Throw (Own WrongArgumentsNumberException), s)"
    using False code
    by (auto simp: dispatch_def do_add_item_def do_remove_item_def do_set_item_def need_args_def list_arity_def prog_simps)
  ultimately show ?thesis by (simp add: request_refused)
qed

end

section \<open>The requests about members\<close>

definition group_arity :: "int \<Rightarrow> nat" where
  "group_arity code = (if code = GR_SET_STATUS then 3 else if code = GR_REMOVE_USER then 2 else 1)"

definition group_notice :: "int \<Rightarrow> int" where
  "group_notice code = (if code = GR_SET_STATUS then PGM_CTR_STATUS_CHANGED
     else if code = GR_REMOVE_USER then PGM_CTR_USER_LEAVE else PGM_CTR_GROUP_CLOSED)"

text \<open>Who is told: the members, without the one who is removed; and then, after a removal, whoever has
  the code of the group as a name.\<close>

definition group_audience :: "int \<Rightarrow> string list \<Rightarrow> ilist \<Rightarrow> string set" where
  "group_audience code args v = (if code = GR_REMOVE_USER then members_of v (code_val (args ! 0)) - {args ! 1}
     else members_of v (code_val (args ! 0)))"

definition group_also :: "int \<Rightarrow> string list \<Rightarrow> string list" where
  "group_also code args = (if code = GR_REMOVE_USER then [args ! 0] else [])"

definition spec_group_request ::
  "string \<Rightarrow> int \<Rightarrow> string list \<Rightarrow> ilist guarded \<Rightarrow> (cxx_exn, unit) outcome \<times> ilist guarded" where
  "spec_group_request u code args s =
     (if length args \<noteq> group_arity code then (Throw (Own WrongArgumentsNumberException), s)
      else if code = GR_CLOSE_GROUP then spec_removeGroup u (code_val (args ! 0)) s
      else if users_tab (database s) (args ! 1) = None then (Throw (Own WrongUsernameException), s)
      else if code = GR_SET_STATUS then spec_setUserStatus u (code_val (args ! 0)) (args ! 1) (args ! 2) s
      else spec_removeUser u (code_val (args ! 0)) (args ! 1) s)"

lemma group_specs_members:
  "spec_setUserStatus e k u n s = (Ret (), g) \<Longrightarrow> members_of (database g) k = members_of (database s) k"
  "spec_removeUser e k u s = (Ret (), g) \<Longrightarrow> members_of (database g) k = members_of (database s) k - {u}"
  by (auto simp: spec_setUserStatus_def spec_removeUser_def locked_def Let_def members_of_def set_member_def
      drop_member_def set_count_def split: option.splits sum.splits if_splits)

lemma request_done_later:
  "request_done A W t sock text U names x lk y \<Longrightarrow> m_server t = m_server s \<Longrightarrow> online_of t = online_of s \<Longrightarrow>
   request_done A W s sock text U names x lk y"
  unfolding request_done_def by (cases x; cases "fst x") (auto simp: same_online [of t s])

context sql_query
begin

text \<open>The test whether a user exists leaves everything as it is.\<close>

lemma exist_run:
  assumes "db_ok ok A (m_db s)" and "safe_text u"
  obtains d where "\<forall>f :: bool \<Rightarrow> (cxx_exn, _, unit) prog.
      bnd (on_users (isExist q u)) f s = f (users_tab (view (A (m_db s))) u \<noteq> None) (s\<lparr>m_db := d\<rparr>)"
    and "db_ok ok A d" and "view (A d) = view (A (m_db s))"
proof
  let ?d = "after q (sql_exists u) (m_db s)"
  have "on_users (isExist q u) s = (Ret (users_tab (view (A (m_db s))) u \<noteq> None), s\<lparr>m_db := ?d\<rparr>)"
    using run_isExist [of "get_users s" u] assms by (simp add: zoom_def put_users_def get_users_def)
  then show "\<forall>f :: bool \<Rightarrow> (cxx_exn, _, unit) prog. bnd (on_users (isExist q u)) f s =
      f (users_tab (view (A (m_db s))) u \<noteq> None) (s\<lparr>m_db := ?d\<rparr>)"
    by (simp add: bnd_def)
  show "db_ok ok A ?d" "view (A ?d) = view (A (m_db s))" using exists_query [OF assms] by simp_all
qed

lemma status_or_removal:
  assumes inv: "server_inv ok A s" and code: "code \<in> {GR_SET_STATUS, GR_REMOVE_USER}"
    and args: "safe_row args" "is_code (args ! 0)" "length args = group_arity code" and u: "safe_text u"
    and known: "users_tab (view (A (m_db s))) (args ! 1) \<noteq> None"
    and spec: "spec_group_request u code args \<lparr>database = view (A (m_db s)), mtx = groups_mtx s\<rparr> = (r, g)"
  shows "request_done A W s sock (makeReceive_args (group_notice code) args)
    (group_audience code args (view (A (m_db s)))) (group_also code args) (r, database g) (mtx g, lists_mtx s)
    (replied W sock i (dispatch q W now code sock u args s))"
proof -
  let ?v = "view (A (m_db s))" and ?k = "code_val (args ! 0)"
  have ok: "db_ok ok A (m_db s)" and safe: "safe_view ?v"
    using inv by (simp_all add: server_with_def db_inv_def)
  have arg: "safe_text (args ! j)" if "j < group_arity code" for j
    using safe_args [OF args(1)] args(3) that by simp
  have arg1: "safe_text (args ! 1)" using arg [of 1] code by (auto simp: group_arity_def)
  obtain pwd where known: "users_tab ?v (args ! 1) = Some pwd" using known by auto
  obtain d where exists: "\<forall>f :: bool \<Rightarrow> (cxx_exn, _, unit) prog.
      bnd (on_users (isExist q (args ! 1))) f s = f (users_tab ?v (args ! 1) \<noteq> None) (s\<lparr>m_db := d\<rparr>)"
    and d: "db_ok ok A d" "view (A d) = ?v"
    using exist_run [OF ok arg1] by blast
  let ?s = "s\<lparr>m_db := d\<rparr>" and ?text = "makeReceive_args (group_notice code) args"
  have clean: "safe_text ?text" using args(1) by simp
  have members: "safe_text w" if "w \<in> members_of ?v ?k" for w
    using that safe_viewD(2) [OF safe] by (auto simp: members_of_def)
  have ok': "db_ok ok A (m_db ?s)" using d(1) by simp
  note defs = dispatch_def do_set_status_def do_remove_user_def need_args_def group_arity_def
    group_notice_def group_audience_def group_also_def
  show ?thesis
  proof (cases "code = GR_SET_STATUS")
    case True
    with args(3) have a: "safe_text (args ! 1)" "safe_text (args ! 2)" using arg by (simp_all add: group_arity_def)
    have run: "spec_setUserStatus u ?k (args ! 1) (args ! 2) \<lparr>database = ?v, mtx = groups_mtx s\<rparr> = (r, g)"
      using spec True args(3) known by (simp add: spec_group_request_def group_arity_def)
    from part_of_refines(2) [OF setUserStatus_refines [OF args(2) u a] ok']
    have part: "part_ends ok A (on_groups (setUserStatus q u (args ! 0) (args ! 1) (args ! 2))) ?s r (database g) (mtx g, lists_mtx s)"
      using run d(2) by simp
    have "request_done A W ?s sock ?text (members_of ?v ?k) [] (r, database g) (mtx g, lists_mtx s)
        (replied W sock i (thn (on_groups (setUserStatus q u (args ! 0) (args ! 1) (args ! 2)))
          (bnd (on_groups (getAllUsersInGroup q (args ! 0))) (\<lambda>data. sendToAll q W data ?text)) ?s))"
      by (rule request_announces(1) [OF part args(2) clean]) (use members run group_specs_members(1) in auto)
    then have "request_done A W ?s sock ?text (members_of ?v ?k) [] (r, database g) (mtx g, lists_mtx s)
        (replied W sock i (dispatch q W now code sock u args s))"
      using True args(3) exists known by (simp add: defs)
    from request_done_later [OF this] True show ?thesis by (simp add: defs)
  next
    case False
    then have c: "code = GR_REMOVE_USER" using code by simp
    with args(3) have a: "safe_text (args ! 1)" "safe_text (args ! 0)" using arg by (simp_all add: group_arity_def)
    have run: "spec_removeUser u ?k (args ! 1) \<lparr>database = ?v, mtx = groups_mtx s\<rparr> = (r, g)"
      using spec c args(3) known by (simp add: spec_group_request_def group_arity_def)
    from part_of_refines(2) [OF removeUser_refines [OF args(2) u a(1)] ok']
    have part: "part_ends ok A (on_groups (removeUser q u (args ! 0) (args ! 1))) ?s r (database g) (mtx g, lists_mtx s)"
      using run d(2) by simp
    have "request_done A W ?s sock ?text (members_of ?v ?k - {args ! 1}) [args ! 0] (r, database g) (mtx g, lists_mtx s)
        (replied W sock i (thn (on_groups (removeUser q u (args ! 0) (args ! 1)))
          (bnd (on_groups (getAllUsersInGroup q (args ! 0)))
            (\<lambda>data. thn (sendToAll q W data ?text) (trySend q W (args ! 0) ?text))) ?s))"
      by (rule request_announces(2) [OF part args(2) clean]) (use members a(2) run group_specs_members(2) in auto)
    then have "request_done A W ?s sock ?text (members_of ?v ?k - {args ! 1}) [args ! 0] (r, database g) (mtx g, lists_mtx s)
        (replied W sock i (dispatch q W now code sock u args s))"
      using c args(3) exists known by (simp add: defs)
    from request_done_later [OF this] c show ?thesis by (simp add: defs)
  qed
qed

text \<open>The members are looked up before the group is erased.\<close>

lemma closing:
  assumes inv: "server_inv ok A s" and args: "safe_row args" "is_code (args ! 0)" "length args = 1" and u: "safe_text u"
    and spec: "spec_removeGroup u (code_val (args ! 0)) \<lparr>database = view (A (m_db s)), mtx = groups_mtx s\<rparr> = (r, g)"
  shows "request_done A W s sock (makeReceive_args PGM_CTR_GROUP_CLOSED args)
    (members_of (view (A (m_db s))) (code_val (args ! 0))) [] (r, database g) (mtx g, lists_mtx s)
    (replied W sock i (do_close_group q W u args s))"
proof -
  let ?v = "view (A (m_db s))" and ?k = "code_val (args ! 0)" and ?d = "after q (sql_users_in_group (args ! 0)) (m_db s)"
  let ?s = "s\<lparr>m_db := ?d\<rparr>" and ?text = "makeReceive_args PGM_CTR_GROUP_CLOSED args"
  have ok: "db_ok ok A (database (get_groups s))" and dbs: "database (get_groups s) = m_db s" and safe: "safe_view ?v"
    using inv by (simp_all add: server_with_def db_inv_def get_groups_def)
  obtain us where us: "getAllUsersInGroup q (args ! 0) (get_groups s) =
      (Ret (map (\<lambda>(u, st). [to_string ?k, u, st]) us), (get_groups s)\<lparr>database := ?d\<rparr>)"
    "distinct us" "set us = {(u, st). status_of ?v ?k u = Some st}"
    using getAllUsersInGroup_run(1) [OF ok args(2)] unfolding dbs by blast
  have v: "view (A ?d) = ?v" and ok': "db_ok ok A (m_db ?s)"
    using getAllUsersInGroup_run(2,3) [OF ok args(2)] by (simp_all add: dbs)
  let ?rows = "map (\<lambda>(u, st). [to_string ?k, u, st]) us"
  have "on_groups (getAllUsersInGroup q (args ! 0)) s = (Ret ?rows, ?s)"
    using us(1) by (simp add: zoom_def put_groups_def get_groups_def)
  then have run: "do_close_group q W u args s =
      thn (on_groups (removeGroup q u (args ! 0))) (sendToAll q W ?rows ?text) ?s"
    using args(3) by (simp add: do_close_group_def need_args_def bnd_def)
  have part: "part_ends ok A (on_groups (removeGroup q u (args ! 0))) ?s r (database g) (mtx g, lists_mtx s)"
    using part_of_refines(2) [OF removeGroup_refines [OF args(2) u] ok'] spec v by simp
  have "request_done A W ?s sock ?text (members_of ?v ?k) [] (r, database g) (mtx g, lists_mtx s)
      (replied W sock i (do_close_group q W u args s))"
  proof (cases "r = Ret ()")
    case True
    obtain t where t: "on_groups (removeGroup q u (args ! 0)) ?s = (Ret (), t)" "db_ok ok A (m_db t)"
      "view (A (m_db t)) = database g" "m_server t = m_server s" "m_online_opposite t = m_online_opposite s"
      "m_rest t = (online_of s, mtx g, lists_mtx s)" using part True by (auto simp: part_ends_def m_rest_def online_of_def)
    have "sends_to ok A (sendToAll q W ?rows ?text) t
        (fold (deliver W (m_online_opposite t) ?text) (map fst us) (m_abs A t))"
      by (rule sendToAll_sends [OF t(2)]) (use args(1) us(3) safe_viewD(2) [OF safe] in auto)
    then obtain d sv where d: "sendToAll q W ?rows ?text t = (Ret (), t\<lparr>m_db := d, m_server := sv\<rparr>)"
      "(view (A d), sv) = fold (deliver W (m_online_opposite s) ?text) (map fst us) (database g, m_server s)"
      using t(3-5) by (auto simp: sends_to_def m_abs_def)
    have "inj_on fst (set us)" by (auto simp: inj_on_def us(3))
    then have "distinct (map fst us)" using us(2) by (simp add: distinct_map)
    moreover have "set (map fst us) = members_of ?v ?k" by (force simp: us(3) members_of_def)
    ultimately have "announced W (m_online_opposite s) ?text (members_of ?v ?k) (database g, m_server s) (view (A d), sv)"
      unfolding announced_def d(2) by blast
    then show ?thesis
      unfolding run using t(1,6) d(1) True by (auto simp: request_done_def replied_def m_abs_def thn_def bnd_def)
  qed (simp add: run request_fails [OF part])
  from request_done_later [OF this] show ?thesis by simp
qed

lemma group_request:
  assumes inv: "server_inv ok A s" and code: "code \<in> {GR_SET_STATUS, GR_REMOVE_USER, GR_CLOSE_GROUP}"
    and args: "safe_row args" "numeric_args code args" and u: "safe_text u"
    and spec: "spec_group_request u code args \<lparr>database = view (A (m_db s)), mtx = groups_mtx s\<rparr> = (r, g)"
  shows "request_done A W s sock (makeReceive_args (group_notice code) args)
    (group_audience code args (view (A (m_db s)))) (group_also code args) (r, database g) (mtx g, lists_mtx s)
    (replied W sock i (dispatch q W now code sock u args s))"
proof (cases "length args = group_arity code")
  case len: True
  then have g: "is_code (args ! 0)"
    using args(2) code by (auto simp: numeric_args_def group_arity_def split: if_splits)
  have ok: "db_ok ok A (m_db s)" using inv by (simp add: server_with_def db_inv_def)
  consider "code = GR_CLOSE_GROUP" | "code \<in> {GR_SET_STATUS, GR_REMOVE_USER}" "users_tab (view (A (m_db s))) (args ! 1) \<noteq> None"
    | "code \<in> {GR_SET_STATUS, GR_REMOVE_USER}" "users_tab (view (A (m_db s))) (args ! 1) = None"
    using code by blast
  then show ?thesis
  proof cases
    case 1
    then show ?thesis
      using closing [OF inv args(1) g _ u] spec len
      by (simp add: spec_group_request_def group_arity_def group_notice_def group_audience_def group_also_def dispatch_def)
  next
    case 2
    then show ?thesis using status_or_removal [OF inv _ args(1) g len u _ spec] by simp
  next
    case 3
    have "safe_text (args ! 1)" using safe_args [OF args(1), of 1] len 3(1) by (auto simp: group_arity_def)
    then obtain d where exists: "\<forall>f :: bool \<Rightarrow> (cxx_exn, _, unit) prog.
        bnd (on_users (isExist q (args ! 1))) f s = f (users_tab (view (A (m_db s))) (args ! 1) \<noteq> None) (s\<lparr>m_db := d\<rparr>)"
      and d: "view (A d) = view (A (m_db s))"
      using exist_run [OF ok] by blast
    have "dispatch q W now code sock u args s = (Throw (Own WrongUsernameException), s\<lparr>m_db := d\<rparr>)"
      using 3 len exists
      by (auto simp: dispatch_def do_set_status_def do_remove_user_def need_args_def group_arity_def prog_simps)
    moreover have "(r, g) = (Throw (Own WrongUsernameException), \<lparr>database = view (A (m_db s)), mtx = groups_mtx s\<rparr>)"
      using spec 3 len by (auto simp: spec_group_request_def)
    ultimately show ?thesis
      using request_done_later [OF request_refused [of A W "s\<lparr>m_db := d\<rparr>"], of s] d by simp
  qed
next
  case False
  then have "(r, g) = (Throw (Own WrongArgumentsNumberException), \<lparr>database = view (A (m_db s)), mtx = groups_mtx s\<rparr>)"
    using spec by (simp add: spec_group_request_def)
  moreover have "dispatch q W now code sock u args s = (Throw (Own WrongArgumentsNumberException), s)"
    using False code
    by (auto simp: dispatch_def do_set_status_def do_remove_user_def do_close_group_def need_args_def group_arity_def prog_simps)
  ultimately show ?thesis by (simp add: request_refused)
qed

end

end
