(* ===== verification/Shell.thy ===== *)
theory Shell
  imports Dispatcher
begin

text \<open>
  \<open>Program.cpp\<close>: the object with the pointer to the \<open>Manager\<close>, and its command loop.  \<open>cmds n\<close> is what
  \<open>cmd\<close> holds in turn \<open>n\<close>: the next word typed on the console or, at the end of the input, where \<open>cin\<close>
  fails and leaves \<open>cmd\<close> as it is, the word of the turn before.  A command returns the text it writes.
\<close>

datatype 'm pointer = Wild | Live 'm | Freed

record 'm program =
  m_manager :: "'m pointer"

text \<open>The constructor does not set the pointer.\<close>

definition Program_ctor :: "'m program" where
  "Program_ctor = \<lparr>m_manager = Wild\<rparr>"

text \<open>\<open>m_manager->\<dots>\<close> needs a live object.\<close>

definition on_manager :: "('e, 'm, 'a) prog \<Rightarrow> ('e, 'm program, 'a) prog" where
  "on_manager p = (\<lambda>s. case m_manager s of
     Live m \<Rightarrow> (case p m of (r, m') \<Rightarrow> (r, s\<lparr>m_manager := Live m'\<rparr>))
   | _ \<Rightarrow> (Undef, s))"

definition delete_manager ::
  "'n winsock \<Rightarrow> bool \<Rightarrow> (cxx_exn, ('db, 'n) manager program, unit) prog" where
  "delete_manager W running = thn (on_manager (Manager_dtor W running)) (modify (\<lambda>s. s\<lparr>m_manager := Freed\<rparr>))"

definition Program_dtor ::
  "'n winsock \<Rightarrow> bool \<Rightarrow> (cxx_exn, ('db, 'n) manager program, unit) prog" where
  "Program_dtor W running = delete_manager W running"

text \<open>\<open>new Manager()\<close> is stored when its constructor has returned.\<close>

definition start ::
  "('db, 'st) sqlite \<Rightarrow> 'n winsock \<Rightarrow> int \<Rightarrow> 'n server \<Rightarrow> (nat \<Rightarrow> (string \<times> race \<times> message list) option) \<Rightarrow>
   (cxx_exn, ('db, 'n) manager program, unit) prog" where
  "start S W index sv turns = (\<lambda>s. case Manager_ctor S W index sv turns of
     (Ret _, m) \<Rightarrow> (Ret (), s\<lparr>m_manager := Live m\<rparr>)
   | (Throw e, m) \<Rightarrow> (Throw e, s)
   | (Undef, m) \<Rightarrow> (Undef, s)
   | (Hang, m) \<Rightarrow> (Hang, s))"

section \<open>Commands\<close>

definition Commands_Clients :: string where "Commands_Clients = ''clients''"
definition Commands_LastPackets :: string where "Commands_LastPackets = ''packets''"
definition Commands_Stop :: string where "Commands_Stop = ''stop''"
definition Commands_Show :: string where "Commands_Show = ''show''"
definition Commands_Hide :: string where "Commands_Hide = ''hide''"
definition Commands_Clear :: string where "Commands_Clear = ''clear''"

lemmas command_defs = Commands_Clients_def Commands_LastPackets_def Commands_Stop_def Commands_Show_def
  Commands_Hide_def Commands_Clear_def

text \<open>One command: is it the last one, and what does it write?\<close>

definition shell_turn ::
  "'n winsock \<Rightarrow> bool \<Rightarrow> string \<Rightarrow> (cxx_exn, ('db, 'n) manager program, bool \<times> string) prog" where
  "shell_turn W running cmd =
     thn (if cmd = ''a'' then on_manager (thn (gets runs_free) (ret ())) else ret ())
    (if cmd = Commands_Clients then
       bnd (on_manager (gets (\<lambda>m. getClients (getServer m)))) (\<lambda>n.
         ret (False, ''clients size: '' @ to_string n @ [CHR 0x0A]))
     else if cmd = Commands_LastPackets then ret (False, [])
     else if cmd = Commands_Show then thn (on_manager (on_server (setPrintFlag True))) (ret (False, []))
     else if cmd = Commands_Hide then thn (on_manager (on_server (setPrintFlag False))) (ret (False, []))
     else if cmd = Commands_Stop then thn (delete_manager W running) (ret (True, []))
     else ret (False, []))"

text \<open>The loop; its variables are the number of the turn and what has been written so far.\<close>

definition shell ::
  "'n winsock \<Rightarrow> bool \<Rightarrow> (nat \<Rightarrow> string) \<Rightarrow> (cxx_exn, ('db, 'n) manager program, string) prog" where
  "shell W running cmds = forever (\<lambda>(n, out).
     bnd (shell_turn W running (cmds n)) (\<lambda>(stop, more).
       ret (if stop then Inr (out @ more) else Inl (Suc n, out @ more)))) (0, [])"

section \<open>The life of the program\<close>

lemma threads_handler_no_return: "fst (threads_handler q W turns s) \<noteq> Ret ()"
  unfolding threads_handler_def
  by (rule forever_no_break) (auto simp: prog_simps thn_def bnd_def split: prod.splits outcome.splits)

lemma Manager_ctor_no_return: "fst (Manager_ctor S W index sv turns) \<noteq> Ret ()"
  using threads_handler_no_return
  by (auto simp: Manager_ctor_def split: prod.split outcome.split)

lemma acceptFunction_no_return: "fst (acceptFunction W s) \<noteq> Ret ()"
  unfolding acceptFunction_def
  by (rule forever_no_break) (auto simp: prog_simps bnd_def split: prod.splits outcome.splits)

lemma Manager_dtor_no_return: "Manager_dtor W running m \<noteq> (Ret (), t)"
proof (cases running)
  case True
  then show ?thesis
    using acceptFunction_no_return [of W "m_server m"]
    by (auto simp: Manager_dtor_def join_server_def zoom_def thn_def bnd_def split: prod.splits outcome.splits)
next
  case False
  then show ?thesis
    by (auto simp: Manager_dtor_def join_server_def delete_object_def Server_dtor_def on_net_def zoom_def
        prog_simps bnd_def thn_def split: prod.split)
qed

lemma delete_no_return: "delete_manager W running s \<noteq> (Ret (), t)"
proof (cases "m_manager s")
  case (Live m)
  obtain r m' where d: "Manager_dtor W running m = (r, m')" by (metis surj_pair)
  with Manager_dtor_no_return [of W running m] have "r \<noteq> Ret ()" by auto
  with d Live show ?thesis
    by (cases r) (simp_all add: delete_manager_def on_manager_def prog_simps bnd_def thn_def)
qed (simp_all add: delete_manager_def on_manager_def prog_simps bnd_def thn_def)

lemma shell_turn_stop: "shell_turn W running cmd s \<noteq> (Ret (True, out), s')"
proof (cases "cmd = Commands_Stop")
  case True
  obtain r t where d: "delete_manager W running s = (r, t)" by (metis surj_pair)
  with delete_no_return [of W running s] have "r \<noteq> Ret ()" by auto
  with d True show ?thesis
    by (cases r) (simp_all add: shell_turn_def command_defs prog_simps bnd_def thn_def)
next
  case False
  then show ?thesis
    by (auto simp: shell_turn_def on_manager_def zoom_def setPrintFlag_def prog_simps bnd_def thn_def
        split: pointer.splits prod.splits outcome.splits if_splits)
qed

lemma start_no_return:
  "fst (start S W k sv turns pr) \<noteq> Ret ()" "snd (start S W k sv turns pr) = pr"
  using Manager_ctor_no_return [of S W k sv turns] by (auto simp: start_def split: prod.split outcome.split)

lemma shell_no_return: "fst (shell W running cmds pr) \<noteq> Ret out"
  unfolding shell_def
proof (rule forever_no_break)
  fix x s out t
  show "(\<lambda>(n, out). bnd (shell_turn W running (cmds n)) (\<lambda>(stop, more).
      ret (if stop then Inr (out @ more) else Inl (Suc n, out @ more)))) x s \<noteq> (Ret (Inr out), t)"
    by (auto simp: shell_turn_stop bnd_def prog_simps split: prod.splits outcome.splits if_splits)
qed

text \<open>Before \<open>start\<close> has stored a pointer, which it never does.\<close>

definition needs_manager :: "string \<Rightarrow> bool" where
  "needs_manager cmd \<longleftrightarrow> cmd \<in> {''a'', Commands_Clients, Commands_Show, Commands_Hide, Commands_Stop}"

lemma unstarted_turn:
  "shell_turn W running cmd Program_ctor = (if needs_manager cmd then Undef else Ret (False, []), Program_ctor)"
  by (simp add: shell_turn_def needs_manager_def command_defs on_manager_def delete_manager_def Program_ctor_def
      prog_simps bnd_def thn_def)

lemma shell_unstarted:
  fixes W :: "'n winsock"
  shows "fst (shell W running cmds (Program_ctor :: ('db, 'n) manager program)) =
    (if \<exists>n. cmds n \<in> {''a'', Commands_Clients, Commands_Show, Commands_Hide, Commands_Stop} then Undef else Hang)"
proof -
  let ?pr = "Program_ctor :: ('db, 'n) manager program"
  let ?body = "\<lambda>(n, out). bnd (shell_turn W running (cmds n)) (\<lambda>(stop, more).
      ret (if stop then Inr (out @ more) else Inl (Suc n, out @ more)))"
  have turn: "?body (n, out) ?pr =
      (if needs_manager (cmds n) then Undef else Ret (Inl (Suc n, out)), ?pr)" for n out
    by (simp add: bnd_def prog_simps unstarted_turn)
  show ?thesis
  proof (cases "\<exists>n. needs_manager (cmds n)")
    case True
    define m where "m = (LEAST n. needs_manager (cmds n))"
    have m: "needs_manager (cmds m)" using True unfolding m_def by (rule LeastI_ex)
    have good: "\<not> needs_manager (cmds n)" if "n < m" for n using that not_less_Least unfolding m_def by blast
    have "fst (forever ?body (n, out) ?pr) = Undef" if "n \<le> m" for n out
      using that
    proof (induction "m - n" arbitrary: n out)
      case 0
      with m forever_step [where body = ?body, OF turn [of n out]] show ?case by simp
    next
      case (Suc d)
      then have n: "n < m" "Suc n \<le> m" "d = m - Suc n" by simp_all
      from forever_step [where body = ?body, OF turn [of n out]] good [OF n(1)]
      have "fst (forever ?body (n, out) ?pr) = fst (forever ?body (Suc n, out) ?pr)" by simp
      then show ?case using Suc.hyps(1) [OF n(3,2), of out] by (rule trans)
    qed
    then show ?thesis using True by (auto simp: shell_def needs_manager_def)
  next
    case False
    then have go: "?body a ?pr = (Ret (Inl (Suc (fst a), snd a)), ?pr)" for a
      using turn [of "fst a" "snd a"] by (simp add: case_prod_beta)
    have "forever ?body (0, []) ?pr = (Hang, ?pr)"
      by (rule forever_goes_on [where I = "\<lambda>_ s. s = ?pr"]) (use go in blast)+
    then show ?thesis using False by (simp add: shell_def needs_manager_def)
  qed
qed

end
