(* ===== verification/ManagerProperties.thy ===== *)
theory ManagerProperties
  imports Isolation Logins Lifetimes Requests Shell ClientProperties ServerProperties
begin

text \<open>
  The properties of \<open>Manager\<close>: who may send what, what a handler does to the shared state, the
  slots of the handler threads, and the life of the program around it.
\<close>

section \<open>A small server\<close>

definition demo_manager :: "(store, nat) manager" where
  "demo_manager = new_manager 0 demo demo_server"

lemma demo_manager_simps [simp]:
  "m_db demo_manager = demo" "m_online demo_manager = Map.empty" "m_online_opposite demo_manager = Map.empty"
  "m_server demo_manager = demo_server" "threads demo_manager = replicate THREADS_MAX False"
  by (simp_all add: demo_manager_def new_manager_def)

lemma demo_disconnected [simp]: "disconnected_sockets demo_server = []"
  by (simp add: demo_server_def Server_ctor_def)

lemma demo_packet:
  assumes "\<forall>a \<in> set as. clean_arg a" and "code \<in> set ALL_MESSAGES_CODES"
  shows "Parser_ctor (getMessage (Message_ctor (makeReceive_args code as) sock)) =
    Ret \<lparr>p_message = makeReceive_args code as, p_args = as, p_msgCode = code\<rparr>"
  using Parser_ctor_packet [OF clean_args_legal [OF assms(1)] _ assms(2)] ALL_MESSAGES_CODES_range [OF assms(2)]
  by (simp add: getMessage_def Message_ctor_def makeReceive_args_packet stoi_to_string)

section \<open>Who may send what\<close>

lemma offline_run:
  assumes "Parser_ctor (getMessage msg) = Ret p" and "getMsgCode p \<notin> {EN_REGISTER, EN_LOGIN}"
    and "m_online (settled s) (getSocket msg) = None"
  shows "\<exists>t. message_handler q W now msg i s = (Ret (), t) \<and> m_db t = m_db s \<and> online_of t = online_of (settled s) \<and>
    m_server t = snd (sendMessage W (getSocket msg) ''@500|UserIsOfflineException||'' (m_server (settled s)))"
proof -
  have "code_handler q W now msg (settled s) = (Throw (Own UserIsOfflineException), settled s)"
    using assms by (simp add: code_handler_def Let_def prog_simps del: settled_simps)
  then show ?thesis by (simp add: handler_replied replied_def)
qed

text \<open>C25: A packet other than a registration or a login, from a socket that is not logged in or has been
  dropped since, reaches no component: the handler first logs out the clients that have been dropped and
  then only answers \<open>@500|UserIsOfflineException||\<close> to the sender; the database stays as it is, and the
  online users are those of before without the ones that were dropped.\<close>

theorem offline_rejected:
  assumes "Parser_ctor (getMessage msg) = Ret p" and "getMsgCode p \<notin> {EN_REGISTER, EN_LOGIN}"
    and "m_online s (getSocket msg) = None \<or> getSocket msg \<in> set (disconnected_sockets (m_server s))"
  shows "\<exists>t. message_handler q W now msg i s = (Ret (), t) \<and> m_db t = m_db s \<and>
    online_of t = fold go_offline (disconnected_sockets (m_server s)) (online_of s) \<and>
    m_server t = snd (sendMessage W (getSocket msg) ''@500|UserIsOfflineException||''
      ((m_server s)\<lparr>disconnected_sockets := []\<rparr>))"
  using offline_run [OF assms(1,2), of s q W now i] assms(3) by auto

theorem offline_rejected_witness:
  "\<exists>t. message_handler demo_q demo_ws ''now'' (Message_ctor (makeReceive_args GR_CLOSE_GROUP [''1'']) 7) 0 demo_manager =
     (Ret (), t) \<and> m_db t = demo"
  using offline_rejected [OF demo_packet [of "[''1'']" GR_CLOSE_GROUP 7], of demo_manager demo_q demo_ws "''now''" 0]
  by (auto simp: clean_arg_def ALL_MESSAGES_CODES_def getMsgCode_def Message_ctor_def)

text \<open>C26: A failed attempt logs the socket in: after a registration that is refused for its number of
  arguments, the socket is in the map of online users, under the empty name, and the check that
  protects every other request lets it pass.\<close>

theorem refused_register_logs_in:
  assumes "Parser_ctor (getMessage msg) = Ret p" and "getMsgCode p = EN_REGISTER"
    and "length (getArguments p) \<noteq> 2" and "m_online s (getSocket msg) = None"
  shows "\<exists>t. code_handler q W now msg s = (Throw (Own WrongArgumentsNumberException), t) \<and>
    m_db t = m_db s \<and> m_online t = (m_online s)(getSocket msg \<mapsto> '''') \<and>
    on_users (isLogin_sock (getSocket msg)) t = (Ret True, t)"
proof -
  have "on_users (getUsername (getSocket msg)) s =
      (Ret '''', s\<lparr>m_online := (m_online s)(getSocket msg \<mapsto> '''')\<rparr>)"
    using assms(4) by (simp add: prog_simps put_users_def get_users_def)
  then show ?thesis
    using assms(1-4) by (simp add: code_handler_def dispatch_def do_register_def need_args_def Let_def prog_simps)
qed

theorem refused_register_logs_in_witness:
  "\<exists>t. code_handler demo_q demo_ws ''now'' (Message_ctor (makeReceive_args EN_REGISTER [''lior'']) 7) demo_manager =
     (Throw (Own WrongArgumentsNumberException), t) \<and> m_online t 7 = Some ''''"
  using refused_register_logs_in [OF demo_packet [of "[''lior'']" EN_REGISTER 7], of demo_manager demo_q demo_ws "''now''"]
  by (auto simp: clean_arg_def ALL_MESSAGES_CODES_def getMsgCode_def getArguments_def Message_ctor_def getSocket_def)

section \<open>Clients that have gone\<close>

text \<open>C36: Before it looks at a packet, a handler logs out every client that has been dropped: the loop
  over the queue of disconnected sockets ends, the queue is then empty, and none of the sockets that
  were in it is online any more, while the others stay as they were.\<close>

theorem dropped_clients_logged_out:
  "\<exists>t. while_do (\<lambda>s. disconnected_sockets (m_server s) \<noteq> []) drop_turn () s = (Ret (), t) \<and>
     disconnected_sockets (m_server t) = [] \<and>
     m_online t = (\<lambda>sock. if sock \<in> set (disconnected_sockets (m_server s)) then None else m_online s sock)"
  using drops_settle [of s] by simp

section \<open>Exceptions\<close>

text \<open>C37: No exception leaves a handler, and each one is answered: when the dropped clients have been
  logged out, the handler does what the packet asks for; if that throws, whatever the packet and the
  engine, the sender gets \<open>@500|\<close> with the text of an exception of the program, or with
  \<open>Unknown Error\<close> for one of the standard library, and the handler returns with its slot cleared.\<close>

theorem handler_catches_all:
  "message_handler q W now msg i s = (case code_handler q W now msg (settled s) of
     (Ret _, t) \<Rightarrow> (Ret (), t\<lparr>threads := (threads t)[i := False]\<rparr>)
   | (Throw (Own ex), t) \<Rightarrow>
       (Ret (), t\<lparr>m_server := snd (sendMessage W (getSocket msg) (''@500|'' @ what_text ex @ ''||'') (m_server t)),
         threads := (threads t)[i := False]\<rparr>)
   | (Throw (Std e), t) \<Rightarrow>
       (Ret (), t\<lparr>m_server := snd (sendMessage W (getSocket msg) ''@500|Unknown Error||'' (m_server t)),
         threads := (threads t)[i := False]\<rparr>)
   | (Undef, t) \<Rightarrow> (Undef, t)
   | (Hang, t) \<Rightarrow> (Hang, t))"
  by (simp add: handler_replied replied_def split: prod.split outcome.split cxx_exn.split)

section \<open>Replies to users who are offline\<close>

text \<open>\<open>trySend\<close> to a name that is not online stores the message for that user and nothing else;
  to a name that is online it sends the message to the socket of that name and stores nothing.\<close>

theorem trySend_correct:
  assumes "sql_query q A ok" and "db_ok ok A (m_db s)" and "safe_text u" and "safe_text m"
  shows "\<exists>t. trySend q W u m s = (Ret (), t) \<and>
    (case m_online_opposite s u of
       None \<Rightarrow> view (A (m_db t)) = save_packet u m (view (A (m_db s))) \<and> m_server t = m_server s
     | Some sock \<Rightarrow> m_db t = m_db s \<and> m_server t = snd (sendMessage W sock m (m_server s)))"
proof (cases "m_online_opposite s u")
  case None
  note put = sql_query.insert_packet_query [OF assms(1,2,3,4)]
  have "on_db (db_query q (sql_insert_packet u m)) s = (Ret [], put_db (after q (sql_insert_packet u m) (m_db s)) s)"
    by (rule run_zoom) (rule put(1))
  moreover have "on_users (isLogin_name u) s = (Ret False, s)"
    using None by (simp add: prog_simps)
  ultimately show ?thesis
    using None put(2) by (simp add: trySend_def bnd_def prog_simps put_db_def)
next
  case (Some sock)
  then show ?thesis by (simp add: trySend_online put_server_def)
qed

theorem trySend_correct_witness:
  "\<exists>t. trySend demo_q demo_ws ''noam'' ''@200|1|milk||'' demo_manager = (Ret (), t) \<and>
     packets_tab (view (m_db t)) 1 = Some (''noam'', ''@200|1|milk||'')"
proof -
  have "db_ok wf_store id_abs (m_db demo_manager)" by (simp add: demo_ok)
  from trySend_correct [OF demo_engine this demo_names(3,11), of demo_ws]
  show ?thesis by (auto simp: save_packet_def)
qed

section \<open>Slots\<close>

lemma keeps_slots_run: "keeps_slots m \<Longrightarrow> m s = (r, t) \<Longrightarrow> threads t = threads s"
  unfolding keeps_slots_def by (metis snd_conv)

lemma dispatch_turn_cases:
  assumes "dispatch_turn q W (now, order, arrived) s = (Ret (), t)"
  obtains msg s1 where "threads s1 = threads s" and "runs_free s1 \<noteq> THREADS_MAX" and "order \<noteq> Early_null"
    and "order = Joined \<Longrightarrow> message_handler q W now msg (runs_free s1)
      (s1\<lparr>threads := (threads s1)[runs_free s1 := True]\<rparr>) = (Ret (), t)"
    and "order = Late_store \<Longrightarrow> \<exists>t'. message_handler q W now msg (runs_free s1) s1 = (Ret (), t') \<and>
      t = t'\<lparr>threads := (threads t')[runs_free s1 := True]\<rparr>"
proof -
  let ?s0 = "s\<lparr>m_server := (m_server s)\<lparr>messages := messages (m_server s) @ arrived\<rparr>\<rparr>"
  obtain r s1 where take: "on_server take_packet ?s0 = (r, s1)" by (metis surj_pair)
  with assms obtain msg where r: "r = Ret msg"
    by (cases r) (simp_all add: dispatch_turn_def thn_def bnd_def prog_simps)
  have "threads s1 = threads s" using keeps_slots_run [OF keeps_zoom(5) take] by simp
  then show thesis
    using assms take r that [of s1 msg]
    by (cases order)
       (auto simp: dispatch_turn_def store_slot_def thn_def bnd_def prog_simps
         split: if_splits prod.splits outcome.splits)
qed

lemma turn_slots:
  assumes "dispatch_turn q W (now, order, arrived) s = (Ret (), t)" and "length (threads s) = THREADS_MAX"
  shows "occupied t = occupied s + (if order = Late_store then 1 else 0) \<and> length (threads t) = THREADS_MAX"
  using assms(1)
proof (rule dispatch_turn_cases)
  fix msg s1
  assume s1: "threads s1 = threads s" "runs_free s1 \<noteq> THREADS_MAX" and order: "order \<noteq> Early_null"
    and joined: "order = Joined \<Longrightarrow> message_handler q W now msg (runs_free s1)
      (s1\<lparr>threads := (threads s1)[runs_free s1 := True]\<rparr>) = (Ret (), t)"
    and late: "order = Late_store \<Longrightarrow> \<exists>t'. message_handler q W now msg (runs_free s1) s1 = (Ret (), t') \<and>
      t = t'\<lparr>threads := (threads t')[runs_free s1 := True]\<rparr>"
  let ?i = "runs_free s1"
  have i: "?i < length (threads s)" "\<not> threads s ! ?i"
    using s1 assms(2) free_index_le [of "threads s"] free_index_free [of "threads s"]
    by (auto simp: runs_free_def le_less)
  then have clear: "(threads s)[?i := False] = threads s" by (simp add: list_update_same_conv)
  show ?thesis
  proof (cases order)
    case Joined
    from message_handler_slots [OF joined [OF this]] s1(1) clear
    have "threads t = threads s" by simp
    with Joined assms(2) show ?thesis by (simp add: occupied_def)
  next
    case Late_store
    from late [OF this] obtain t' where t': "message_handler q W now msg ?i s1 = (Ret (), t')"
      "t = t'\<lparr>threads := (threads t')[?i := True]\<rparr>" by blast
    from message_handler_slots [OF t'(1)] s1(1) clear have "threads t' = threads s" by simp
    with t'(2) Late_store occupied_update [OF i] assms(2) show ?thesis by (simp add: occupied_def)
  qed (use order in simp)
qed

lemma full_turn:
  assumes "occupied s = THREADS_MAX" and "length (threads s) = THREADS_MAX" and "messages (m_server s) @ arrived \<noteq> []"
  shows "fst (dispatch_turn q W (now, order, arrived) s) = Hang"
proof -
  let ?s0 = "s\<lparr>m_server := (m_server s)\<lparr>messages := messages (m_server s) @ arrived\<rparr>\<rparr>"
  obtain msg s1 where take: "on_server take_packet ?s0 = (Ret msg, s1)" "threads s1 = threads s"
    using assms(3) by (cases "messages (m_server s) @ arrived")
      (auto simp: take_packet_def zoom_def put_server_def prog_simps)
  have "\<forall>x \<in> set (threads s). x"
  proof (rule ccontr)
    assume "\<not> (\<forall>x \<in> set (threads s). x)"
    then have "False \<in> set (threads s)" by auto
    then have "length (filter id (threads s)) < length (threads s)" by (rule length_filter_less) simp
    with assms(1,2) show False by (simp add: occupied_def)
  qed
  then have "runs_free s1 = THREADS_MAX"
    using take(2) assms(2) free_index_full [of "threads s"] by (simp add: runs_free_def)
  with take show ?thesis by (simp add: dispatch_turn_def prog_simps thn_def bnd_def)
qed

text \<open>Turns of the loop, one after the other.\<close>

fun loop_turns ::
  "'db engine \<Rightarrow> 'n winsock \<Rightarrow> (string \<times> race \<times> message list) list \<Rightarrow> (cxx_exn, ('db, 'n) manager, unit) prog" where
  "loop_turns q W [] = ret ()"
| "loop_turns q W (turn # turns) = thn (dispatch_turn q W turn) (loop_turns q W turns)"

definition late_stores :: "(string \<times> race \<times> message list) list \<Rightarrow> nat" where
  "late_stores turns = length (filter (\<lambda>(now, order, arrived). order = Late_store) turns)"

text \<open>C35: The slots of the handler threads leak until the server stops: a turn of the dispatcher gives its
  slot back when the handler clears it after the dispatcher stored it, and keeps it for ever when
  the handler is faster than the store; so after any number of turns the slots that are taken are
  those taken before and one for each such turn.  Once every slot is taken, the next packet makes the
  dispatcher wait for ever, since it does not look for a free slot again after a wait.\<close>

theorem leaked_slots_stop_server:
  assumes "loop_turns q W turns s = (Ret (), t)" and "length (threads s) = THREADS_MAX"
  shows "occupied t = occupied s + late_stores turns \<and> late_stores turns \<le> THREADS_MAX \<and>
    (occupied t = THREADS_MAX \<longrightarrow> messages (m_server t) @ arrived \<noteq> [] \<longrightarrow>
      fst (dispatch_turn q W (now, order, arrived) t) = Hang)"
proof -
  have run: "occupied t = occupied s + late_stores turns \<and> length (threads t) = THREADS_MAX"
    using assms
  proof (induction turns arbitrary: s)
    case (Cons turn turns)
    obtain now order arrived where turn: "turn = (now, order, arrived)" using prod_cases3 by blast
    obtain r u where one: "dispatch_turn q W turn s = (r, u)" by fastforce
    then have r: "r = Ret ()" and rest: "loop_turns q W turns u = (Ret (), t)"
      using Cons.prems(1) by (auto simp: thn_def bnd_def split: outcome.splits)
    from turn_slots [OF _ Cons.prems(2)] one r turn
    have u: "occupied u = occupied s + (if order = Late_store then 1 else 0)" "length (threads u) = THREADS_MAX" by auto
    with Cons.IH [OF rest u(2)] turn show ?case by (simp add: late_stores_def)
  qed (simp add: prog_simps late_stores_def)
  moreover have "occupied t \<le> length (threads t)" by (simp add: occupied_def)
  ultimately show ?thesis using full_turn [of t] by simp
qed

theorem leaked_slots_stop_server_witness:
  "\<exists>t. loop_turns demo_q demo_ws [(''now'', Late_store, [Message_ctor (makeReceive_args GR_CLOSE_GROUP [''1'']) 7])]
     demo_manager = (Ret (), t) \<and> occupied t = 1"
proof -
  let ?msg = "Message_ctor (makeReceive_args GR_CLOSE_GROUP [''1'']) 7"
  let ?s0 = "demo_manager\<lparr>m_server := demo_server\<lparr>messages := [?msg]\<rparr>\<rparr>"
  have take: "on_server take_packet ?s0 = (Ret ?msg, demo_manager)"
    by (simp add: take_packet_def zoom_def put_server_def prog_simps demo_manager_def new_manager_def
        demo_server_def Server_ctor_def)
  obtain t' where t': "message_handler demo_q demo_ws ''now'' ?msg 0 demo_manager = (Ret (), t')"
    using offline_run [OF demo_packet [of "[''1'']" GR_CLOSE_GROUP 7], of demo_manager demo_q demo_ws "''now''" 0]
    by (auto simp: clean_arg_def ALL_MESSAGES_CODES_def getMsgCode_def Message_ctor_def)
  have "runs_free demo_manager = 0" by (simp add: runs_free_def THREADS_MAX_def numeral_eq_Suc)
  then have "dispatch_turn demo_q demo_ws (''now'', Late_store, [?msg]) demo_manager =
      (Ret (), t'\<lparr>threads := (threads t')[0 := True]\<rparr>)"
    using take t' by (simp add: dispatch_turn_def store_slot_def prog_simps thn_def bnd_def THREADS_MAX_def)
  then have turn: "loop_turns demo_q demo_ws [(''now'', Late_store, [?msg])] demo_manager =
      (Ret (), t'\<lparr>threads := (threads t')[0 := True]\<rparr>)"
    by (simp add: prog_simps)
  from leaked_slots_stop_server [OF turn] turn show ?thesis by (simp add: occupied_def late_stores_def)
qed

section \<open>Whatever packets arrive\<close>


lemma demo_server_inv: "server_inv wf_store id_abs demo_manager"
proof -
  have "safe_view (view demo)"
    unfolding safe_view_def by (auto split: if_splits simp: safe_text_def)
  then show ?thesis by (simp add: server_with_def db_inv_def demo_ok demo_inv)
qed

lemma packet_spliceable:
  assumes "\<forall>a \<in> set as. clean_arg a" and "code \<in> set ALL_MESSAGES_CODES"
    and "\<forall>a \<in> set as. CHR 0x00 \<notin> set a" and "numeric_args code as"
  shows "spliceable (getMessage (Message_ctor (makeReceive_args code as) sock))"
proof -
  have "CHR 0x00 \<notin> set (makeReceive_args code as)"
    using assms(3) by (auto simp: makeReceive_args_packet set_packet to_string_no_nul)
  moreover have "getMessage (Message_ctor m sock) = m" for m
    by (simp add: getMessage_def Message_ctor_def)
  ultimately show ?thesis
    using demo_packet [OF assms(1,2), of sock] assms(4)
    unfolding spliceable_def by (simp add: getMsgCode_def getArguments_def)
qed

lemma demo_spliceable: "spliceable (getMessage (Message_ctor (makeReceive_args GR_CLOSE_GROUP [''1'']) 7))"
  by (rule packet_spliceable) (simp_all add: clean_arg_def ALL_MESSAGES_CODES_def numeric_args_def demo_code)

definition demo_start :: "(store, nat) manager" where
  "demo_start = demo_manager\<lparr>m_server := demo_server
     \<lparr>messages := [Message_ctor (makeReceive_args GR_CLOSE_GROUP [''1'']) 7]\<rparr>\<rparr>"

lemma demo_start_simps [simp]:
  "m_db demo_start = demo" "m_online demo_start = Map.empty"
  "messages (m_server demo_start) = [Message_ctor (makeReceive_args GR_CLOSE_GROUP [''1'']) 7]"
  by (simp_all add: demo_start_def)

lemma demo_start_inv: "server_inv wf_store id_abs demo_start"
  using demo_server_inv by (simp add: server_with_def)

lemma demo_run:
  assumes "last_group (view (m_db d)) = 1" and "messages (m_server d) = messages (m_server demo_start)"
  obtains s where "(system_step demo_q demo_ws False id_abs)\<^sup>*\<^sup>* (start_system d) s"
    and "taken (t_part s) = messages (m_server demo_start)"
    and "\<forall>m \<in> set (pushed (t_part s)). spliceable (getMessage m)"
proof -
  have "room id_abs d" using assms(1) by (simp add: room_def)
  from one_packet_run [OF assms(2) [unfolded demo_start_simps] this demo_names(9), of demo_q demo_ws False Joined]
  show thesis using that demo_spliceable by (metis demo_start_simps(3) list.set_intros(1) set_ConsD empty_iff list.set(1))
qed


section \<open>Strangers\<close>

text \<open>C3: A user can do nothing to a group he is not a member of: whatever packet comes from his
  socket, and however its handler ends, name, administrator and counter of the group, its members
  with their status and its items with quantity and remarks stay as they are, as long as the
  arguments in the place of a number are numbers.\<close>

theorem strangers_change_nothing:
  assumes "sql_query q A ok" and "server_inv ok A s" and "room A s"
    and "spliceable (getMessage msg)" and "safe_text now" and "group_of (view (A (m_db s))) k \<noteq> None"
    and "\<forall>u. m_online s (getSocket msg) = Some u \<longrightarrow> status_of (view (A (m_db s))) k u = None"
  shows "group_slice k (view (A (m_db (snd (message_handler q W now msg i s))))) = group_slice k (view (A (m_db s)))"
  using sql_query.stranger_packet [OF assms(1-6)] assms(7) by blast

theorem strangers_change_nothing_witness:
  "let s = demo_manager\<lparr>m_online := [7 \<mapsto> ''gili'']\<rparr>;
     t = snd (message_handler demo_q demo_ws ''2017-01-01'' (Message_ctor (makeReceive_args GR_CLOSE_GROUP [''1'']) 7) 0 s) in
   status_of (view (m_db t)) 1 ''amit'' = Some ''admin'' \<and> item_of (view (m_db t)) 1 ''milk'' = Some (2, ''fresh'')"
proof -
  let ?s = "demo_manager\<lparr>m_online := [7 \<mapsto> ''gili'']\<rparr>"
  let ?msg = "Message_ctor (makeReceive_args GR_CLOSE_GROUP [''1'']) 7"
  have inv: "server_inv wf_store id_abs ?s"
    using demo_server_inv by (simp add: server_with_def known_name_def)
  have room: "room id_abs ?s" by (simp add: room_def)
  have away: "\<forall>u. m_online ?s (getSocket ?msg) = Some u \<longrightarrow> status_of (view (id_abs (m_db ?s))) 1 u = None"
    by (simp add: getSocket_def Message_ctor_def)
  have "group_slice 1 (view (id_abs (m_db (snd (message_handler demo_q demo_ws ''2017-01-01'' ?msg 0 ?s))))) =
      group_slice 1 (view (id_abs (m_db ?s)))"
    by (rule strangers_change_nothing [OF demo_engine inv room demo_spliceable _ _ away]) simp_all
  from slice_eqD(2) [OF this, of "''amit''"] slice_eqD(3) [OF this, of "''milk''"]
  show ?thesis unfolding Let_def demo_simps by (simp only: manager.simps demo_manager_simps) simp
qed

text \<open>C5: A member without the right to write changes no item: whatever packet comes from his socket, as long as
  the arguments in the place of a number are numbers (decimal digits, below \<open>2 ^ 63\<close>) and there is room for the code of another group,
  the items of the group stay as they are and so does his status, unless the whole group is erased,
  which any member can bring about.  A group code that is not a number gets around the check.\<close>

theorem readers_write_nothing:
  assumes "sql_query q A ok" and "server_inv ok A s" and "room A s"
    and "spliceable (getMessage msg)" and "safe_text now" and "m_online s (getSocket msg) = Some u"
    and "status_of (view (A (m_db s))) k u = Some st" and "\<not> isAuthorized (getPermission st) Perm_ReadWrite"
  shows "let v = view (A (m_db s)); w = view (A (m_db (snd (message_handler q W now msg i s)))) in
    group_of w k = None \<or> (status_of w k u = Some st \<and> (\<forall>x. item_of w k x = item_of v k x))"
  using sql_query.reader_packet [OF assms(1-7), of W i] assms(8)
  by (auto simp: items_kept_def Let_def fun_eq_iff)

theorem readers_write_nothing_witness:
  "let s = demo_manager\<lparr>m_online := [7 \<mapsto> ''noam'']\<rparr>;
     w = view (m_db (snd (message_handler demo_q demo_ws ''2017-01-01'' (Message_ctor (makeReceive_args GR_CLOSE_GROUP [''1'']) 7) 0 s))) in
   group_of w 1 = None \<or> item_of w 1 ''milk'' = Some (2, ''fresh'')"
proof -
  let ?s = "demo_manager\<lparr>m_online := [7 \<mapsto> ''noam'']\<rparr>"
  let ?msg = "Message_ctor (makeReceive_args GR_CLOSE_GROUP [''1'']) 7"
  let ?w = "view (m_db (snd (message_handler demo_q demo_ws ''2017-01-01'' ?msg 0 ?s)))"
  have inv: "server_inv wf_store id_abs ?s"
    using demo_server_inv by (simp add: server_with_def known_name_def)
  have room: "room id_abs ?s" by (simp add: room_def)
  have online: "m_online ?s (getSocket ?msg) = Some ''noam''" by (simp add: getSocket_def Message_ctor_def)
  have reader: "status_of (view (id_abs (m_db ?s))) 1 ''noam'' = Some ''r''" by simp
  have rights: "\<not> isAuthorized (getPermission ''r'') Perm_ReadWrite" by simp
  have "group_of ?w 1 = None \<or> item_of ?w 1 ''milk'' = item_of (view (m_db ?s)) 1 ''milk''"
    using readers_write_nothing [OF demo_engine inv room demo_spliceable demo_names(9) online reader rights,
        where W = demo_ws and i = 0]
    unfolding Let_def demo_simps by blast
  moreover have "item_of (view (m_db ?s)) 1 ''milk'' = Some (2, ''fresh'')" by simp
  ultimately show ?thesis unfolding Let_def by simp
qed

section \<open>Who comes online\<close>

text \<open>C4: Only a login with the right password brings a name online: after a packet whose arguments in the place of a number
  are numbers, a name other than the
  empty one is online on a socket only if it was online there before, or the packet is a login from
  that socket with the name and the password of its account.\<close>

theorem login_needs_password:
  assumes "sql_query q A ok" and "db_ok ok A (m_db s)" and "spliceable (getMessage msg)"
    and "m_online (snd (message_handler q W now msg i s)) sock = Some u" and "u \<noteq> ''''"
  shows "m_online s sock = Some u \<or>
    (sock = getSocket msg \<and> (\<exists>p pwd. Parser_ctor (getMessage msg) = Ret p \<and> getMsgCode p = EN_LOGIN \<and>
       getArguments p = [u, pwd] \<and> users_tab (view (A (m_db s))) u = Some pwd))"
  using sql_query.online_message_handler [OF assms(1,3,2), of W now i] assms(4,5)
  by (auto simp: triple_def online_ok_def logs_in_def)

text \<open>A login with the right password does log in.\<close>

lemma login_run:
  assumes "sql_query q A ok" and "db_ok ok A (m_db s)" and "safe_text u" and "safe_text p"
    and "Parser_ctor (getMessage msg) = Ret pk" and "getMsgCode pk = EN_LOGIN" and "getArguments pk = [u, p]"
    and "valid_credentials u p" and "users_tab (view (A (m_db s))) u = Some p"
    and "m_online s (getSocket msg) = None" and "disconnected_sockets (m_server s) = []"
  shows "m_online (snd (message_handler q W now msg i s)) (getSocket msg) = Some u"
proof -
  let ?sock = "getSocket msg" and ?s = "s\<lparr>m_online := (m_online s)(getSocket msg \<mapsto> '''')\<rparr>"
  have name: "on_users (getUsername ?sock) s = (Ret '''', ?s)"
    using assms(10) by (simp add: prog_simps put_users_def get_users_def)
  have ok: "u_ok ok A (get_users ?s)" using assms(2) by (simp add: u_ok_def)
  have "spec_Login ?sock u p (u_abs A (get_users ?s)) = (Ret (), put_online ?sock u (u_abs A (get_users ?s)))"
    using assms(8,9) by (simp add: spec_Login_def u_abs_def)
  from refines_run [OF sql_query.Login_refines [OF assms(1,3,4)] ok this]
  obtain c where c: "Login q ?sock u p (get_users ?s) = (Ret (), c)"
    "u_abs A c = put_online ?sock u (u_abs A (get_users ?s))" by blast
  then have maps: "online_users c ?sock = Some u" "online_users_opposite c u = Some ?sock"
    by (simp_all add: u_abs_def put_online_def)
  have "on_users (Login q ?sock u p) ?s = (Ret (), put_users c ?s)" by (rule run_zoom) (rule c(1))
  moreover have "m_online_opposite (put_users c ?s) u = Some ?sock" using maps(2) by (simp add: put_users_def)
  note trySend_online [OF this]
  ultimately have "\<exists>t. do_login q W ?sock [u, p] ?s = (Ret (), t) \<and> m_online t = online_users c"
    by (simp add: do_login_def need_args_def prog_simps put_server_def put_users_def)
  then obtain t where t: "do_login q W ?sock [u, p] ?s = (Ret (), t)" "m_online t = online_users c" by blast
  have "code_handler q W now msg s = (Ret (), t)"
    using assms(5-7,10) name t(1)
    by (simp add: code_handler_def Let_def dispatch_def EN_LOGIN_def EN_REGISTER_def prog_simps)
  then show ?thesis
    using assms(11) t(2) maps(1) by (simp add: message_handler_def catching_def prog_simps while_do_stop)
qed

theorem login_needs_password_witness:
  "let msg = Message_ctor (makeReceive_args EN_LOGIN [''gili'', ''secret4'']) 7 in
   m_online (snd (message_handler demo_q demo_ws ''now'' msg 0 demo_manager)) 7 = Some ''gili'' \<and>
   (\<exists>p pwd. Parser_ctor (getMessage msg) = Ret p \<and> getArguments p = [''gili'', pwd] \<and>
      users_tab (view demo) ''gili'' = Some pwd)"
proof -
  let ?as = "[''gili'', ''secret4'']"
  let ?msg = "Message_ctor (makeReceive_args EN_LOGIN ?as) 7"
  have clean: "\<forall>a \<in> set ?as. clean_arg a" "EN_LOGIN \<in> set ALL_MESSAGES_CODES"
    by (simp_all add: clean_arg_def ALL_MESSAGES_CODES_def)
  have sock: "getSocket ?msg = 7" by (simp add: getSocket_def Message_ctor_def)
  have ok: "db_ok wf_store id_abs (m_db demo_manager)" by (simp add: demo_ok)
  have sp: "spliceable (getMessage ?msg)"
    by (rule packet_spliceable [OF clean]) (simp_all add: numeric_args_def)
  have "m_online (snd (message_handler demo_q demo_ws ''now'' ?msg 0 demo_manager)) (getSocket ?msg) = Some ''gili''"
    by (rule login_run [OF demo_engine ok demo_names(12) _ demo_packet [OF clean], where p = "''secret4''"])
       (simp_all add: getMsgCode_def getArguments_def valid_credentials_def sock safe_text_def)
  then have online: "m_online (snd (message_handler demo_q demo_ws ''now'' ?msg 0 demo_manager)) 7 = Some ''gili''"
    by (simp only: sock)
  from login_needs_password [OF demo_engine ok sp online]
  have "\<exists>p pwd. Parser_ctor (getMessage ?msg) = Ret p \<and> getArguments p = [''gili'', pwd] \<and>
      users_tab (view demo) ''gili'' = Some pwd" by auto
  with online show ?thesis unfolding Let_def by (intro conjI) assumption+
qed

section \<open>Stored messages\<close>



section \<open>From start to start\<close>

text \<open>C7: The data stay in order over the whole life of the server, as long as the arguments in the place of a number
  are numbers (decimal digits, below \<open>2 ^ 63\<close>) in every packet and there is room for the code of another group: on a file without rows, or one
  that earlier runs of the server with such packets left when they were stopped between two steps, the constructor
  sets up a state with the invariant, every interleaving of such packets keeps it, and no account
  of the file is lost or changed.\<close>

theorem restarts_keep_data:
  assumes "sqlite_api S A ok" and "server_file S A ok W spurious db" and "life S A W spurious db index sv s"
  shows "server_inv ok A (m_part s) \<and> map_le (users_tab (view (A db))) (users_tab (view (A (m_db (m_part s)))))"
proof -
  let ?R = "\<lambda>v. map_le (users_tab (view (A db))) (users_tab v)"
  have "server_with ok A ?R (m_part s)"
    by (rule sqlite_api.life_keeps [OF assms(1,3) server_file_ok [OF assms(2)]
          sqlite_api.server_file_good [OF assms(1,2)] _ sqlite_api.accounts_spared [OF assms(1)]])
       (simp add: sqlite_api.server_file_accounts [OF assms(1,2)])
  then show ?thesis by (simp add: server_with_def)
qed

lemma demo_api: "sqlite_api ref_sqlite id_abs wf_store"
  unfolding id_abs_def by (rule ref_engine.sqlite_api_axioms)

lemma empty_file: "server_file ref_sqlite id_abs wf_store demo_ws False empty_store"
  by (rule server_file.new_file) (simp_all add: id_abs_def empty_store_def wf_store_def wf_table_def)

theorem restarts_keep_data_witness:
  "\<exists>d s t. life ref_sqlite id_abs demo_ws False empty_store 0 (m_server demo_start) s \<and> taken (t_part s) \<noteq> [] \<and>
     d = m_db (m_part s) \<and> life ref_sqlite id_abs demo_ws False d 0 (m_server demo_start) t \<and>
     group_inv (view (m_db (m_part t)))"
proof -
  let ?ws = "demo_ws :: nat winsock" and ?sv = "m_server demo_start"
  let ?run = "\<lambda>db. system_step (query (on_file ref_sqlite db)) ?ws False id_abs"
  have life: "life ref_sqlite id_abs ?ws False db 0 ?sv s"
    if "DataBase_ctor (on_file ref_sqlite db) = (Ret (), d)" and "(?run db)\<^sup>*\<^sup>* (start_system (new_manager 0 d ?sv)) s"
      and "pushed (t_part s) = messages ?sv" for db d s
    using that demo_spliceable by (simp add: life_def)
  obtain d where d: "DataBase_ctor (on_file ref_sqlite empty_store) = (Ret (), d)" "id_abs d = create_all (id_abs empty_store)"
    using sqlite_api.opened [OF demo_api server_file_ok [OF empty_file]] by blast
  have "seq (create_all empty_store) PublicGroups = 0"
    by (simp add: create_all_def create_effect_def set_rows_def empty_store_def)
  then have "room id_abs (new_manager 0 d ?sv)"
    using d(2) by (simp add: room_def new_manager_def view_def id_abs_def)
  from one_packet_run [OF _ this demo_names(9)]
  obtain s where s: "(?run empty_store)\<^sup>*\<^sup>* (start_system (new_manager 0 d ?sv)) s"
    "taken (t_part s) = messages ?sv" "pushed (t_part s) = messages ?sv"
    by (fastforce simp: new_manager_def)
  have one: "life ref_sqlite id_abs ?ws False empty_store 0 ?sv s" by (rule life [OF d(1) s(1,3)])
  let ?f = "m_db (m_part s)"
  have "wf_store ?f"
    using restarts_keep_data [OF demo_api empty_file one] by (simp add: server_with_def db_inv_def db_ok_def)
  then have again: "server_file ref_sqlite id_abs wf_store ?ws False ?f"
    using server_file.next_file [OF empty_file one] by simp
  obtain e where e: "DataBase_ctor (on_file ref_sqlite ?f) = (Ret (), e)"
    using sqlite_api.opened [OF demo_api server_file_ok [OF again]] by blast
  let ?t = "start_system (new_manager 0 e ?sv)"
  have two: "life ref_sqlite id_abs ?ws False ?f 0 ?sv ?t"
    by (rule life [OF e]) (simp_all add: start_system_def init_sys_def new_manager_def)
  have "group_inv (view (m_db (m_part ?t)))"
    using restarts_keep_data [OF demo_api again two] by (simp add: server_with_def db_inv_def)
  moreover have "taken (t_part s) \<noteq> []" using s(2) by simp
  ultimately show ?thesis using one two by blast
qed

text \<open>C27: Creating a group is not atomic: each query is a transaction of its own, and a server that is
  stopped after the first one of \<open>createGroup\<close> leaves a group without a member in the file, with a
  counter of one, which breaks the invariant.\<close>

theorem createGroup_not_atomic:
  assumes "sql_query q A ok" and "db_inv ok A d" and "last_group (view (A d)) + 1 < 2 ^ 63"
    and "safe_text now" "safe_text n" "safe_text u" and "k = last_group (view (A d)) + 1"
  shows "\<exists>d'. createGroup (cut q) now n u \<lparr>database = (d, 1), mtx = False\<rparr> = (Hang, \<lparr>database = (d', 0), mtx = True\<rparr>) \<and>
    group_of (view (A d')) k = Some \<lparr>g_name = n, g_admin = u, g_date = now, g_users = 1\<rparr> \<and>
    members_of (view (A d')) k = {} \<and> \<not> db_inv ok A d'"
proof -
  let ?i = "\<lparr>g_name = n, g_admin = u, g_date = now, g_users = 1\<rparr>"
  have d: "db_ok ok A d" "group_inv (view (A d))" using assms(2) by (simp_all add: db_inv_def)
  obtain d' where run: "createGroup (cut q) now n u \<lparr>database = (d, 1), mtx = False\<rparr> = (Hang, \<lparr>database = (d', 0), mtx = True\<rparr>)"
    and v: "view (A d') = new_group k ?i (view (A d))"
    using sql_query.createGroup_cut [OF assms(1) d assms(3-7)] by blast
  have "group_of (view (A d')) k = Some ?i" by (simp add: v new_group_def)
  moreover have "\<not> db_inv ok A d'" using new_group_breaks(2) [OF d(2) assms(7)] by (simp add: db_inv_def v)
  ultimately show ?thesis using run new_group_breaks(1) [OF d(2) assms(7)] v by auto
qed

theorem createGroup_not_atomic_witness:
  "\<exists>d'. createGroup (cut demo_q) ''2017-01-01'' ''office'' ''lior'' \<lparr>database = (demo, 1), mtx = False\<rparr> =
      (Hang, \<lparr>database = (d', 0), mtx = True\<rparr>) \<and> group_of (view d') 2 \<noteq> None \<and> members_of (view d') 2 = {}"
  using createGroup_not_atomic [OF demo_engine, of demo "''2017-01-01''" "''office''" "''lior''" 2] demo_ok demo_inv
  by (fastforce simp: db_inv_def)

section \<open>The program around it\<close>

text \<open>C39: The program cannot end.  \<open>start\<close> does not return, whatever packets come: the constructor of
  \<open>Manager\<close> runs the loop of the dispatcher, which has no exit, so the pointer is never set.  Nor does
  \<open>shell\<close>, whatever is typed: its only exit is behind the destructor of \<open>Manager\<close>.  As the pointer is not
  set, the shell ends in undefined behaviour if one of the words \<open>a\<close>, \<open>clients\<close>, \<open>show\<close>, \<open>hide\<close> and
  \<open>stop\<close> is ever typed, and otherwise reads commands for ever.\<close>

theorem program_never_returns:
  "fst (start S W k sv turns pr) \<noteq> Ret () \<and> snd (start S W k sv turns pr) = pr \<and>
   fst (shell W running cmds pr) \<noteq> Ret out \<and>
   fst (shell W running cmds Program_ctor) =
     (if \<exists>n. cmds n \<in> {''a'', Commands_Clients, Commands_Show, Commands_Hide, Commands_Stop} then Undef else Hang)"
  using start_no_return shell_no_return shell_unstarted by (intro conjI)

end
