(* ===== verification/Invitations.thy ===== *)
theory Invitations
  imports Requests
begin

text \<open>
  The request that brings a user into a group: the members are told, and the new one gets the other
  members and the items, message by message.
\<close>

section \<open>Programs that send one message after another\<close>

lemma sends_thn:
  assumes "sends_to ok A m s y"
    and "\<And>d sv. db_ok ok A d \<Longrightarrow> (view (A d), sv) = y \<Longrightarrow> sends_to ok A n (s\<lparr>m_db := d, m_server := sv\<rparr>) z"
  shows "sends_to ok A (thn m n) s z"
proof -
  obtain d sv where m: "m s = (Ret (), s\<lparr>m_db := d, m_server := sv\<rparr>)" "db_ok ok A d" "(view (A d), sv) = y"
    using assms(1) by (auto simp: sends_to_def)
  from assms(2) [OF m(2,3)] show ?thesis using m(1) by (auto simp: sends_to_def thn_def bnd_def)
qed

lemma sends_nothing: "db_ok ok A (m_db s) \<Longrightarrow> sends_to ok A (ret ()) s (m_abs A s)"
  unfolding sends_to_def by (intro exI [of _ "m_db s"] exI [of _ "m_server s"]) (simp add: prog_simps m_abs_def)

context sql_query
begin

lemma sends_each:
  assumes "db_ok ok A (m_db s)" and "safe_text u" and "\<And>x. x \<in> set xs \<Longrightarrow> safe_text (msg x)"
    and "\<And>x t. x \<in> set xs \<Longrightarrow> body x t = (if keep x then trySend q W u (msg x) t else ret () t)"
  shows "sends_to ok A (for_each body xs) s
    (fold (\<lambda>m. deliver W (m_online_opposite s) m u) (map msg (filter keep xs)) (m_abs A s))"
  using assms(1,3,4)
proof (induction xs arbitrary: s)
  case Nil
  then show ?case using sends_nothing by simp
next
  case (Cons x xs)
  have "sends_to ok A (body x) s (if keep x then deliver W (m_online_opposite s) (msg x) u (m_abs A s) else m_abs A s)"
    using trySend_sends [OF Cons.prems(1) assms(2), of "msg x" W] sends_nothing [OF Cons.prems(1)] Cons.prems(2,3)
    by (simp add: sends_to_def)
  then have "sends_to ok A (thn (body x) (for_each body xs)) s
      (fold (\<lambda>m. deliver W (m_online_opposite s) m u) (map msg (filter keep xs))
        (if keep x then deliver W (m_online_opposite s) (msg x) u (m_abs A s) else m_abs A s))"
  proof (rule sends_thn)
    fix d sv
    assume d: "db_ok ok A d" and y: "(view (A d), sv) =
      (if keep x then deliver W (m_online_opposite s) (msg x) u (m_abs A s) else m_abs A s)"
    have "sends_to ok A (for_each body xs) (s\<lparr>m_db := d, m_server := sv\<rparr>)
        (fold (\<lambda>m. deliver W (m_online_opposite s) m u) (map msg (filter keep xs)) (view (A d), sv))"
      using Cons.IH [of "s\<lparr>m_db := d, m_server := sv\<rparr>"] Cons.prems(2,3) d by (simp add: m_abs_def)
    then show "sends_to ok A (for_each body xs) (s\<lparr>m_db := d, m_server := sv\<rparr>)
        (fold (\<lambda>m. deliver W (m_online_opposite s) m u) (map msg (filter keep xs))
          (if keep x then deliver W (m_online_opposite s) (msg x) u (m_abs A s) else m_abs A s))"
      unfolding y .
  qed
  then show ?case by (cases "keep x") (simp_all add: prog_simps)
qed

text \<open>The three listings as the handler reads them.\<close>

lemma members_read:
  assumes "db_ok ok A (m_db s)" and "is_code g"
  obtains us d where "on_groups (getAllUsersInGroup q g) s = (Ret (map (\<lambda>(u, st). [to_string (code_val g), u, st]) us), s\<lparr>m_db := d\<rparr>)"
    and "distinct us" and "set us = {(u, st). status_of (view (A (m_db s))) (code_val g) u = Some st}"
    and "db_ok ok A d" and "view (A d) = view (A (m_db s))"
proof -
  have ok: "db_ok ok A (database (get_groups s))" using assms(1) by (simp add: get_groups_def)
  from getAllUsersInGroup_run [OF ok assms(2)] show thesis
    using that by (auto simp: zoom_def put_groups_def get_groups_def)
qed

lemma items_read:
  assumes "db_ok ok A (m_db s)" and "is_code g"
  obtains its d where "on_lists (getAllItemsInGroup q g) s =
      (Ret (map (\<lambda>(i, n, m). [to_string (code_val g), i, to_string n, m]) its), s\<lparr>m_db := d\<rparr>)"
    and "distinct its" and "set its = {(i, n, m). item_of (view (A (m_db s))) (code_val g) i = Some (n, m)}"
    and "db_ok ok A d" and "view (A d) = view (A (m_db s))"
proof -
  have ok: "db_ok ok A (database (get_lists s))" using assms(1) by (simp add: get_lists_def)
  from getAllItemsInGroup_run [OF ok assms(2)] show thesis
    using that by (auto simp: zoom_def put_lists_def get_lists_def)
qed

lemma name_read:
  assumes "db_ok ok A (m_db s)" and "is_code g" and "group_of (view (A (m_db s))) (code_val g) = Some i"
  obtains d where "on_groups (getGroupName q g) s = (Ret (g_name i), s\<lparr>m_db := d\<rparr>)"
    and "db_ok ok A d" and "view (A d) = view (A (m_db s))"
proof -
  have ok: "db_ok ok A (database (get_groups s))" using assms(1) by (simp add: get_groups_def)
  from run_getGroupName [OF ok assms(2)] group_name_query [OF assms(1,2)] assms(3) show thesis
    using that by (auto simp: zoom_def put_groups_def get_groups_def)
qed

end

section \<open>Inviting a user\<close>

text \<open>
  \<open>welcomed\<close>: each member, the new one among them, gets \<open>text\<close>; then the new one gets a notice for
  every other member and one for every item.
\<close>

definition member_notice :: "int \<Rightarrow> string \<times> string \<Rightarrow> string" where
  "member_notice k x = makeReceive_args PGM_CTR_NEW_USER [to_string k, fst x, snd x]"

definition item_notice :: "int \<Rightarrow> string \<times> int \<times> string \<Rightarrow> string" where
  "item_notice k x = makeReceive_args LST_SCC_ADD_ITEM [to_string k, fst x, to_string (fst (snd x)), snd (snd x)]"

definition welcomed ::
  "'n winsock \<Rightarrow> (string \<Rightarrow> int option) \<Rightarrow> int \<Rightarrow> string \<Rightarrow> string \<Rightarrow> ilist \<times> 'n server \<Rightarrow> ilist \<times> 'n server \<Rightarrow> bool" where
  "welcomed W opp k u text x y \<longleftrightarrow> (\<exists>us its. distinct us \<and> distinct its \<and>
     set us = {(w, st). status_of (fst x) k w = Some st} \<and>
     set its = {(i, n, m). item_of (fst x) k i = Some (n, m)} \<and>
     y = fold (\<lambda>m. deliver W opp m u) (map (item_notice k) its)
       (fold (\<lambda>m. deliver W opp m u) (map (member_notice k) (filter (\<lambda>w. fst w \<noteq> u) us))
         (fold (deliver W opp text) (map fst us) x)))"

lemma welcomed_members: "welcomed W opp k u text x y \<Longrightarrow> members_tab (fst y) = members_tab (fst x)"
  by (auto simp: welcomed_def deliver_keeps deliver_many_keeps)

text \<open>What the handler does after the insertion.\<close>

definition greet ::
  "'db engine \<Rightarrow> 'n winsock \<Rightarrow> string list \<Rightarrow> (cxx_exn, ('db, 'n) manager, unit) prog" where
  "greet q W args =
     bnd (on_groups (getGroupName q (args ! 0))) (\<lambda>name.
     bnd (ret (take 1 args @ [name] @ drop 1 args)) (\<lambda>args.
     bnd (on_groups (getAllUsersInGroup q (args ! 0))) (\<lambda>data.
     thn (sendToAll q W data (makeReceive_args PGM_CTR_NEW_USER args))
    (thn (for_each (\<lambda>row. bnd (cell_at row 1) (\<lambda>member.
            if args ! 2 = member then ret ()
            else trySend q W (args ! 2) (makeReceive_args PGM_CTR_NEW_USER row))) data)
    (bnd (on_lists (getAllItemsInGroup q (args ! 0))) (\<lambda>data.
     for_each (\<lambda>row. trySend q W (args ! 2) (makeReceive_args LST_SCC_ADD_ITEM row)) data))))))"

definition invite_text :: "string \<Rightarrow> string list \<Rightarrow> string" where
  "invite_text name args = makeReceive_args PGM_CTR_NEW_USER (take 1 args @ [name] @ drop 1 args)"

context sql_query
begin

lemma each_member_sends:
  assumes "db_ok ok A (m_db s)" and "safe_text u" and "\<And>w st. (w, st) \<in> set us \<Longrightarrow> safe_text w \<and> safe_text st"
  shows "sends_to ok A (for_each (\<lambda>row. bnd (cell_at row 1) (\<lambda>member.
      if u = member then ret () else trySend q W u (makeReceive_args PGM_CTR_NEW_USER row)))
      (map (\<lambda>(w, st). [to_string k, w, st]) us)) s
    (fold (\<lambda>m. deliver W (m_online_opposite s) m u) (map (member_notice k) (filter (\<lambda>w. fst w \<noteq> u) us)) (m_abs A s))"
proof -
  let ?rows = "map (\<lambda>(w, st). [to_string k, w, st]) us"
  have "sends_to ok A (for_each (\<lambda>row. bnd (cell_at row 1) (\<lambda>member.
      if u = member then ret () else trySend q W u (makeReceive_args PGM_CTR_NEW_USER row))) ?rows) s
    (fold (\<lambda>m. deliver W (m_online_opposite s) m u)
      (map (makeReceive_args PGM_CTR_NEW_USER) (filter (\<lambda>row. row ! 1 \<noteq> u) ?rows)) (m_abs A s))"
    by (rule sends_each [OF assms(1,2)])
       (use assms(3) in \<open>auto simp: cell_at_def prog_simps safe_row_def\<close>)
  moreover have "map (makeReceive_args PGM_CTR_NEW_USER) (filter (\<lambda>row. row ! 1 \<noteq> u) ?rows) =
      map (member_notice k) (filter (\<lambda>w. fst w \<noteq> u) us)"
    by (induction us) (auto simp: member_notice_def)
  ultimately show ?thesis by (simp only:)
qed

lemma each_item_sends:
  assumes "db_ok ok A (m_db s)" and "safe_text u" and "\<And>x. x \<in> set its \<Longrightarrow> safe_text (fst x) \<and> safe_text (snd (snd x))"
  shows "sends_to ok A (for_each (\<lambda>row. trySend q W u (makeReceive_args LST_SCC_ADD_ITEM row))
      (map (\<lambda>(i, n, m). [to_string k, i, to_string n, m]) its)) s
    (fold (\<lambda>m. deliver W (m_online_opposite s) m u) (map (item_notice k) its) (m_abs A s))"
proof -
  let ?rows = "map (\<lambda>(i, n, m). [to_string k, i, to_string n, m]) its"
  have "sends_to ok A (for_each (\<lambda>row. trySend q W u (makeReceive_args LST_SCC_ADD_ITEM row)) ?rows) s
    (fold (\<lambda>m. deliver W (m_online_opposite s) m u)
      (map (makeReceive_args LST_SCC_ADD_ITEM) (filter (\<lambda>_. True) ?rows)) (m_abs A s))"
    by (rule sends_each [OF assms(1,2)]) (use assms(3) in \<open>fastforce simp: safe_row_def\<close>)+
  moreover have "map (makeReceive_args LST_SCC_ADD_ITEM) (filter (\<lambda>_. True) ?rows) = map (item_notice k) its"
    by (induction its) (auto simp: item_notice_def)
  ultimately show ?thesis by (simp only:)
qed

lemma greet_sends:
  assumes ok: "db_ok ok A (m_db s)" and args: "args = [g, u, st]" "is_code g" "safe_text u" "safe_row args"
    and v: "v = view (A (m_db s))" "safe_view v" "group_of v (code_val g) = Some i"
  shows "\<exists>y. sends_to ok A (greet q W args) s y \<and>
    welcomed W (m_online_opposite s) (code_val g) u (invite_text (g_name i) args) (v, m_server s) y"
proof -
  let ?k = "code_val g" and ?opp = "m_online_opposite s" and ?text = "invite_text (g_name i) args"
  obtain d1 where name: "on_groups (getGroupName q g) s = (Ret (g_name i), s\<lparr>m_db := d1\<rparr>)"
    "db_ok ok A d1" "view (A d1) = v"
    using name_read [OF ok args(2)] v by metis
  let ?s1 = "s\<lparr>m_db := d1\<rparr>"
  have ok1: "db_ok ok A (m_db ?s1)" using name(2) by simp
  obtain us d2 where us: "on_groups (getAllUsersInGroup q g) ?s1 =
      (Ret (map (\<lambda>(u, st). [to_string ?k, u, st]) us), ?s1\<lparr>m_db := d2\<rparr>)" "distinct us"
    "set us = {(u, st). status_of v ?k u = Some st}" "db_ok ok A d2" "view (A d2) = v"
    by (rule members_read [OF ok1 args(2)]) (simp add: name(3))
  let ?s2 = "s\<lparr>m_db := d2\<rparr>"
  have safe_us: "safe_text w \<and> safe_text st'" if "(w, st') \<in> set us" for w st'
    using that us(3) safe_viewD(2) [OF v(2)] by simp
  have clean: "safe_text ?text"
    using args v(1) safe_viewD(1) [OF v(2,3)] by (simp add: invite_text_def safe_row_def)
  have "sends_to ok A (sendToAll q W (map (\<lambda>(u, st). [to_string ?k, u, st]) us) ?text) ?s2
      (fold (deliver W (m_online_opposite ?s2) ?text) (map fst us) (m_abs A ?s2))"
    by (rule sendToAll_sends) (use us(4) clean safe_us in auto)
  then obtain d3 sv3 where all: "sendToAll q W (map (\<lambda>(u, st). [to_string ?k, u, st]) us) ?text ?s2 =
      (Ret (), s\<lparr>m_db := d3, m_server := sv3\<rparr>)" "db_ok ok A d3"
    "(view (A d3), sv3) = fold (deliver W ?opp ?text) (map fst us) (v, m_server s)"
    using us(5) by (auto simp: sends_to_def m_abs_def)
  let ?s3 = "s\<lparr>m_db := d3, m_server := sv3\<rparr>"
  have ok3: "db_ok ok A (m_db ?s3)" using all(2) by simp
  from each_member_sends [OF ok3 args(3), where us = us and W = W and k = ?k, OF safe_us]
  obtain d4 sv4 where new: "for_each (\<lambda>row. bnd (cell_at row 1) (\<lambda>member.
        if u = member then ret () else trySend q W u (makeReceive_args PGM_CTR_NEW_USER row)))
        (map (\<lambda>(w, st). [to_string ?k, w, st]) us) ?s3 = (Ret (), s\<lparr>m_db := d4, m_server := sv4\<rparr>)" "db_ok ok A d4"
    "(view (A d4), sv4) = fold (\<lambda>m. deliver W ?opp m u) (map (member_notice ?k) (filter (\<lambda>w. fst w \<noteq> u) us)) (view (A d3), sv3)"
    by (auto simp: sends_to_def m_abs_def)
  let ?s4 = "s\<lparr>m_db := d4, m_server := sv4\<rparr>"
  have ok4: "db_ok ok A (m_db ?s4)" using new(2) by simp
  have "items_tab (fst (view (A d4), sv4)) = items_tab v"
    unfolding new(3) deliver_many_keeps all(3) by (simp add: deliver_keeps)
  then have tab: "items_tab (view (A d4)) = items_tab v" by simp
  obtain its d5 where its: "on_lists (getAllItemsInGroup q g) ?s4 =
      (Ret (map (\<lambda>(i, n, m). [to_string ?k, i, to_string n, m]) its), ?s4\<lparr>m_db := d5\<rparr>)" "distinct its"
    "set its = {(i, n, m). item_of v ?k i = Some (n, m)}" "db_ok ok A d5" "view (A d5) = view (A d4)"
    by (rule items_read [OF ok4 args(2)]) (simp add: tab)
  let ?s5 = "s\<lparr>m_db := d4, m_server := sv4, m_db := d5\<rparr>"
  have ok5: "db_ok ok A (m_db ?s5)" using its(4) by simp
  have "safe_text (fst x) \<and> safe_text (snd (snd x))" if "x \<in> set its" for x
    using that unfolding its(3) by (auto dest: safe_viewD(3) [OF v(2)])
  from each_item_sends [OF ok5 args(3), where its = its and W = W and k = ?k, OF this]
  obtain d6 sv6 where last: "for_each (\<lambda>row. trySend q W u (makeReceive_args LST_SCC_ADD_ITEM row))
      (map (\<lambda>(i, n, m). [to_string ?k, i, to_string n, m]) its) ?s5 = (Ret (), s\<lparr>m_db := d6, m_server := sv6\<rparr>)" "db_ok ok A d6"
    "(view (A d6), sv6) = fold (\<lambda>m. deliver W ?opp m u) (map (item_notice ?k) its) (view (A d4), sv4)"
    using its(5) by (auto simp: sends_to_def m_abs_def)
  have "greet q W args s = (Ret (), s\<lparr>m_db := d6, m_server := sv6\<rparr>)"
    using name(1) us(1) all(1) new(1) its(1) last(1)
    by (simp add: greet_def args(1) invite_text_def prog_simps cong: if_cong)
  moreover have "welcomed W ?opp ?k u ?text (v, m_server s) (view (A d6), sv6)"
    unfolding welcomed_def fst_conv last(3) new(3) all(3) using us(2,3) its(2,3) by blast
  ultimately show ?thesis using last(2) unfolding sends_to_def by blast
qed

end

text \<open>The whole request.  What \<open>addUser\<close> leaves when it returns.\<close>

definition spec_invite ::
  "string \<Rightarrow> string list \<Rightarrow> ilist guarded \<Rightarrow> (cxx_exn, unit) outcome \<times> ilist guarded" where
  "spec_invite u args s =
     (if length args \<noteq> 3 then (Throw (Own WrongArgumentsNumberException), s)
      else if users_tab (database s) (args ! 1) = None then (Throw (Own WrongUsernameException), s)
      else spec_addUser u (code_val (args ! 0)) (args ! 1) (args ! 2) s)"

lemma spec_addUser_group:
  "spec_addUser e k u st s = (Ret (), g) \<Longrightarrow> \<exists>i. group_of (database g) k = Some i"
  by (auto simp: spec_addUser_def locked_def Let_def set_count_def set_member_def
      split: option.splits sum.splits if_splits)

text \<open>\<open>invite_done\<close>: how the handler ends when \<open>spec_invite\<close> ends with \<open>(r, v)\<close> and the mutexes \<open>lk\<close>.\<close>

definition invite_done ::
  "('db \<Rightarrow> store) \<Rightarrow> 'n winsock \<Rightarrow> ('db, 'n) manager \<Rightarrow> int \<Rightarrow> string list \<Rightarrow> (cxx_exn, unit) outcome \<times> ilist \<Rightarrow> bool \<times> bool \<Rightarrow>
   (cxx_exn, unit) outcome \<times> ('db, 'n) manager \<Rightarrow> bool" where
  "invite_done A W s sock args x lk y \<longleftrightarrow>
     (if fst x = Ret () then m_rest (snd y) = (online_of s, lk) \<and> fst y = Ret () \<and> (\<exists>i. group_of (snd x) (code_val (args ! 0)) = Some i \<and>
        welcomed W (m_online_opposite s) (code_val (args ! 0)) (args ! 1) (invite_text (g_name i) args)
          (snd x, m_server s) (m_abs A (snd y)))
      else request_done A W s sock '''' {} [] x lk y)"

lemma do_invite_greets:
  "do_invite_user q W u args = need_args 3 args (bnd (on_users (isExist q (args ! 1))) (\<lambda>exists.
     if exists = False then throw_own WrongUsernameException
     else thn (on_groups (addUser q u (args ! 0) (args ! 1) (args ! 2))) (greet q W args)))"
  unfolding do_invite_user_def greet_def by (rule refl)

context sql_query
begin

lemma invite_request:
  assumes inv: "server_inv ok A s" and args: "safe_row args" "numeric_args GR_INVITE_USER args" and u: "safe_text u"
    and spec: "spec_invite u args \<lparr>database = view (A (m_db s)), mtx = groups_mtx s\<rparr> = (r, g)"
  shows "invite_done A W s sock args (r, database g) (mtx g, lists_mtx s)
    (replied W sock i (dispatch q W now GR_INVITE_USER sock u args s))"
proof -
  let ?v = "view (A (m_db s))" and ?g = "\<lparr>database = view (A (m_db s)), mtx = groups_mtx s\<rparr>"
  have ok: "db_ok ok A (m_db s)" and safe: "safe_view ?v"
    using inv by (simp_all add: server_with_def db_inv_def)
  have disp: "dispatch q W now GR_INVITE_USER sock u args s = do_invite_user q W u args s"
    by (simp add: dispatch_def)
  show ?thesis
  proof (cases "length args = 3")
    case False
    then have "(r, g) = (Throw (Own WrongArgumentsNumberException), ?g)" using spec by (simp add: spec_invite_def)
    moreover have "do_invite_user q W u args s = (Throw (Own WrongArgumentsNumberException), s)"
      using False by (simp add: do_invite_user_def need_args_def prog_simps)
    ultimately show ?thesis unfolding disp by (simp add: invite_done_def request_refused)
  next
    case len: True
    then have code: "is_code (args ! 0)" and arg: "safe_text (args ! 1)" "safe_text (args ! 2)"
      using args safe_args [OF args(1)] by (auto simp: numeric_args_def)
    obtain d where exists: "\<forall>f :: bool \<Rightarrow> (cxx_exn, _, unit) prog.
        bnd (on_users (isExist q (args ! 1))) f s = f (users_tab ?v (args ! 1) \<noteq> None) (s\<lparr>m_db := d\<rparr>)"
      and d: "db_ok ok A d" "view (A d) = ?v"
      using exist_run [OF ok arg(1)] by blast
    let ?s = "s\<lparr>m_db := d\<rparr>"
    have ok': "db_ok ok A (m_db ?s)" using d(1) by simp
    show ?thesis
    proof (cases "users_tab ?v (args ! 1)")
      case None
      then have "(r, g) = (Throw (Own WrongUsernameException), ?g)" using spec len by (simp add: spec_invite_def)
      moreover have "do_invite_user q W u args s = (Throw (Own WrongUsernameException), ?s)"
        using len exists None by (simp add: do_invite_greets need_args_def prog_simps)
      ultimately show ?thesis
        unfolding disp using request_done_later [OF request_refused [of A W ?s], of s] d(2) by (simp add: invite_done_def)
    next
      case (Some pwd)
      then have run: "spec_addUser u (code_val (args ! 0)) (args ! 1) (args ! 2) ?g = (r, g)"
        using spec len by (simp add: spec_invite_def)
      have part: "part_ends ok A (on_groups (addUser q u (args ! 0) (args ! 1) (args ! 2))) ?s r (database g) (mtx g, lists_mtx s)"
        using part_of_refines(2) [OF addUser_refines [OF code u arg] ok'] run d(2) by simp
      have disp': "do_invite_user q W u args s =
          thn (on_groups (addUser q u (args ! 0) (args ! 1) (args ! 2))) (greet q W args) ?s"
        using len exists Some by (simp add: do_invite_greets need_args_def)
      show ?thesis
      proof (cases "r = Ret ()")
        case True
        obtain t where t: "on_groups (addUser q u (args ! 0) (args ! 1) (args ! 2)) ?s = (Ret (), t)" "db_ok ok A (m_db t)"
          "database g = view (A (m_db t))" "m_server t = m_server s" "m_online_opposite t = m_online_opposite s"
          "m_rest t = (online_of s, mtx g, lists_mtx s)"
          using part True by (auto simp: part_ends_def m_rest_def online_of_def)
        have "safe_view (database g)"
          using spec_groups_safe(3) [of ?g "args ! 1" "args ! 2" u "code_val (args ! 0)"] safe arg run by simp
        moreover obtain i' where i': "group_of (database g) (code_val (args ! 0)) = Some i'"
          using spec_addUser_group run True by blast
        moreover have "args = [args ! 0, args ! 1, args ! 2]"
          using len by (auto simp: numeral_eq_Suc length_Suc_conv)
        ultimately obtain y where "sends_to ok A (greet q W args) t y"
          "welcomed W (m_online_opposite t) (code_val (args ! 0)) (args ! 1) (invite_text (g_name i') args)
            (database g, m_server t) y"
          using greet_sends [OF t(2) _ code arg(1) args(1) t(3)] by blast
        then show ?thesis
          unfolding disp disp' using t i' True by (auto simp: invite_done_def sends_to_def replied_def thn_def bnd_def m_abs_def)
      next
        case False
        from request_done_later [OF request_fails [OF part this], of s] False show ?thesis
          unfolding disp disp' by (simp add: invite_done_def)
      qed
    qed
  qed
qed

end

end
