(* ===== verification/Personal.thy ===== *)
theory Personal
  imports Invitations
begin

text \<open>
  The requests that concern the sender alone: registration, login and logout, the creation of a
  group, the list of the groups and the restore message.
\<close>

section \<open>The handler before the request\<close>

text \<open>The name the handler finds for the socket, and the state after it has looked: \<open>operator[]\<close> enters
  an empty name for a socket nobody has logged in on.\<close>

definition name_on :: "int \<Rightarrow> ('db, 'n) manager \<Rightarrow> string" where
  "name_on sock s = (case m_online s sock of None \<Rightarrow> '''' | Some u \<Rightarrow> u)"

definition named :: "int \<Rightarrow> ('db, 'n) manager \<Rightarrow> ('db, 'n) manager" where
  "named sock s = s\<lparr>m_online := (m_online s)(sock \<mapsto> name_on sock s)\<rparr>"

lemma named_simps [simp]:
  "m_db (named sock s) = m_db s" "m_server (named sock s) = m_server s"
  "m_online_opposite (named sock s) = m_online_opposite s" "groups_mtx (named sock s) = groups_mtx s"
  "lists_mtx (named sock s) = lists_mtx s" "m_online (named sock s) = (m_online s)(sock \<mapsto> name_on sock s)"
  by (simp_all add: named_def)

lemma named_online: "m_online s sock = Some u \<Longrightarrow> named sock s = s" "m_online s sock = Some u \<Longrightarrow> name_on sock s = u"
  by (simp_all add: named_def name_on_def fun_upd_idem)

lemma named_handler:
  assumes "Parser_ctor (getMessage msg) = Ret p" and "disconnected_sockets (m_server s) = []"
    and "m_online s (getSocket msg) \<noteq> None \<or> getMsgCode p \<in> {EN_REGISTER, EN_LOGIN}"
  shows "message_handler q W now msg i s = replied W (getSocket msg) i
    (dispatch q W now (getMsgCode p) (getSocket msg) (name_on (getSocket msg) s) (getArguments p) (named (getSocket msg) s))"
proof (cases "m_online s (getSocket msg)")
  case (Some u)
  then show ?thesis using online_handler [OF assms(1) Some assms(2)] by (simp add: named_online [OF Some])
next
  case None
  have "on_users (getUsername (getSocket msg)) s = (Ret '''', named (getSocket msg) s)"
    using None by (simp add: prog_simps named_def name_on_def put_users_def get_users_def)
  then have "code_handler q W now msg s =
      dispatch q W now (getMsgCode p) (getSocket msg) '''' (getArguments p) (named (getSocket msg) s)"
    using assms(1,3) None by (auto simp: code_handler_def Let_def prog_simps)
  then show ?thesis using None by (simp add: settled_handler [OF assms(2)] name_on_def)
qed

section \<open>An answer for the sender\<close>

text \<open>
  \<open>own_done\<close>: when a component ends with \<open>(r, v)\<close>, the handler sends what \<open>reply\<close> makes of the result to the
  socket of the sender, or reports the exception, or ends as badly as the component; \<open>e\<close> is who is online then,
  and the mutexes.
\<close>

definition own_done ::
  "('db \<Rightarrow> store) \<Rightarrow> 'n winsock \<Rightarrow> 'n server \<Rightarrow> int \<Rightarrow> ('a \<Rightarrow> string) \<Rightarrow> (cxx_exn, 'a) outcome \<times> ilist \<Rightarrow>
   ((int \<Rightarrow> string option) \<times> (string \<Rightarrow> int option)) \<times> bool \<times> bool \<Rightarrow>
   (cxx_exn, unit) outcome \<times> ('db, 'n) manager \<Rightarrow> bool" where
  "own_done A W sv sock reply x e y \<longleftrightarrow> m_rest (snd y) = e \<and> (case x of
     (Ret a, v) \<Rightarrow> fst y = Ret () \<and> m_abs A (snd y) = (v, snd (sendMessage W sock (reply a) sv))
   | (Throw e, v) \<Rightarrow> fst y = Ret () \<and> m_abs A (snd y) = (v, snd (sendMessage W sock (error_reply e) sv))
   | (Undef, v) \<Rightarrow> fst y = Undef \<and> m_abs A (snd y) = (v, sv)
   | (Hang, v) \<Rightarrow> fst y = Hang \<and> m_abs A (snd y) = (v, sv))"

lemma own_refused: "own_done A W (m_server s) sock reply (Throw e, view (A (m_db s))) (m_rest s)
    (replied W sock i (Throw e, s))"
  by (simp add: own_done_def replied_def m_abs_def)

lemma run_sends: "on_server (sendMessage W sock m) s = (Ret (), s\<lparr>m_server := snd (sendMessage W sock m (m_server s))\<rparr>)"
  using send_returns [of W sock m "m_server s"]
  by (cases "sendMessage W sock m (m_server s)") (simp add: zoom_def put_server_def)

lemma own_answers:
  assumes "part_ends ok A m s r v lk"
  shows "own_done A W (m_server s) sock reply (r, v) (online_of s, lk)
    (replied W sock i (bnd m (\<lambda>a. on_server (sendMessage W sock (reply a))) s))"
  using assms by (cases r) (auto simp: part_ends_def own_done_def replied_def bnd_def run_sends m_abs_def)

section \<open>Registration and login\<close>

definition spec_account :: "int \<Rightarrow> int \<Rightarrow> string list \<Rightarrow> ilist users \<Rightarrow> (cxx_exn, unit) outcome \<times> ilist users" where
  "spec_account code sock args c =
     (if length args \<noteq> 2 then (Throw (Own WrongArgumentsNumberException), c)
      else if code = EN_REGISTER then spec_Register (args ! 0) (args ! 1) c
      else spec_Login sock (args ! 0) (args ! 1) c)"

definition account_reply :: "int \<Rightarrow> string" where
  "account_reply code = makeReceive_str (if code = EN_REGISTER then PGM_SCC_REGISTER else PGM_SCC_LOGIN) ''''"

text \<open>Afterwards the maps of who is online are those of \<open>c\<close> as well.\<close>

definition account_done ::
  "('db \<Rightarrow> store) \<Rightarrow> 'n winsock \<Rightarrow> ('db, 'n) manager \<Rightarrow> int \<Rightarrow> string \<Rightarrow> (cxx_exn, unit) outcome \<times> ilist users \<Rightarrow>
   (cxx_exn, unit) outcome \<times> ('db, 'n) manager \<Rightarrow> bool" where
  "account_done A W s sock reply x y \<longleftrightarrow>
     own_done A W (m_server s) sock (\<lambda>_. reply) (fst x, users_database (snd x))
       ((online_users (snd x), online_users_opposite (snd x)), groups_mtx s, lists_mtx s) y"

lemma account_done_named [simp]: "account_done A W (named n s) = account_done A W s"
  by (simp add: account_done_def fun_eq_iff)

definition users_abs :: "('db \<Rightarrow> store) \<Rightarrow> ('db, 'n) manager \<Rightarrow> ilist users" where
  "users_abs A s = u_abs A (get_users s)"

lemma users_part:
  assumes "refines (u_ok ok A) (u_abs A) m M" and "db_ok ok A (m_db s)" and "M (users_abs A s) = (r, c)"
  shows "\<exists>t. on_users m s = (r, t) \<and> db_ok ok A (m_db t) \<and> view (A (m_db t)) = users_database c \<and>
    m_server t = m_server s \<and> m_online t = online_users c \<and> m_online_opposite t = online_users_opposite c \<and>
    groups_mtx t = groups_mtx s \<and> lists_mtx t = lists_mtx s"
proof -
  have "u_ok ok A (get_users s)" using assms(2) by (simp add: u_ok_def)
  from refines_run [OF assms(1) this] assms(3) obtain c' where
    c': "m (get_users s) = (r, c')" "u_ok ok A c'" "u_abs A c' = c"
    by (auto simp: users_abs_def)
  then show ?thesis by (auto simp: zoom_def put_users_def u_ok_def u_abs_def)
qed

lemma spec_Login_online: "spec_Login sock u p c = (Ret (), c') \<Longrightarrow> online_users_opposite c' u = Some sock"
  by (auto simp: spec_Login_def put_online_def Let_def split: if_splits)

context sql_query
begin

lemma account_request:
  assumes ok: "db_ok ok A (m_db s)" and code: "code \<in> {EN_REGISTER, EN_LOGIN}" and args: "safe_row args"
    and spec: "spec_account code sock args (users_abs A s) = (r, c)"
  shows "account_done A W s sock (account_reply code) (r, c)
    (replied W sock i (dispatch q W now code sock u args s))"
proof (cases "length args = 2")
  case False
  then have "(r, c) = (Throw (Own WrongArgumentsNumberException), users_abs A s)"
    using spec by (simp add: spec_account_def)
  moreover have "dispatch q W now code sock u args s = (Throw (Own WrongArgumentsNumberException), s)"
    using False code by (auto simp: dispatch_def do_register_def do_login_def need_args_def prog_simps)
  ultimately show ?thesis
    by (simp add: account_done_def own_done_def m_rest_def online_of_def replied_def m_abs_def users_abs_def u_abs_def)
next
  case len: True
  then have a: "safe_text (args ! 0)" "safe_text (args ! 1)" using safe_args [OF args] by simp_all
  show ?thesis
  proof (cases "code = EN_REGISTER")
    case True
    then have "spec_Register (args ! 0) (args ! 1) (users_abs A s) = (r, c)"
      using spec len by (simp add: spec_account_def)
    from users_part [OF Register_refines [OF a] ok this]
    show ?thesis
      using True len by (cases r) (auto simp: account_done_def own_done_def m_rest_def online_of_def replied_def m_abs_def account_reply_def
        dispatch_def do_register_def need_args_def thn_def bnd_def run_sends)
  next
    case False
    then have code: "code = EN_LOGIN" using code by simp
    then have login: "spec_Login sock (args ! 0) (args ! 1) (users_abs A s) = (r, c)"
      using spec len by (simp add: spec_account_def)
    from users_part [OF Login_refines [OF a] ok this]
    obtain t where t: "on_users (Login q sock (args ! 0) (args ! 1)) s = (r, t)" "view (A (m_db t)) = users_database c"
      "m_server t = m_server s" "m_online t = online_users c" "m_online_opposite t = online_users_opposite c"
      "groups_mtx t = groups_mtx s" "lists_mtx t = lists_mtx s" by blast
    have "trySend q W (args ! 0) (account_reply code) t =
        (Ret (), t\<lparr>m_server := snd (sendMessage W sock (account_reply code) (m_server t))\<rparr>)" if "r = Ret ()"
      using trySend_online [of t "args ! 0" sock] spec_Login_online [OF login [unfolded that]] t(5)
      by (simp add: put_server_def)
    then show ?thesis
      using code len t by (cases r) (auto simp: account_done_def own_done_def m_rest_def online_of_def replied_def m_abs_def account_reply_def
        dispatch_def do_login_def need_args_def thn_def bnd_def)
  qed
qed

lemma account_handler:
  assumes "Parser_ctor (getMessage msg) = Ret p" and "spliceable (getMessage msg)" and "db_ok ok A (m_db s)"
    and "getMsgCode p \<in> {EN_REGISTER, EN_LOGIN}" and "disconnected_sockets (m_server s) = []"
    and "spec_account (getMsgCode p) (getSocket msg) (getArguments p) (users_abs A (named (getSocket msg) s)) = (r, c)"
  shows "account_done A W s (getSocket msg) (account_reply (getMsgCode p)) (r, c)
    (message_handler q W now msg i s)"
  using account_request [of "named (getSocket msg) s" "getMsgCode p" "getArguments p"] assms
    named_handler [OF assms(1,5)] spliceable_args(1) [OF assms(2,1)] by simp

end

section \<open>Groups of the sender\<close>

definition spec_create :: "string \<Rightarrow> string \<Rightarrow> string list \<Rightarrow> ilist guarded \<Rightarrow> (cxx_exn, string) outcome \<times> ilist guarded" where
  "spec_create now u args g = (if length args \<noteq> 1 then (Throw (Own WrongArgumentsNumberException), g)
     else spec_createGroup now (args ! 0) u g)"

text \<open>The list of groups: a line for each, as code, name of the user and status.\<close>

definition groups_text :: "string \<Rightarrow> (int \<times> string) list \<Rightarrow> string" where
  "groups_text u gs = makeReceive_args PGM_GET_GROUPS_LIST (map (\<lambda>(k, st). comma_join [to_string k, u, st]) gs)"

context sql_query
begin

lemma create_request:
  assumes ok: "db_ok ok A (m_db s)" and args: "safe_row args" "safe_text now" "safe_text u"
    and spec: "spec_create now u args \<lparr>database = view (A (m_db s)), mtx = groups_mtx s\<rparr> = (r, g)"
  shows "own_done A W (m_server s) sock (makeReceive_str PGM_SCC_ACTE_CREATED) (r, database g) (online_of s, mtx g, lists_mtx s)
    (replied W sock i (dispatch q W now GR_CREATE_GROUP sock u args s))"
proof (cases "length args = 1")
  case False
  then have "(r, g) = (Throw (Own WrongArgumentsNumberException), \<lparr>database = view (A (m_db s)), mtx = groups_mtx s\<rparr>)"
    using spec by (simp add: spec_create_def)
  moreover have "dispatch q W now GR_CREATE_GROUP sock u args s = (Throw (Own WrongArgumentsNumberException), s)"
    using False by (simp add: dispatch_def do_create_group_def need_args_def prog_simps)
  ultimately show ?thesis using own_refused by (simp add: m_rest_def)
next
  case len: True
  then have "safe_text (args ! 0)" using safe_args [OF args(1)] by simp
  from part_of_refines(2) [OF createGroup_refines [OF args(2) this args(3)] ok] spec len
  have "part_ends ok A (on_groups (createGroup q now (args ! 0) u)) s r (database g) (mtx g, lists_mtx s)"
    by (simp add: spec_create_def)
  from own_answers [OF this] len show ?thesis by (simp add: dispatch_def do_create_group_def need_args_def)
qed

lemma groups_request:
  assumes ok: "db_ok ok A (m_db s)" and u: "safe_text u"
  shows "\<exists>gs. distinct gs \<and> set gs = {(k, st). status_of (view (A (m_db s))) k u = Some st} \<and>
    own_done A W (m_server s) sock (\<lambda>_. groups_text u gs) (Ret (), view (A (m_db s))) (m_rest s)
      (replied W sock i (dispatch q W now GR_GROUP_LIST sock u [] s))"
proof -
  have ok': "db_ok ok A (database (get_groups s))" using ok by simp
  obtain gs where gs: "getAllGroupsOfUser q u (get_groups s) = (Ret (map (\<lambda>(k, st). [to_string k, u, st]) gs),
      (get_groups s)\<lparr>database := after q (sql_groups_of_user u) (m_db s)\<rparr>)"
    "distinct gs" "set gs = {(k, st). status_of (view (A (m_db s))) k u = Some st}"
    using getAllGroupsOfUser_run(1) [OF ok' u] by auto
  have rows: "makeReceive_rows PGM_GET_GROUPS_LIST (map (\<lambda>(k, st). [to_string k, u, st]) gs) = Some (groups_text u gs)"
    using makeReceive_rows_eq [of "map (\<lambda>(k, st). [to_string k, u, st]) gs" 3 PGM_GET_GROUPS_LIST]
    by (auto simp: groups_text_def comp_def case_prod_unfold)
  have "own_done A W (m_server s) sock (\<lambda>_. groups_text u gs) (Ret (), view (A (m_db s))) (m_rest s)
      (replied W sock i (dispatch q W now GR_GROUP_LIST sock u [] s))"
    using gs(1) rows getAllGroupsOfUser_run(2) [OF ok' u]
    by (simp add: dispatch_def do_group_list_def need_args_def zoom_def put_groups_def bnd_def of_option_def
        prog_simps run_sends [unfolded zoom_def] own_done_def replied_def m_abs_def m_rest_def online_of_def get_groups_def)
  with gs(2,3) show ?thesis by blast
qed

text \<open>The restore message goes to the socket of the name, or is stored when there is none.\<close>

lemma restore_request:
  assumes good: "db_good ok A (m_db s)" and u: "safe_text u"
  shows "\<exists>gs pieces. distinct gs \<and> set gs = {k. status_of (view (A (m_db s))) k u \<noteq> None} \<and>
    list_all2 (describes (view (A (m_db s)))) gs pieces \<and>
    fst (replied W sock i (dispatch q W now RE_RESTORE sock u [] s)) = Ret () \<and>
    m_rest (snd (replied W sock i (dispatch q W now RE_RESTORE sock u [] s))) = m_rest s \<and>
    m_abs A (snd (replied W sock i (dispatch q W now RE_RESTORE sock u [] s))) =
      deliver W (m_online_opposite s) (''@400|'' @ concat pieces @ ''|'') u (m_abs A s)"
proof -
  let ?v = "view (A (m_db s))" and ?g = "get_restore s"
  have db: "r_database ?g = m_db s" by simp
  have inv: "group_inv ?v" and keep: "keeps ok A ?v (r_database ?g)"
    using good by (simp_all add: db_inv_def keeps_def)
  obtain gs pieces g where run: "buildRestoreMessage q u ?g = (Ret (''@400|'' @ concat pieces @ ''|''), g)"
    and gs: "distinct gs" "set gs = {k. status_of ?v k u \<noteq> None}" "list_all2 (describes ?v) gs pieces"
    and kept: "keeps ok A ?v (r_database g)"
    using buildRestoreMessage_run [OF inv keep u] by blast
  let ?T = "''@400|'' @ concat pieces @ ''|''" and ?t = "put_restore g s"
  have "safe_text ?T"
    using reading_restore [OF u] good run db unfolding reading_def by (metis fst_conv)
  moreover have "db_ok ok A (m_db ?t)" using kept by (simp add: keeps_def)
  ultimately obtain d sv where sent: "trySend q W u ?T ?t = (Ret (), ?t\<lparr>m_db := d, m_server := sv\<rparr>)"
    "(view (A d), sv) = deliver W (m_online_opposite ?t) ?T u (m_abs A ?t)"
    using trySend_sends [OF _ u, of ?t ?T W] by (auto simp: sends_to_def)
  have same: "m_online_opposite ?t = m_online_opposite s" "m_abs A ?t = m_abs A s" "m_rest ?t = m_rest s"
    using kept by (simp_all add: m_rest_def online_of_def put_restore_def m_abs_def keeps_def Let_def)
  have "dispatch q W now RE_RESTORE sock u [] s = (Ret (), ?t\<lparr>m_db := d, m_server := sv\<rparr>)"
    using run sent(1) by (simp add: dispatch_def do_restore_def need_args_def zoom_def bnd_def)
  with gs sent(2) same show ?thesis by (auto simp: replied_def m_abs_def)
qed

end

section \<open>The requests without arguments\<close>

text \<open>
  \<open>quiet_done\<close>: a logout tells nobody and frees socket and name; the list has a line for each group of
  the user; the restore message describes each of them, and is stored when the name has no socket;
  a request with arguments is refused.
\<close>

definition quiet_done ::
  "('db \<Rightarrow> store) \<Rightarrow> 'n winsock \<Rightarrow> ('db, 'n) manager \<Rightarrow> int \<Rightarrow> string \<Rightarrow> int \<Rightarrow> string list \<Rightarrow>
   (cxx_exn, unit) outcome \<times> ('db, 'n) manager \<Rightarrow> bool" where
  "quiet_done A W s sock u code args y \<longleftrightarrow> (let v = view (A (m_db s)) in
     if args \<noteq> [] then own_done A W (m_server s) sock (\<lambda>_ :: unit. '''') (Throw (Own WrongArgumentsNumberException), v) (m_rest s) y
     else if code = EN_LOGOUT
     then fst y = Ret () \<and> m_abs A (snd y) = m_abs A s \<and>
       m_rest (snd y) = (((m_online s)(sock := None), (m_online_opposite s)(u := None)), groups_mtx s, lists_mtx s)
     else if code = GR_GROUP_LIST
     then \<exists>gs. distinct gs \<and> set gs = {(k, st). status_of v k u = Some st} \<and>
       own_done A W (m_server s) sock (\<lambda>_. groups_text u gs) (Ret (), v) (m_rest s) y
     else \<exists>gs pieces. distinct gs \<and> set gs = {k. status_of v k u \<noteq> None} \<and> list_all2 (describes v) gs pieces \<and>
       fst y = Ret () \<and> m_rest (snd y) = m_rest s \<and>
       m_abs A (snd y) = deliver W (m_online_opposite s) (''@400|'' @ concat pieces @ ''|'') u (m_abs A s))"

lemma quiet_dispatch:
  "dispatch q W now EN_LOGOUT sock u args = do_logout sock args"
  "dispatch q W now GR_GROUP_LIST sock u args = do_group_list q W sock u args"
  "dispatch q W now RE_RESTORE sock u args = do_restore q W u args"
  by (simp_all add: dispatch_def)

lemma logout_request:
  fixes s :: "('db, 'n) manager"
  assumes "m_online s sock = Some u"
  shows "quiet_done A W s sock u EN_LOGOUT [] (replied W sock i (dispatch q W now EN_LOGOUT sock u [] s))"
  unfolding quiet_dispatch using assms
  by (simp add: quiet_done_def do_logout_def need_args_def zoom_def run_Logout put_users_def put_offline_def
      prog_simps replied_def m_abs_def m_rest_def online_of_def)

context sql_query
begin

lemma quiet_request:
  assumes inv: "server_inv ok A s" and u: "safe_text u" and online: "m_online s sock = Some u"
    and code: "code \<in> {EN_LOGOUT, GR_GROUP_LIST, RE_RESTORE}"
  shows "quiet_done A W s sock u code args (replied W sock i (dispatch q W now code sock u args s))"
proof (cases "args = []")
  case False
  then have "dispatch q W now code sock u args s = (Throw (Own WrongArgumentsNumberException), s)"
    using code by (elim insertE emptyE; simp only: quiet_dispatch)
      (simp_all add: do_logout_def do_group_list_def do_restore_def need_args_def prog_simps)
  with own_refused False show ?thesis by (simp add: quiet_done_def Let_def)
next
  case True
  have ok: "db_ok ok A (m_db s)" "db_good ok A (m_db s)" using inv by (simp_all add: server_with_def db_inv_def)
  consider "code = EN_LOGOUT" | "code = GR_GROUP_LIST" | "code = RE_RESTORE" using code by blast
  then show ?thesis
  proof cases
    case 1
    show ?thesis unfolding True 1 by (rule logout_request [OF online])
  next
    case 2
    with groups_request [OF ok(1) u, of W sock i now] True show ?thesis by (simp add: quiet_done_def Let_def)
  next
    case 3
    with restore_request [OF ok(2) u, of W sock i now] True show ?thesis by (simp add: quiet_done_def Let_def)
  qed
qed

end

end
