(* ===== verification/Effects.thy ===== *)
theory Effects
  imports Personal System "HOL-Library.Sublist"
begin

text \<open>
  An abstract machine for the whole server: the tables without the stored messages, who is online,
  and the two mutexes.  A packet is one function of its state, for every code and every sender, and
  so is a client that goes; the handlers refine it.
\<close>

section \<open>The state of the machine\<close>

definition tables :: "ilist \<Rightarrow> ilist" where
  "tables v = v\<lparr>packets_tab := Map.empty, last_packet := 0\<rparr>"

record machine =
  a_tables :: ilist
  a_online :: "int \<Rightarrow> string option"
  a_opposite :: "string \<Rightarrow> int option"
  a_groups :: bool
  a_lists :: bool

definition machine_of :: "('db \<Rightarrow> store) \<Rightarrow> ('db, 'n) manager \<Rightarrow> machine" where
  "machine_of A s = \<lparr>a_tables = tables (view (A (m_db s))), a_online = m_online s, a_opposite = m_online_opposite s,
     a_groups = groups_mtx s, a_lists = lists_mtx s\<rparr>"

lemma tables_simps [simp]:
  "users_tab (tables v) = users_tab v" "groups_tab (tables v) = groups_tab v" "members_tab (tables v) = members_tab v"
  "items_tab (tables v) = items_tab v" "last_group (tables v) = last_group v" "tables (tables v) = tables v"
  by (simp_all add: tables_def)

lemma tables_changes [simp]:
  "set_member k u st (tables v) = tables (set_member k u st v)" "drop_member k u (tables v) = tables (drop_member k u v)"
  "set_count k n (tables v) = tables (set_count k n v)" "new_group k i (tables v) = tables (new_group k i v)"
  "erase_group k (tables v) = tables (erase_group k v)" "set_item k x y (tables v) = tables (set_item k x y v)"
  "drop_item k x (tables v) = tables (drop_item k x v)" "change_item k x x' y (tables v) = tables (change_item k x x' y v)"
  "(tables v)\<lparr>users_tab := f\<rparr> = tables (v\<lparr>users_tab := f\<rparr>)"
  by (auto simp: tables_def set_member_def drop_member_def set_count_def new_group_def erase_group_def set_item_def
      drop_item_def change_item_def cong: if_cong)

lemma tables_deliver [simp]:
  "tables (fst (deliver W opp m u x)) = tables (fst x)"
  by (simp add: deliver_def save_packet_def tables_def Let_def split: option.split)

lemma tables_delivered [simp]:
  "tables (fst (fold (deliver W opp m) us x)) = tables (fst x)"
  "tables (fst (fold (\<lambda>m. deliver W opp m u) ms x)) = tables (fst x)"
  by (induction us arbitrary: x, simp_all) (induction ms arbitrary: x, simp_all)

text \<open>Logging out clients that have gone keeps the invariant.\<close>

lemma server_settled: "server_inv ok A s \<Longrightarrow> server_inv ok A (settled s)"
  by (auto simp: server_with_def split: if_splits)

text \<open>What the handler of a request leaves.\<close>

lemma view_m_abs: "view (A (m_db s)) = fst (m_abs A s)"
  by (simp add: m_abs_def)

lemma tables_request_done:
  "request_done A W s sock m U names x lk y \<Longrightarrow> tables (view (A (m_db (snd y)))) = tables (snd x)"
  "request_done A W s sock m U names x lk y \<Longrightarrow> m_rest (snd y) = (online_of s, lk)"
  by (cases x; cases "fst x"; auto simp: request_done_def announced_def view_m_abs)+

lemma tables_invite_done:
  "invite_done A W s sock args x lk y \<Longrightarrow> tables (view (A (m_db (snd y)))) = tables (snd x)"
  "invite_done A W s sock args x lk y \<Longrightarrow> m_rest (snd y) = (online_of s, lk)"
  by (auto simp: invite_done_def welcomed_def view_m_abs split: if_splits dest: tables_request_done)

lemma tables_own_done:
  "own_done A W sv sock reply x e y \<Longrightarrow> tables (view (A (m_db (snd y)))) = tables (snd x)"
  "own_done A W sv sock reply x e y \<Longrightarrow> m_rest (snd y) = e"
  by (cases x; cases "fst x"; auto simp: own_done_def view_m_abs)+

section \<open>Requests of the machine\<close>

definition in_groups :: "(ilist guarded \<Rightarrow> 'a \<times> ilist guarded) \<Rightarrow> machine \<Rightarrow> machine" where
  "in_groups f a = (let g = snd (f \<lparr>database = a_tables a, mtx = a_groups a\<rparr>) in a\<lparr>a_tables := database g, a_groups := mtx g\<rparr>)"

definition in_lists :: "(ilist guarded \<Rightarrow> 'a \<times> ilist guarded) \<Rightarrow> machine \<Rightarrow> machine" where
  "in_lists f a = (let g = snd (f \<lparr>database = a_tables a, mtx = a_lists a\<rparr>) in a\<lparr>a_tables := database g, a_lists := mtx g\<rparr>)"

definition in_users :: "(ilist users \<Rightarrow> 'a \<times> ilist users) \<Rightarrow> machine \<Rightarrow> machine" where
  "in_users f a = (let c = snd (f \<lparr>users_database = a_tables a, online_users = a_online a, online_users_opposite = a_opposite a\<rparr>) in
     a\<lparr>a_tables := users_database c, a_online := online_users c, a_opposite := online_users_opposite c\<rparr>)"

definition machine_request :: "string \<Rightarrow> int \<Rightarrow> string \<Rightarrow> int \<Rightarrow> string list \<Rightarrow> machine \<Rightarrow> machine" where
  "machine_request now sock u code args a =
     (if code \<in> {EN_REGISTER, EN_LOGIN} then in_users (spec_account code sock args) a
      else if code = EN_LOGOUT
      then if args = [] then a\<lparr>a_online := (a_online a)(sock := None), a_opposite := (a_opposite a)(u := None)\<rparr> else a
      else if code = GR_CREATE_GROUP then in_groups (spec_create now u args) a
      else if code = GR_INVITE_USER then in_groups (spec_invite u args) a
      else if code \<in> {GR_SET_STATUS, GR_REMOVE_USER, GR_CLOSE_GROUP} then in_groups (spec_group_request u code args) a
      else if code \<in> {LST_ADD_ITEM, LST_REMOVE_ITEM, LST_SET_ITEM} then in_lists (spec_list_request u code args) a
      else a)"

text \<open>The abstract programs do not look at the stored messages.\<close>

definition bare :: "ilist guarded \<Rightarrow> ilist guarded" where
  "bare g = g\<lparr>database := tables (database g)\<rparr>"

definition blind :: "(ilist guarded \<Rightarrow> 'a \<times> ilist guarded) \<Rightarrow> bool" where
  "blind f \<longleftrightarrow> (\<forall>g. f (bare g) = (fst (f g), bare (snd (f g))))"

lemma bare_simps [simp]:
  "database (bare g) = tables (database g)" "mtx (bare g) = mtx g" "(bare g)\<lparr>mtx := b\<rparr> = bare (g\<lparr>mtx := b\<rparr>)"
  "(bare g)\<lparr>database := tables v\<rparr> = bare (g\<lparr>database := v\<rparr>)"
  by (simp_all add: bare_def)

lemma blind_locked: "blind f \<Longrightarrow> blind (locked f)"
  by (simp add: blind_def locked_def)

lemma blind_groups:
  "blind (spec_createGroup now n u)" "blind (spec_removeGroup u k)" "blind (spec_addUser u k w st)"
  "blind (spec_removeUser u k w)" "blind (spec_setUserStatus u k w st)"
  unfolding spec_createGroup_def spec_removeGroup_def spec_addUser_def spec_removeUser_def spec_setUserStatus_def
  by (rule blind_locked; simp add: blind_def Let_def split: option.split sum.split)+

lemma blind_lists:
  "blind (spec_addItem u k i n m)" "blind (spec_removeItem u k i)" "blind (spec_updateItem u k key i n m)"
  unfolding spec_addItem_def spec_removeItem_def spec_updateItem_def spec_writer_def
  by (rule blind_locked; simp add: blind_def Let_def split: option.split sum.split)+

lemma blind_requests:
  "blind (spec_create now u args)" "blind (spec_invite u args)" "blind (spec_group_request u code args)"
  "blind (spec_list_request u code args)"
  using blind_groups blind_lists
  by (simp_all add: blind_def spec_create_def spec_invite_def spec_group_request_def spec_list_request_def)

lemma blind_run:
  assumes "blind f" and "f \<lparr>database = v, mtx = b\<rparr> = (r, g)"
  shows "f \<lparr>database = tables v, mtx = b\<rparr> = (r, bare g)"
  using assms unfolding blind_def bare_def by (metis fst_conv snd_conv guarded.simps(1) guarded.update_convs(1))

lemma blind_account:
  assumes "spec_account code sock args \<lparr>users_database = v, online_users = f, online_users_opposite = h\<rparr> = (r, c)"
  shows "spec_account code sock args \<lparr>users_database = tables v, online_users = f, online_users_opposite = h\<rparr> =
    (r, c\<lparr>users_database := tables (users_database c)\<rparr>)"
  using assms by (auto simp: spec_account_def spec_Register_def spec_Login_def put_online_def Let_def split: if_splits)

lemma in_groups_eq:
  assumes "f \<lparr>database = view (A (m_db s)), mtx = groups_mtx s\<rparr> = (r, g)" and "blind f"
    and "tables (view (A (m_db t))) = tables (database g)" and "m_rest t = (online_of s, mtx g, lists_mtx s)"
  shows "machine_of A t = in_groups f (machine_of A s)"
  using blind_run [OF assms(2,1)] assms(3,4)
  by (simp add: in_groups_def machine_of_def m_rest_def online_of_def)

lemma in_lists_eq:
  assumes "f \<lparr>database = view (A (m_db s)), mtx = lists_mtx s\<rparr> = (r, g)" and "blind f"
    and "tables (view (A (m_db t))) = tables (database g)" and "m_rest t = (online_of s, groups_mtx s, mtx g)"
  shows "machine_of A t = in_lists f (machine_of A s)"
  using blind_run [OF assms(2,1)] assms(3,4)
  by (simp add: in_lists_def machine_of_def m_rest_def online_of_def)

lemma in_users_eq:
  assumes "spec_account code sock args (users_abs A s) = (r, c)"
    and "tables (view (A (m_db t))) = tables (users_database c)"
    and "m_rest t = ((online_users c, online_users_opposite c), groups_mtx s, lists_mtx s)"
  shows "machine_of A t = in_users (spec_account code sock args) (machine_of A s)"
  using blind_account [of code sock args "view (A (m_db s))" "m_online s" "m_online_opposite s"] assms
  by (simp add: in_users_def machine_of_def m_rest_def online_of_def users_abs_def u_abs_def)

lemma quiet_machine:
  assumes "quiet_done A W s sock u code args y" and "code \<in> {EN_LOGOUT, GR_GROUP_LIST, RE_RESTORE}"
  shows "machine_of A (snd y) = machine_request now sock u code args (machine_of A s)"
proof -
  have same: "machine_of A t = machine_of A s" if "tables (view (A (m_db t))) = tables (view (A (m_db s)))" "m_rest t = m_rest s" for t
    using that by (simp add: machine_of_def m_rest_def online_of_def)
  consider "args \<noteq> []" | "args = []" "code = EN_LOGOUT" | "args = []" "code = GR_GROUP_LIST" | "args = []" "code = RE_RESTORE"
    using assms(2) by blast
  then show ?thesis
  proof cases
    case 1
    with assms(1) have "tables (view (A (m_db (snd y)))) = tables (view (A (m_db s)))" "m_rest (snd y) = m_rest s"
      by (auto simp: quiet_done_def Let_def dest: tables_own_done)
    from same [OF this] show ?thesis using 1 assms(2) by (auto simp: machine_request_def)
  next
    case 2
    with assms(1) show ?thesis
      by (auto simp: quiet_done_def machine_request_def machine_of_def m_rest_def online_of_def m_abs_def)
  next
    case 3
    with assms(1) have "tables (view (A (m_db (snd y)))) = tables (view (A (m_db s)))" "m_rest (snd y) = m_rest s"
      by (auto simp: quiet_done_def Let_def dest: tables_own_done)
    from same [OF this] show ?thesis using 3 by (simp add: machine_request_def)
  next
    case 4
    with assms(1) have "tables (view (A (m_db (snd y)))) = tables (view (A (m_db s)))" "m_rest (snd y) = m_rest s"
      by (auto simp: quiet_done_def Let_def view_m_abs)
    from same [OF this] show ?thesis using 4 by (simp add: machine_request_def)
  qed
qed

context sql_query
begin

lemma dispatch_machine:
  assumes inv: "server_inv ok A s" and args: "safe_row args" "numeric_args code args" and safe: "safe_text u" "safe_text now"
    and online: "m_online s sock = Some u"
  shows "machine_of A (snd (replied W sock i (dispatch q W now code sock u args s))) =
    machine_request now sock u code args (machine_of A s)"
proof -
  let ?v = "view (A (m_db s))"
  have ok: "db_ok ok A (m_db s)" using inv by (simp add: server_with_def db_inv_def)
  consider "code \<in> {EN_REGISTER, EN_LOGIN}" | "code = GR_CREATE_GROUP" | "code = GR_INVITE_USER"
    | "code \<in> {GR_SET_STATUS, GR_REMOVE_USER, GR_CLOSE_GROUP}" | "code \<in> {LST_ADD_ITEM, LST_REMOVE_ITEM, LST_SET_ITEM}"
    | "code \<in> {EN_LOGOUT, GR_GROUP_LIST, RE_RESTORE}"
    | "code \<notin> {EN_REGISTER, EN_LOGIN, GR_CREATE_GROUP, GR_INVITE_USER, GR_SET_STATUS, GR_REMOVE_USER, GR_CLOSE_GROUP,
        LST_ADD_ITEM, LST_REMOVE_ITEM, LST_SET_ITEM, EN_LOGOUT, GR_GROUP_LIST, RE_RESTORE}" by blast
  then show ?thesis
  proof cases
    case 1
    obtain r c where spec: "spec_account code sock args (users_abs A s) = (r, c)" by fastforce
    note served = account_request [OF ok 1 args(1) spec, of W i now u, unfolded account_done_def]
    from in_users_eq [where A = A and s = s, OF spec] tables_own_done [OF served] 1 show ?thesis by (auto simp: machine_request_def)
  next
    case 2
    obtain r g where spec: "spec_create now u args \<lparr>database = ?v, mtx = groups_mtx s\<rparr> = (r, g)" by fastforce
    note tables_own_done [OF create_request [OF ok args(1) safe(2,1) spec, of W sock i]]
    from in_groups_eq [where f = "spec_create now u args" and A = A and s = s, OF spec blind_requests(1)] this 2 show ?thesis by (simp add: machine_request_def)
  next
    case 3
    obtain r g where spec: "spec_invite u args \<lparr>database = ?v, mtx = groups_mtx s\<rparr> = (r, g)" by fastforce
    note tables_invite_done [OF invite_request [OF inv args [unfolded 3] safe(1) spec, of W sock i now]]
    from in_groups_eq [where f = "spec_invite u args" and A = A and s = s, OF spec blind_requests(2)] this 3 show ?thesis by (simp add: machine_request_def)
  next
    case 4
    obtain r g where spec: "spec_group_request u code args \<lparr>database = ?v, mtx = groups_mtx s\<rparr> = (r, g)" by fastforce
    note tables_request_done [OF group_request [OF inv 4 args safe(1) spec, of W sock i now]]
    from in_groups_eq [where f = "spec_group_request u code args" and A = A and s = s, OF spec blind_requests(3)] this 4 show ?thesis by (auto simp: machine_request_def)
  next
    case 5
    obtain r g where spec: "spec_list_request u code args \<lparr>database = ?v, mtx = lists_mtx s\<rparr> = (r, g)" by fastforce
    note tables_request_done [OF list_request [OF inv 5 args safe(1) spec, of W sock i now]]
    from in_lists_eq [where f = "spec_list_request u code args" and A = A and s = s, OF spec blind_requests(4)] this 5 show ?thesis by (auto simp: machine_request_def)
  next
    case 6
    from quiet_machine [OF quiet_request [OF inv safe(1) online this] this] show ?thesis .
  next
    case 7
    then have "dispatch q W now code sock u args s = (Ret (), s)" by (simp add: dispatch_def prog_simps)
    then show ?thesis using 7 by (simp add: machine_request_def replied_def machine_of_def)
  qed
qed

end

section \<open>Packets and clients that go\<close>

definition machine_drop :: "int \<Rightarrow> machine \<Rightarrow> machine" where
  "machine_drop sock a = (let x = go_offline sock (a_online a, a_opposite a) in a\<lparr>a_online := fst x, a_opposite := snd x\<rparr>)"

definition machine_packet :: "string \<Rightarrow> message \<Rightarrow> machine \<Rightarrow> machine" where
  "machine_packet now msg a = (case Parser_ctor (getMessage msg) of
     Ret p \<Rightarrow>
       (let sock = getSocket msg; u = (case a_online a sock of None \<Rightarrow> '''' | Some u \<Rightarrow> u) in
        if a_online a sock = None \<and> getMsgCode p \<notin> {EN_REGISTER, EN_LOGIN} then a
        else machine_request now sock u (getMsgCode p) (getArguments p) (a\<lparr>a_online := (a_online a)(sock \<mapsto> u)\<rparr>))
   | _ \<Rightarrow> a)"

lemma drops_tables [simp]:
  "a_tables (fold machine_drop ds a) = a_tables a" "a_groups (fold machine_drop ds a) = a_groups a"
  "a_lists (fold machine_drop ds a) = a_lists a"
  by (induction ds arbitrary: a) (simp_all add: machine_drop_def Let_def)

lemma drops_online: "a_online (fold machine_drop ds a) sock = Some u \<Longrightarrow> a_online a sock = Some u"
proof (induction ds arbitrary: a)
  case (Cons d ds)
  then have "a_online (machine_drop d a) sock = Some u" by simp
  then show ?case by (auto simp: machine_drop_def go_offline_def Let_def split: if_splits)
qed simp

lemma machine_drops:
  "(a_online (fold machine_drop ds a), a_opposite (fold machine_drop ds a)) = fold go_offline ds (a_online a, a_opposite a)"
  by (induction ds arbitrary: a) (simp_all add: machine_drop_def Let_def)

lemma machine_replied:
  "m_db (snd x) = m_db s \<Longrightarrow> m_rest (snd x) = m_rest s \<Longrightarrow> machine_of A (snd (replied W sock i x)) = machine_of A s"
  by (cases x; cases "fst x") (simp_all add: replied_def machine_of_def m_rest_def online_of_def)

context sql_query
begin

lemma settled_machine:
  assumes inv: "server_inv ok A s" and msg: "spliceable (getMessage msg)" and now: "safe_text now"
    and none: "disconnected_sockets (m_server s) = []"
  shows "machine_of A (snd (message_handler q W now msg i s)) = machine_packet now msg (machine_of A s)"
proof -
  let ?sock = "getSocket msg"
  have unhandled: "machine_of A (snd (message_handler q W now msg i s)) = machine_of A s"
    if "code_handler q W now msg s = (r, s)" for r
    using machine_replied [of "(r, s)" s A W ?sock i] that by (simp add: settled_handler [OF none])
  show ?thesis
  proof (cases "Parser_ctor (getMessage msg)")
    case p: (Ret p)
    let ?code = "getMsgCode p" and ?args = "getArguments p"
    have online: "a_online (machine_of A s) = m_online s" by (simp add: machine_of_def)
    show ?thesis
    proof (cases "m_online s ?sock = None \<and> ?code \<notin> {EN_REGISTER, EN_LOGIN}")
      case True
      then have "code_handler q W now msg s = (Throw (Own UserIsOfflineException), s)"
        using p by (simp add: code_handler_def Let_def prog_simps)
      from unhandled [OF this] show ?thesis using True p by (simp add: machine_packet_def online Let_def)
    next
      case False
      let ?u = "name_on ?sock s" and ?n = "named ?sock s"
      have u: "safe_text ?u"
        using inv by (auto simp: name_on_def server_with_def known_name_def split: option.split)
      have ninv: "server_inv ok A ?n"
        using inv by (auto simp: server_with_def name_on_def known_name_def split: option.split)
      have here: "m_online ?n ?sock = Some ?u" by simp
      have "message_handler q W now msg i s = replied W ?sock i (dispatch q W now ?code ?sock ?u ?args ?n)"
        using named_handler [OF p none] False by blast
      moreover have "machine_of A ?n = (machine_of A s)\<lparr>a_online := (m_online s)(?sock \<mapsto> ?u)\<rparr>"
        by (simp add: machine_of_def)
      then have "machine_packet now msg (machine_of A s) = machine_request now ?sock ?u ?code ?args (machine_of A ?n)"
        using False p by (auto simp: machine_packet_def online name_on_def Let_def)
      ultimately show ?thesis
        using dispatch_machine [OF ninv spliceable_args [OF msg p] u now here, of W i] by simp
    qed
  qed (use unhandled in \<open>simp_all add: code_handler_def prog_simps machine_packet_def\<close>)
qed

lemma handler_machine:
  assumes inv: "server_inv ok A s" and "spliceable (getMessage msg)" and "safe_text now"
  shows "machine_of A (snd (message_handler q W now msg i s)) =
    machine_packet now msg (fold machine_drop (disconnected_sockets (m_server s)) (machine_of A s))"
proof -
  have "machine_of A (settled s) = fold machine_drop (disconnected_sockets (m_server s)) (machine_of A s)" (is "_ = ?m")
  proof -
    have "(a_online ?m, a_opposite ?m) = online_of (settled s)"
      unfolding machine_drops settled_simps(6) by (simp add: machine_of_def online_of_def)
    moreover have "a_tables ?m = tables (view (A (m_db s)))" "a_groups ?m = groups_mtx s" "a_lists ?m = lists_mtx s"
      by (simp_all add: machine_of_def)
    ultimately show ?thesis by (simp add: machine_of_def online_of_def del: settled_simps(6,7))
  qed
  then show ?thesis
    using settled_machine [OF server_settled [OF inv], of msg now W i] assms(2,3) by (simp flip: handler_settles)
qed

end

section \<open>A turn of the dispatcher\<close>

lemma machine_same: "m_db t = m_db s \<Longrightarrow> m_rest t = m_rest s \<Longrightarrow> machine_of A t = machine_of A s"
  by (simp add: machine_of_def m_rest_def online_of_def)

lemma machine_frame [simp]:
  "machine_of A (s\<lparr>threads := ts\<rparr>) = machine_of A s" "machine_of A (s\<lparr>m_server := sv\<rparr>) = machine_of A s"
  by (simp_all add: machine_of_def)

text \<open>A turn that does not run a handler ends the dispatcher.\<close>

lemma turn_runs_handler:
  obtains "fst (dispatch_turn q W (now, order, []) s) \<noteq> Ret ()"
    and "machine_of A (snd (dispatch_turn q W (now, order, []) s)) = machine_of A s"
  | m ms i t where "messages (m_server s) = m # ms"
    and "machine_of A (snd (dispatch_turn q W (now, order, []) s)) = machine_of A (snd (message_handler q W now m i t))"
    and "m_db t = m_db s" and "m_rest t = m_rest s"
    and "disconnected_sockets (m_server t) = disconnected_sockets (m_server s)"
proof (cases "messages (m_server s)")
  case Nil
  then have "dispatch_turn q W (now, order, []) s = (Undef, s)"
    by (simp add: dispatch_turn_def take_packet_def prog_simps zoom_def put_server_def)
  with that(1) show thesis by simp
next
  case (Cons m ms)
  let ?s = "s\<lparr>m_server := (m_server s)\<lparr>messages := ms\<rparr>\<rparr>"
  have take: "on_server take_packet s = (Ret m, ?s)"
    using Cons by (simp add: take_packet_def prog_simps zoom_def put_server_def)
  let ?i = "runs_free ?s" and ?t = "?s\<lparr>threads := (threads ?s)[runs_free ?s := True]\<rparr>"
  show thesis
  proof (cases "?i = THREADS_MAX")
    case True
    then have "dispatch_turn q W (now, order, []) s = (Hang, ?s)" using take by (simp add: dispatch_turn_def prog_simps)
    then show thesis by (intro that(1)) simp_all
  next
    case False
    have run: "snd (dispatch_turn q W (now, order, []) s) =
        (case order of Late_store \<Rightarrow> snd (thn (message_handler q W now m ?i) (store_slot ?i) ?s)
         | _ \<Rightarrow> snd (message_handler q W now m ?i ?t))"
      using False take
      by (cases "message_handler q W now m ?i ?t"; cases "fst (message_handler q W now m ?i ?t)")
        (simp_all add: dispatch_turn_def store_slot_def prog_simps thn_def bnd_def split: race.split)
    show thesis
    proof (cases "order = Late_store")
      case True
      have "machine_of A (snd (thn (message_handler q W now m ?i) (store_slot ?i) ?s)) =
          machine_of A (snd (message_handler q W now m ?i ?s))"
        by (cases "message_handler q W now m ?i ?s"; cases "fst (message_handler q W now m ?i ?s)")
          (simp_all add: store_slot_def prog_simps thn_def bnd_def)
      then show thesis using that(2) [OF Cons, of ?i ?s] run True by simp
    next
      case False
      then show thesis using that(2) [OF Cons, of ?i ?t] run by (simp split: race.splits)
    qed
  qed
qed

context sql_query
begin

lemma turn_machine:
  assumes inv: "server_inv ok A s" and queue: "queue_ok s" and now: "safe_text now"
  obtains "fst (dispatch_turn q W (now, order, []) s) \<noteq> Ret ()"
    and "machine_of A (snd (dispatch_turn q W (now, order, []) s)) = machine_of A s"
  | m ms where "messages (m_server s) = m # ms" and "machine_of A (snd (dispatch_turn q W (now, order, []) s)) =
      machine_packet now m (fold machine_drop (disconnected_sockets (m_server s)) (machine_of A s))"
proof (rule turn_runs_handler [of q W now order s A])
  fix m ms i t
  assume m: "messages (m_server s) = m # ms"
    and turn: "machine_of A (snd (dispatch_turn q W (now, order, []) s)) = machine_of A (snd (message_handler q W now m i t))"
    and t: "m_db t = m_db s" "m_rest t = m_rest s" "disconnected_sockets (m_server t) = disconnected_sockets (m_server s)"
  have "m_online t = m_online s" using t(2) by (simp add: m_rest_def online_of_def)
  with inv t(1) have "server_inv ok A t" by (rule inv_frame)
  moreover have "spliceable (getMessage m)" using queue m by (simp add: queue_ok_def)
  ultimately have "machine_of A (snd (dispatch_turn q W (now, order, []) s)) =
      machine_packet now m (fold machine_drop (disconnected_sockets (m_server s)) (machine_of A s))"
    unfolding turn machine_same [OF t(1,2), symmetric] t(3) [symmetric] by (rule handler_machine) (rule now)
  with m show thesis by (rule that(2))
qed (rule that(1))

end

section \<open>Runs\<close>

datatype event = Packet string message | Gone int

fun perform :: "event \<Rightarrow> machine \<Rightarrow> machine" where
  "perform (Packet now m) a = machine_packet now m a"
| "perform (Gone sock) a = machine_drop sock a"

fun packets_of :: "event list \<Rightarrow> message list" where
  "packets_of [] = []"
| "packets_of (Packet now m # es) = m # packets_of es"
| "packets_of (Gone sock # es) = packets_of es"

lemma packets_of_append [simp]: "packets_of (xs @ ys) = packets_of xs @ packets_of ys"
  by (induction xs rule: packets_of.induct) simp_all

lemma perform_gone: "fold perform (map Gone ds) a = fold machine_drop ds a" "packets_of (map Gone ds) = []"
  by (induction ds arbitrary: a) simp_all

lemma quiet_step:
  assumes "step W spurious t s n" and "t = Dispatcher \<Longrightarrow> dpc s \<notin> {D_pop, D_run}"
  shows "taken n = taken s \<and> (dpc n = D_dead \<longleftrightarrow> dpc s = D_dead)"
  using assms by (elim stepE) (auto simp: wake_dispatcher_def split: if_splits)

text \<open>The events explain a state: they lead the machine to it, and their packets are those taken from the
  queue; the last one may be missing when the dispatcher has ended.\<close>

definition explains :: "('db \<Rightarrow> store) \<Rightarrow> machine \<Rightarrow> event list \<Rightarrow> ('db, 'n) system \<Rightarrow> bool" where
  "explains A a es s \<longleftrightarrow> machine_of A (m_part s) = fold perform es a \<and>
     (if dpc (t_part s) = D_dead then prefix (packets_of es) (taken (t_part s)) else packets_of es = taken (t_part s))"

context sql_query
begin

lemma step_explained:
  assumes "system_step q W spurious A s t" and inv: "system_inv ok A (\<lambda>_. True) s" and old: "explains A a es s"
    and clean: "\<forall>m \<in> set (pushed (t_part t)). spliceable (getMessage m)"
  shows "\<exists>more. explains A a (es @ more) t"
  using assms(1)
proof cases
  case (thread_step th n)
  with quiet_step [OF thread_step(2,3)] old show ?thesis by (intro exI [of _ "[]"]) (simp add: explains_def)
next
  case (packet_step now order r d)
  have queue: "queue_ok (m_part s)" and good: "server_inv ok A (m_part s)"
    using clean packet_step(1) inv by (auto simp: queue_ok_def system_inv_def queue_inv_def)
  show ?thesis
  proof (rule turn_machine [OF good queue packet_step(5), of W order])
    assume "fst (dispatch_turn q W (now, order, []) (m_part s)) \<noteq> Ret ()"
      and "machine_of A (snd (dispatch_turn q W (now, order, []) (m_part s))) = machine_of A (m_part s)"
    with old packet_step show ?thesis by (intro exI [of _ "[]"]) (simp add: explains_def)
  next
    fix m ms
    assume m: "messages (m_server (m_part s)) = m # ms"
      and "machine_of A (snd (dispatch_turn q W (now, order, []) (m_part s))) =
        machine_packet now m (fold machine_drop (disconnected_sockets (m_server (m_part s))) (machine_of A (m_part s)))"
    moreover have "take 1 (messages (srv (t_part s))) = [m]" using m inv by (simp add: system_inv_def)
    ultimately show ?thesis
      using old packet_step
      by (intro exI [of _ "map Gone (disconnected_sockets (m_server (m_part s))) @ [Packet now m]"])
        (simp add: explains_def perform_gone)
  qed
qed

lemma run_explained:
  assumes "(system_step q W spurious A)\<^sup>*\<^sup>* s t" and "system_inv ok A (\<lambda>_. True) s" and "explains A a es s"
    and "\<forall>m \<in> set (pushed (t_part t)). spliceable (getMessage m)"
  shows "\<exists>more. explains A a (es @ more) t"
  using assms
proof (induction rule: rtranclp_induct)
  case base
  then show ?case by (intro exI [of _ "[]"]) simp
next
  case (step t u)
  have clean: "\<forall>m \<in> set (pushed (t_part t)). spliceable (getMessage m)"
    using system_pushed [OF step(2)] step.prems(3) by blast
  with step.IH step.prems obtain more where more: "explains A a (es @ more) t" by blast
  have "system_inv ok A (\<lambda>_. True) t" using system_run_inv [OF step(1) step.prems(1) _ clean] by (simp add: spares_nothing)
  from step_explained [OF step(2) this more step.prems(3)] show ?case by (metis append_assoc)
qed

end

end
