(* ===== verification/Traces.thy ===== *)
theory Traces
  imports Effects
begin

text \<open>
  Where the data come from: an account, the status of a member or an item that is there at the
  end of a run of the whole server and was not at its start was put there by a packet, and by a
  packet of somebody who was allowed to.  The proofs follow the steps of the machine of \<open>Effects\<close>.
\<close>

section \<open>What a request can add\<close>

text \<open>\<open>v\<close>: the tables before the packet; \<open>who\<close>: the name of whoever is online on its socket.\<close>

definition gives_account :: "string \<Rightarrow> string \<Rightarrow> ilist \<Rightarrow> string option \<Rightarrow> int \<Rightarrow> string list \<Rightarrow> bool" where
  "gives_account u pwd v who code args \<longleftrightarrow> code = EN_REGISTER \<and> args = [u, pwd] \<and> valid_credentials u pwd"

definition gives_status :: "int \<Rightarrow> string \<Rightarrow> string \<Rightarrow> ilist \<Rightarrow> string option \<Rightarrow> int \<Rightarrow> string list \<Rightarrow> bool" where
  "gives_status k u st v who code args \<longleftrightarrow> (\<exists>e. who = Some e \<and>
     ((code = GR_CREATE_GROUP \<and> length args = 1 \<and> e = u \<and> st = ''admin'' \<and> k = last_group v + 1) \<or>
      (length args = 3 \<and> code_val (args ! 0) = k \<and> args ! 1 = u \<and> args ! 2 = st \<and> (\<exists>est. status_of v k e = Some est \<and>
        (code = GR_INVITE_USER \<or> (code = GR_SET_STATUS \<and> isAuthorized (getPermission est) Perm_FullControl))))))"

definition gives_item :: "int \<Rightarrow> string \<Rightarrow> ilist \<Rightarrow> string option \<Rightarrow> int \<Rightarrow> string list \<Rightarrow> bool" where
  "gives_item k x v who code args \<longleftrightarrow>
     (\<exists>e est. who = Some e \<and> status_of v k e = Some est \<and> isAuthorized (getPermission est) Perm_ReadWrite) \<and>
     code_val (args ! 0) = k \<and>
     ((code = LST_ADD_ITEM \<and> length args = 4 \<and> args ! 1 = x) \<or> (code = LST_SET_ITEM \<and> length args = 5 \<and> args ! 2 = x))"

lemma pair_args: "length args = 2 \<Longrightarrow> args = [args ! 0, args ! Suc 0]"
  by (cases args; cases "tl args") auto

lemma status_change_item [simp]: "status_of (change_item k key i y v) k' u = status_of v k' u"
  by (simp add: change_item_def)

lemma item_change_item:
  "item_of (change_item k key i y v) k' x = Some z \<Longrightarrow> item_of v k' x = Some z \<or> (k' = k \<and> x = i)"
  by (auto simp: change_item_def split: if_splits)

lemmas request_specs = machine_request_def in_groups_def in_lists_def in_users_def spec_account_def spec_Register_def
  spec_Login_def put_online_def spec_create_def spec_invite_def spec_group_request_def spec_list_request_def
  spec_createGroup_def spec_removeGroup_def spec_addUser_def spec_removeUser_def spec_setUserStatus_def
  spec_addItem_def spec_removeItem_def spec_updateItem_def spec_writer_def locked_def Let_def

lemma request_account:
  "users_tab (a_tables (machine_request now sock e code args a)) u = Some pwd \<Longrightarrow>
   users_tab (a_tables a) u = Some pwd \<or> gives_account u pwd v who code args"
  by (auto simp: request_specs gives_account_def change_item_def set_member_def set_item_def
      intro: pair_args split: if_splits option.splits sum.splits)

lemma request_item:
  "item_of (a_tables (machine_request now sock e code args a)) k x = Some y \<Longrightarrow>
   item_of (a_tables a) k x = Some y \<or> gives_item k x (a_tables a) (Some e) code args"
  by (auto simp: request_specs gives_item_def group_arity_def list_arity_def dest!: item_change_item
      split: if_splits option.splits sum.splits)

lemma request_status:
  "status_of (a_tables (machine_request now sock e code args a)) k u = Some st \<Longrightarrow>
   last_group (a_tables a) + 1 < 2 ^ 63 \<Longrightarrow>
   status_of (a_tables a) k u = Some st \<or> gives_status k u st (a_tables a) (Some e) code args"
  by (auto simp: request_specs gives_status_def group_arity_def list_arity_def split: if_splits option.splits sum.splits)

section \<open>Where it came from\<close>

text \<open>
  \<open>came_from\<close>: somewhere in the run from \<open>d\<close> to \<open>s\<close> the dispatcher took a packet that satisfies \<open>Q\<close>, a
  condition on the tables at that moment, on who was online on its socket, and on its code and arguments.
\<close>

definition came_from ::
  "'db engine \<Rightarrow> 'n winsock \<Rightarrow> bool \<Rightarrow> ('db \<Rightarrow> store) \<Rightarrow> ('db, 'n) system \<Rightarrow> ('db, 'n) system \<Rightarrow>
   (ilist \<Rightarrow> string option \<Rightarrow> int \<Rightarrow> string list \<Rightarrow> bool) \<Rightarrow> bool" where
  "came_from q W spurious A d s Q \<longleftrightarrow> (\<exists>a b m ms p. (system_step q W spurious A)\<^sup>*\<^sup>* d a \<and>
     system_step q W spurious A a b \<and> (system_step q W spurious A)\<^sup>*\<^sup>* b s \<and>
     messages (m_server (m_part a)) = m # ms \<and> Parser_ctor (getMessage m) = Ret p \<and>
     Q (tables (view (A (m_db (m_part a))))) (m_online (m_part a) (getSocket m)) (getMsgCode p) (getArguments p))"

text \<open>The step in which something becomes true.\<close>

lemma becomes_true:
  assumes "R\<^sup>*\<^sup>* d s" and "P s" and "\<not> P d"
  obtains a b where "R\<^sup>*\<^sup>* d a" and "R a b" and "R\<^sup>*\<^sup>* b s" and "\<not> P a" and "P b"
proof -
  have "\<exists>a b. R\<^sup>*\<^sup>* d a \<and> R a b \<and> R\<^sup>*\<^sup>* b s \<and> \<not> P a \<and> P b"
    using assms
  proof (induction rule: rtranclp_induct)
    case (step b c)
    show ?case
    proof (cases "P b")
      case True
      with step obtain a' b' where "R\<^sup>*\<^sup>* d a'" "R a' b'" "R\<^sup>*\<^sup>* b' b" "\<not> P a'" "P b'" by blast
      with rtranclp.rtrancl_into_rtrancl [OF this(3) step(2)] show ?thesis by blast
    qed (use step in blast)
  qed simp
  then show thesis using that by blast
qed

context sql_query
begin

text \<open>A step of the system leaves the machine as it is or handles one packet.\<close>

lemma step_machine:
  assumes "system_step q W spurious A s t" and inv: "system_inv ok A (\<lambda>_. True) s"
    and clean: "\<forall>m \<in> set (pushed (t_part t)). spliceable (getMessage m)"
  obtains "machine_of A (m_part t) = machine_of A (m_part s)"
  | now m ms where "last_group (view (A (m_db (m_part s)))) + 1 < 2 ^ 63" and "messages (m_server (m_part s)) = m # ms"
    and "machine_of A (m_part t) =
      machine_packet now m (fold machine_drop (disconnected_sockets (m_server (m_part s))) (machine_of A (m_part s)))"
  using assms(1)
proof cases
  case (thread_step th n)
  then show thesis using that(1) by simp
next
  case (packet_step now order r d)
  have queue: "queue_ok (m_part s)" and good: "server_inv ok A (m_part s)"
    using clean packet_step(1) inv by (auto simp: queue_ok_def system_inv_def queue_inv_def)
  show thesis
    by (rule turn_machine [OF good queue packet_step(5), of W order])
      (use that packet_step in \<open>auto simp: room_def\<close>)
qed

text \<open>
  A fact that only a packet with \<open>Q\<close> can make true, and that the stored messages have no part in, came
  from such a packet.
\<close>

lemma traced:
  assumes run: "(system_step q W spurious A)\<^sup>*\<^sup>* d s" and inv: "system_inv ok A (\<lambda>_. True) d"
    and clean: "\<forall>m \<in> set (pushed (t_part s)). spliceable (getMessage m)"
    and fact: "F (tables (view (A (m_db (m_part s)))))" "\<not> F (tables (view (A (m_db (m_part d)))))"
    and by_Q: "\<And>now sock u code args a. F (a_tables (machine_request now sock u code args a)) \<Longrightarrow>
      last_group (a_tables a) + 1 < 2 ^ 63 \<Longrightarrow> F (a_tables a) \<or> Q (a_tables a) (Some u) code args"
    and by_reg: "\<And>now sock u code args a. code \<in> {EN_REGISTER, EN_LOGIN} \<Longrightarrow>
      F (a_tables (machine_request now sock u code args a)) \<Longrightarrow> F (a_tables a) \<or> (\<forall>who. Q (a_tables a) who code args)"
  shows "came_from q W spurious A d s Q"
proof -
  let ?F = "\<lambda>s. F (a_tables (machine_of A (m_part s)))"
  have tables: "a_tables (machine_of A (m_part s)) = tables (view (A (m_db (m_part s))))" for s
    by (simp add: machine_of_def)
  obtain a b where ab: "(system_step q W spurious A)\<^sup>*\<^sup>* d a" "system_step q W spurious A a b"
    "(system_step q W spurious A)\<^sup>*\<^sup>* b s" and new: "\<not> ?F a" "?F b"
    using becomes_true [of _ d s ?F, OF run, unfolded tables, OF fact] by (metis tables)
  have grows: "set (pushed (t_part x)) \<subseteq> set (pushed (t_part y))" if "(system_step q W spurious A)\<^sup>*\<^sup>* x y" for x y
    using that by (induction rule: rtranclp_induct) (auto dest: system_pushed)
  have clean_b: "\<forall>m \<in> set (pushed (t_part b)). spliceable (getMessage m)" using grows [OF ab(3)] clean by blast
  then have "\<forall>m \<in> set (pushed (t_part a)). spliceable (getMessage m)" using system_pushed [OF ab(2)] by blast
  from system_run_inv [OF ab(1) inv _ this] have inv_a: "system_inv ok A (\<lambda>_. True) a" by (simp add: spares_nothing)
  let ?v = "tables (view (A (m_db (m_part a))))"
  show ?thesis
  proof (rule step_machine [OF ab(2) inv_a clean_b])
    assume "machine_of A (m_part b) = machine_of A (m_part a)"
    with new show ?thesis by simp
  next
    fix now m ms
    let ?x = "fold machine_drop (disconnected_sockets (m_server (m_part a))) (machine_of A (m_part a))"
    let ?sock = "getSocket m"
    assume few: "last_group (view (A (m_db (m_part a)))) + 1 < 2 ^ 63" and m: "messages (m_server (m_part a)) = m # ms"
      and b: "machine_of A (m_part b) = machine_packet now m ?x"
    have F: "F (a_tables (machine_packet now m ?x))" and old: "\<not> F ?v" and x: "a_tables ?x = ?v"
      using new by (simp_all add: b tables)
    obtain p where p: "Parser_ctor (getMessage m) = Ret p"
      using F old x by (cases "Parser_ctor (getMessage m)") (simp_all add: machine_packet_def)
    have "Q ?v (m_online (m_part a) ?sock) (getMsgCode p) (getArguments p)"
    proof (cases "a_online ?x ?sock")
      case None
      let ?y = "?x\<lparr>a_online := (a_online ?x)(?sock \<mapsto> '''')\<rparr>"
      have "getMsgCode p \<in> {EN_REGISTER, EN_LOGIN}"
        "F (a_tables (machine_request now ?sock '''' (getMsgCode p) (getArguments p) ?y))"
        using F old x p None by (auto simp: machine_packet_def Let_def split: if_splits)
      from by_reg [OF this] old show ?thesis by (simp add: tables)
    next
      case (Some u)
      let ?y = "?x\<lparr>a_online := (a_online ?x)(?sock \<mapsto> u)\<rparr>"
      have y: "a_tables ?y = ?v" using x by simp
      have "F (a_tables (machine_request now ?sock u (getMsgCode p) (getArguments p) ?y))"
        using F p Some by (simp add: machine_packet_def Let_def)
      from by_Q [OF this] few old have "Q ?v (Some u) (getMsgCode p) (getArguments p)" unfolding y by simp
      moreover have "m_online (m_part a) ?sock = Some u"
        using drops_online [OF Some] by (simp add: machine_of_def)
      ultimately show ?thesis by simp
    qed
    with ab m p show ?thesis unfolding came_from_def by blast
  qed
qed

lemma data_traced:
  assumes run: "(system_step q W spurious A)\<^sup>*\<^sup>* d s" and inv: "system_inv ok A (\<lambda>_. True) d"
    and clean: "\<forall>m \<in> set (pushed (t_part s)). spliceable (getMessage m)"
  shows "users_tab (view (A (m_db (m_part s)))) u = Some pwd \<Longrightarrow> users_tab (view (A (m_db (m_part d)))) u \<noteq> Some pwd \<Longrightarrow>
      came_from q W spurious A d s (gives_account u pwd)"
    and "status_of (view (A (m_db (m_part s)))) k u = Some st \<Longrightarrow> status_of (view (A (m_db (m_part d)))) k u \<noteq> Some st \<Longrightarrow>
      came_from q W spurious A d s (gives_status k u st)"
    and "item_of (view (A (m_db (m_part s)))) k x = Some y \<Longrightarrow> item_of (view (A (m_db (m_part d)))) k x \<noteq> Some y \<Longrightarrow>
      came_from q W spurious A d s (gives_item k x)"
proof -
  have quiet: "members_tab (a_tables (machine_request now sock e code args a)) = members_tab (a_tables a)"
    "items_tab (a_tables (machine_request now sock e code args a)) = items_tab (a_tables a)"
    if "code \<in> {EN_REGISTER, EN_LOGIN}" for now sock e code args a
    using that by (auto simp: machine_request_def in_users_def spec_account_def spec_Register_def spec_Login_def
      put_online_def Let_def)
  show "came_from q W spurious A d s (gives_account u pwd)"
    if "users_tab (view (A (m_db (m_part s)))) u = Some pwd" "users_tab (view (A (m_db (m_part d)))) u \<noteq> Some pwd"
    by (rule traced [OF run inv clean, where F = "\<lambda>v. users_tab v u = Some pwd"])
      (simp_all add: that, erule request_account, metis request_account)
  show "came_from q W spurious A d s (gives_status k u st)"
    if "status_of (view (A (m_db (m_part s)))) k u = Some st" "status_of (view (A (m_db (m_part d)))) k u \<noteq> Some st"
    by (rule traced [OF run inv clean, where F = "\<lambda>v. status_of v k u = Some st"])
      (use that in simp, use that in simp, erule (1) request_status, simp only: quiet simp_thms)
  show "came_from q W spurious A d s (gives_item k x)"
    if "item_of (view (A (m_db (m_part s)))) k x = Some y" "item_of (view (A (m_db (m_part d)))) k x \<noteq> Some y"
    by (rule traced [OF run inv clean, where F = "\<lambda>v. item_of v k x = Some y"])
      (use that in simp, use that in simp, erule request_item, simp only: quiet simp_thms)
qed

end

end
