(* ===== verification/Endings.thy ===== *)
theory Endings
  imports Effects
begin

text \<open>
  How the handler of a packet ends: it returns, except where an operation waits for a mutex that
  nobody unlocks, or does something that C++ leaves undefined; which requests these are.
\<close>

section \<open>The end of a request\<close>

text \<open>\<open>ending\<close>: the handler turns exceptions into replies.\<close>

definition ending :: "(cxx_exn, 'a) outcome \<Rightarrow> (cxx_exn, unit) outcome" where
  "ending r = (case r of Undef \<Rightarrow> Undef | Hang \<Rightarrow> Hang | _ \<Rightarrow> Ret ())"

lemma ending_simps [simp]:
  "ending (Ret a) = Ret ()" "ending (Throw e) = Ret ()" "ending Undef = Undef" "ending Hang = Hang"
  by (simp_all add: ending_def)

lemma done_ends:
  "request_done A W s sock m U names (r, v) lk y \<Longrightarrow> fst y = ending r"
  "invite_done A W s sock args (r, v) lk y \<Longrightarrow> fst y = ending r"
  "own_done A W sv sock reply (r', v) e y \<Longrightarrow> fst y = ending r'"
  by (cases r; auto simp: request_done_def invite_done_def split: if_splits)+
     (cases r'; simp add: own_done_def)

lemma quiet_ends:
  "quiet_done A W s sock u code args y \<Longrightarrow> fst y = Ret ()"
  by (auto simp: quiet_done_def Let_def split: if_splits dest: done_ends)

text \<open>
  Does the request get to the mutex of the groups, to that of the lists?  The handler looks at the number of
  arguments first, and for three of the requests at the name of the other user.
\<close>

definition locks_groups :: "ilist \<Rightarrow> int \<Rightarrow> string list \<Rightarrow> bool" where
  "locks_groups v code args \<longleftrightarrow>
     code \<in> {GR_CREATE_GROUP, GR_CLOSE_GROUP} \<and> length args = 1 \<or>
     (code \<in> {GR_INVITE_USER, GR_SET_STATUS} \<and> length args = 3 \<or> code = GR_REMOVE_USER \<and> length args = 2) \<and>
       users_tab v (args ! 1) \<noteq> None"

definition locks_lists :: "int \<Rightarrow> string list \<Rightarrow> bool" where
  "locks_lists code args \<longleftrightarrow> code \<in> {LST_ADD_ITEM, LST_REMOVE_ITEM, LST_SET_ITEM} \<and> length args = list_arity code"

text \<open>
  The requests of \<open>u\<close> whose behaviour is undefined once they have the mutex: a group closed by a member who is not an administrator, an
  invitation by a member without control, when there is room and the other user is not a member, and the addition to an item whose quantity
  then does not fit into an \<open>int\<close>.
\<close>

definition undefined_request :: "ilist \<Rightarrow> string \<Rightarrow> int \<Rightarrow> string list \<Rightarrow> bool" where
  "undefined_request v u code args \<longleftrightarrow> (let k = code_val (args ! 0) in
     case status_of v k u of
       None \<Rightarrow> False
     | Some st \<Rightarrow>
         if code = GR_CLOSE_GROUP then \<not> is_admin st
         else if code = GR_INVITE_USER
         then \<not> may_control st \<and> status_of v k (args ! 1) = None \<and>
           (case group_of v k of None \<Rightarrow> False | Some i \<Rightarrow> g_users i \<noteq> 4)
         else code = LST_ADD_ITEM \<and> may_write st \<and>
           (case item_of v k (args ! 1) of
              None \<Rightarrow> False
            | Some (n, m) \<Rightarrow>
                (case (stoi (to_string n), stoi (args ! 2)) of (Inr a, Inr b) \<Rightarrow> \<not> fits_int (a + b) | _ \<Rightarrow> False)))"

definition request_end :: "bool \<Rightarrow> bool \<Rightarrow> ilist \<Rightarrow> string \<Rightarrow> int \<Rightarrow> string list \<Rightarrow> (cxx_exn, unit) outcome" where
  "request_end gm lm v u code args =
     (if locks_groups v code args \<and> gm \<or> locks_lists code args \<and> lm then Hang
      else if (locks_groups v code args \<or> locks_lists code args) \<and> undefined_request v u code args then Undef
      else Ret ())"

section \<open>The operations\<close>

lemma group_count:
  assumes "group_inv v" and "status_of v k u = Some st"
  obtains i where "group_of v k = Some i" and "stoi (to_string (g_users i)) = Inr (g_users i)"
    and "fits_int (g_users i - 1)" and "fits_int (g_users i + 1)"
proof -
  obtain i where i: "group_of v k = Some i" using group_inv_member [OF assms] by blast
  from group_invD(3,5) [OF assms(1) this] have "0 < g_users i" "g_users i \<le> 4" by simp_all
  then show thesis
    by (intro that [OF i]) (simp_all add: stoi_to_string fits_int_def INT_MIN_def INT_MAX_def)
qed

lemma create_ends: "ending (fst (spec_create now u args \<lparr>database = v, mtx = gm\<rparr>)) =
    (if length args = 1 \<and> gm then Hang else Ret ())"
  by (simp add: spec_create_def spec_createGroup_def locked_def Let_def)

lemma removeGroup_ends: "ending (fst (spec_removeGroup u k \<lparr>database = v, mtx = gm\<rparr>)) =
    (if gm then Hang else case status_of v k u of None \<Rightarrow> Ret () | Some st \<Rightarrow> if is_admin st then Ret () else Undef)"
  by (simp add: spec_removeGroup_def locked_def split: option.split)

lemma setUserStatus_ends: "ending (fst (spec_setUserStatus u k w st \<lparr>database = v, mtx = gm\<rparr>)) =
    (if gm then Hang else Ret ())"
  by (simp add: spec_setUserStatus_def locked_def Let_def split: option.split)

lemma removeUser_ends:
  assumes "group_inv v"
  shows "ending (fst (spec_removeUser u k w \<lparr>database = v, mtx = gm\<rparr>)) = (if gm then Hang else Ret ())"
proof (cases "status_of v k u")
  case (Some st)
  from group_count [OF assms this] obtain i where "group_of v k = Some i"
    "stoi (to_string (g_users i)) = Inr (g_users i)" "fits_int (g_users i - 1)" .
  then show ?thesis by (simp add: spec_removeUser_def locked_def Let_def Some split: option.split)
qed (simp add: spec_removeUser_def locked_def Let_def)

lemma addUser_ends:
  assumes "group_inv v"
  shows "ending (fst (spec_addUser u k w new \<lparr>database = v, mtx = gm\<rparr>)) =
    (if gm then Hang
     else case status_of v k u of None \<Rightarrow> Ret ()
     | Some st \<Rightarrow> if \<not> may_control st \<and> status_of v k w = None \<and>
           (case group_of v k of None \<Rightarrow> False | Some i \<Rightarrow> g_users i \<noteq> 4) then Undef else Ret ())"
proof (cases "status_of v k u")
  case (Some st)
  from group_count [OF assms this] obtain i where "group_of v k = Some i"
    "stoi (to_string (g_users i)) = Inr (g_users i)" "fits_int (g_users i + 1)" .
  then show ?thesis by (simp add: spec_addUser_def locked_def Let_def Some)
qed (simp add: spec_addUser_def locked_def Let_def)

lemma lists_end:
  "ending (fst (spec_removeItem u k i \<lparr>database = v, mtx = lm\<rparr>)) = (if lm then Hang else Ret ())"
  "ending (fst (spec_updateItem u k key i n m \<lparr>database = v, mtx = lm\<rparr>)) = (if lm then Hang else Ret ())"
  by (simp_all add: spec_removeItem_def spec_updateItem_def spec_writer_def locked_def Let_def split: option.split sum.split)

lemma addItem_ends:
  "ending (fst (spec_addItem u k i n m \<lparr>database = v, mtx = lm\<rparr>)) =
    (if lm then Hang
     else case status_of v k u of None \<Rightarrow> Ret ()
     | Some st \<Rightarrow> if may_write st \<and> (case item_of v k i of None \<Rightarrow> False
         | Some (c, m') \<Rightarrow> (case (stoi (to_string c), stoi n) of (Inr a, Inr b) \<Rightarrow> \<not> fits_int (a + b) | _ \<Rightarrow> False))
         then Undef else Ret ())"
  by (simp add: spec_addItem_def spec_writer_def locked_def Let_def split: option.split sum.split prod.split)

section \<open>The handler\<close>

text \<open>The end of every handler, for a packet that is read and for one that is not.\<close>

definition packet_end :: "('db \<Rightarrow> store) \<Rightarrow> message \<Rightarrow> ('db, 'n) manager \<Rightarrow> (cxx_exn, unit) outcome" where
  "packet_end A msg s = (case (Parser_ctor (getMessage msg), m_online s (getSocket msg)) of
     (Ret p, Some u) \<Rightarrow> request_end (groups_mtx s) (lists_mtx s) (view (A (m_db s))) u (getMsgCode p) (getArguments p)
   | _ \<Rightarrow> Ret ())"

lemma in_spec_ends:
  "ending (fst (spec_invite u args \<lparr>database = v, mtx = gm\<rparr>)) =
    (if length args = 3 \<and> users_tab v (args ! 1) \<noteq> None
     then ending (fst (spec_addUser u (code_val (args ! 0)) (args ! 1) (args ! 2) \<lparr>database = v, mtx = gm\<rparr>)) else Ret ())"
  by (simp add: spec_invite_def)

lemma group_spec_ends:
  assumes "group_inv v" and "code \<in> {GR_SET_STATUS, GR_REMOVE_USER, GR_CLOSE_GROUP}"
  shows "ending (fst (spec_group_request u code args \<lparr>database = v, mtx = gm\<rparr>)) = request_end gm lm v u code args"
proof (cases "length args = group_arity code \<and> (code = GR_CLOSE_GROUP \<or> users_tab v (args ! 1) \<noteq> None)")
  case True
  have locks: "locks_groups v code args" "\<not> locks_lists code args"
    using assms(2) True by (auto simp: locks_lists_def locks_groups_def group_arity_def)
  note defs = spec_group_request_def request_end_def undefined_request_def Let_def
  consider "code = GR_SET_STATUS" | "code = GR_REMOVE_USER" | "code = GR_CLOSE_GROUP" using assms(2) by blast
  then show ?thesis
  proof cases
    case 1
    then show ?thesis using True locks by (auto simp: defs setUserStatus_ends split: option.split)
  next
    case 2
    then show ?thesis using True locks by (auto simp: defs removeUser_ends [OF assms(1)] split: option.split)
  next
    case 3
    then show ?thesis
      using True locks by (cases "status_of v (code_val (args ! 0)) u") (simp_all add: defs removeGroup_ends)
  qed
next
  case False
  then show ?thesis
    using assms(2) by (auto simp: spec_group_request_def request_end_def locks_lists_def locks_groups_def group_arity_def)
qed

lemma list_spec_ends:
  assumes "code \<in> {LST_ADD_ITEM, LST_REMOVE_ITEM, LST_SET_ITEM}"
  shows "ending (fst (spec_list_request u code args \<lparr>database = v, mtx = lm\<rparr>)) = request_end gm lm v u code args"
proof (cases "length args = list_arity code")
  case len: True
  have locks: "locks_lists code args" "\<not> locks_groups v code args"
    using assms len by (auto simp: locks_lists_def locks_groups_def)
  consider "code = LST_ADD_ITEM" | "code = LST_REMOVE_ITEM" | "code = LST_SET_ITEM" using assms by blast
  then show ?thesis
  proof cases
    case 1
    then show ?thesis
      using len locks
      by (cases "status_of v (code_val (args ! 0)) u")
         (simp_all add: spec_list_request_def request_end_def undefined_request_def addItem_ends Let_def)
  next
    case 2
    then show ?thesis
      using len locks
      by (simp add: spec_list_request_def request_end_def undefined_request_def lists_end Let_def split: option.split)
  next
    case 3
    then show ?thesis
      using len locks
      by (simp add: spec_list_request_def request_end_def undefined_request_def lists_end Let_def split: option.split)
  qed
next
  case False
  then show ?thesis
    using assms by (auto simp: spec_list_request_def request_end_def locks_lists_def locks_groups_def)
qed

context sql_query
begin

lemma dispatch_ends:
  assumes inv: "server_inv ok A s" and args: "safe_row args" "numeric_args code args" and safe: "safe_text u" "safe_text now"
    and online: "m_online s sock = Some u"
  shows "fst (replied W sock i (dispatch q W now code sock u args s)) =
    request_end (groups_mtx s) (lists_mtx s) (view (A (m_db s))) u code args"
proof -
  let ?v = "view (A (m_db s))"
  have ok: "db_ok ok A (m_db s)" and groups: "group_inv ?v" using inv by (simp_all add: server_with_def db_inv_def)
  consider "code \<in> {EN_REGISTER, EN_LOGIN}" | "code = GR_CREATE_GROUP" | "code = GR_INVITE_USER"
    | "code \<in> {GR_SET_STATUS, GR_REMOVE_USER, GR_CLOSE_GROUP}" | "code \<in> {LST_ADD_ITEM, LST_REMOVE_ITEM, LST_SET_ITEM}"
    | "code \<in> {EN_LOGOUT, GR_GROUP_LIST, RE_RESTORE}"
    | "code \<notin> {EN_REGISTER, EN_LOGIN, GR_CREATE_GROUP, GR_INVITE_USER, GR_SET_STATUS, GR_REMOVE_USER, GR_CLOSE_GROUP,
        LST_ADD_ITEM, LST_REMOVE_ITEM, LST_SET_ITEM, EN_LOGOUT, GR_GROUP_LIST, RE_RESTORE}" by blast
  then show ?thesis
  proof cases
    case 1
    obtain r c where spec: "spec_account code sock args (users_abs A s) = (r, c)" by fastforce
    then have "ending r = Ret ()"
      by (auto simp: spec_account_def spec_Register_def spec_Login_def Let_def split: if_splits)
    with done_ends(3) [OF account_request [OF ok 1 args(1) spec, of W i now u, unfolded account_done_def fst_conv]]
    show ?thesis using 1 by (auto simp: request_end_def locks_groups_def locks_lists_def)
  next
    case 2
    obtain r g where spec: "spec_create now u args \<lparr>database = ?v, mtx = groups_mtx s\<rparr> = (r, g)" by fastforce
    from done_ends(3) [OF create_request [OF ok args(1) safe(2,1) spec, of W sock i]]
      create_ends [of now u args ?v "groups_mtx s"] spec 2
    show ?thesis
      by (auto simp: request_end_def locks_groups_def locks_lists_def undefined_request_def Let_def split: option.split)
  next
    case 3
    obtain r g where spec: "spec_invite u args \<lparr>database = ?v, mtx = groups_mtx s\<rparr> = (r, g)" by fastforce
    from done_ends(2) [OF invite_request [OF inv args [unfolded 3] safe(1) spec, of W sock i now]]
      in_spec_ends [of u args ?v "groups_mtx s"] spec 3
    show ?thesis
      by (auto simp: addUser_ends [OF groups] request_end_def locks_groups_def locks_lists_def undefined_request_def Let_def
          split: option.split)
  next
    case 4
    obtain r g where spec: "spec_group_request u code args \<lparr>database = ?v, mtx = groups_mtx s\<rparr> = (r, g)" by fastforce
    from done_ends(1) [OF group_request [OF inv 4 args safe(1) spec, of W sock i now]]
      group_spec_ends [OF groups 4, of u args "groups_mtx s" "lists_mtx s"] spec show ?thesis by simp
  next
    case 5
    obtain r g where spec: "spec_list_request u code args \<lparr>database = ?v, mtx = lists_mtx s\<rparr> = (r, g)" by fastforce
    from done_ends(1) [OF list_request [OF inv 5 args safe(1) spec, of W sock i now]]
      list_spec_ends [OF 5, of u args ?v "lists_mtx s" "groups_mtx s"] spec show ?thesis by simp
  next
    case 6
    from quiet_ends [OF quiet_request [OF inv safe(1) online 6]] 6
    show ?thesis by (auto simp: request_end_def locks_groups_def locks_lists_def)
  next
    case 7
    then have "dispatch q W now code sock u args s = (Ret (), s)" by (simp add: dispatch_def prog_simps)
    then show ?thesis using 7 by (auto simp: replied_def request_end_def locks_groups_def locks_lists_def)
  qed
qed

lemma handler_ends_settled:
  assumes inv: "server_inv ok A s" and msg: "spliceable (getMessage msg)" and now: "safe_text now"
    and none: "disconnected_sockets (m_server s) = []"
  shows "fst (message_handler q W now msg i s) = packet_end A msg s"
proof (cases "Parser_ctor (getMessage msg)")
  case p: (Ret p)
  let ?sock = "getSocket msg" and ?code = "getMsgCode p" and ?args = "getArguments p"
  show ?thesis
  proof (cases "m_online s ?sock")
    case (Some u)
    have "safe_text u" using inv Some by (auto simp: server_with_def known_name_def)
    from dispatch_ends [OF inv spliceable_args [OF msg p] this now Some] show ?thesis
      by (simp add: online_handler [OF p Some none] packet_end_def p Some)
  next
    case None
    let ?n = "named ?sock s"
    have last: "packet_end A msg s = Ret ()" by (simp add: packet_end_def None p)
    have name: "name_on ?sock s = ''''" using None by (simp add: name_on_def)
    show ?thesis
    proof (cases "?code \<in> {EN_REGISTER, EN_LOGIN}")
      case False
      then have "code_handler q W now msg s = (Throw (Own UserIsOfflineException), s)"
        using p None by (simp add: code_handler_def Let_def prog_simps)
      then show ?thesis by (simp add: settled_handler [OF none] last replied_def)
    next
      case True
      have "server_inv ok A ?n" using inv name by (auto simp: server_with_def known_name_def)
      moreover have "m_online ?n ?sock = Some ''''" using name by simp
      moreover have "message_handler q W now msg i s = replied W ?sock i (dispatch q W now ?code ?sock '''' ?args ?n)"
        using named_handler [OF p none, of q W now i] True name by simp
      ultimately show ?thesis
        using dispatch_ends [of ?n ?args ?code "''''" now ?sock W i] spliceable_args [OF msg p] now True last
        by (auto simp: request_end_def locks_groups_def locks_lists_def)
    qed
  qed
next
  case (Throw e)
  then show ?thesis by (simp add: settled_handler [OF none] code_handler_def prog_simps replied_def packet_end_def)
qed (use Parser_ctor_cases [of "getMessage msg"] in auto)

lemma handler_ends_as:
  assumes "server_inv ok A s" and "spliceable (getMessage msg)" and "safe_text now"
  shows "fst (message_handler q W now msg i s) = packet_end A msg (settled s)"
  using handler_ends_settled [OF server_settled [OF assms(1)] assms(2,3)] by (simp flip: handler_settles)

end

end
