(* ===== verification/RequestProperties.thy ===== *)
theory RequestProperties
  imports ManagerProperties Traces Endings
begin

text \<open>
  The properties of \<open>Manager\<close> that say how a handler ends, what a request does from the packet to the tables and the
  replies, and where the data of a run come from.
\<close>

section \<open>How a handler ends\<close>

text \<open>A server with one user online.\<close>

definition demo_with :: "string \<Rightarrow> (store, nat) manager" where
  "demo_with u = demo_manager\<lparr>m_online := [7 \<mapsto> u], m_online_opposite := [u \<mapsto> 7]\<rparr>"

lemma demo_with_simps [simp]:
  "m_db (demo_with u) = demo" "m_server (demo_with u) = demo_server" "m_online (demo_with u) 7 = Some u"
  "lists_mtx (demo_with u) = False" "groups_mtx (demo_with u) = False"
  by (simp_all add: demo_with_def demo_manager_def new_manager_def)

lemma demo_with_inv: "users_tab (view demo) u \<noteq> None \<Longrightarrow> safe_text u \<Longrightarrow> server_inv wf_store id_abs (demo_with u)"
  using demo_server_inv by (auto simp: server_with_def known_name_def demo_with_def)

text \<open>C22: A handler ends in one of three ways, and which is known before it starts: under the invariant, and as long as the
  arguments in the place of a number are numbers (decimal digits, below \<open>2 ^ 63\<close>), it returns for every packet, readable or not, of every sender,
  except that it waits for ever when its request gets to a mutex that is locked, and that it is undefined behaviour when a
  member who is not an administrator closes a group, when a member without control invites an account that is not
  a member to a group with room, or when a member who may write adds to an item and the sum does not fit into an \<open>int\<close>.\<close>

theorem handler_ends:
  assumes "sql_query q A ok" and "server_inv ok A s" and "spliceable (getMessage msg)" and "safe_text now"
  shows "fst (message_handler q W now msg i s) = packet_end A msg (settled s)"
  by (rule sql_query.handler_ends_as [OF assms])

text \<open>Noam, who may only read, closes the group.\<close>

theorem handler_ends_witness:
  "fst (message_handler demo_q demo_ws ''2017-01-01'' (Message_ctor (makeReceive_args GR_CLOSE_GROUP [''1'']) 7) 0
     (demo_with ''noam'')) = Undef"
proof -
  let ?msg = "Message_ctor (makeReceive_args GR_CLOSE_GROUP [''1'']) 7" and ?s = "demo_with ''noam''"
  have clean: "\<forall>a \<in> set [''1'']. clean_arg a" "GR_CLOSE_GROUP \<in> set ALL_MESSAGES_CODES"
    by (simp_all add: clean_arg_def ALL_MESSAGES_CODES_def)
  have sp: "spliceable (getMessage ?msg)"
    by (rule packet_spliceable [OF clean]) (simp_all add: numeric_args_def demo_code)
  have sock: "getSocket ?msg = 7" by (simp add: getSocket_def Message_ctor_def)
  have inv: "server_inv wf_store id_abs ?s" by (rule demo_with_inv) simp_all
  have "packet_end id_abs ?msg (settled ?s) = Undef"
    unfolding packet_end_def demo_packet [OF clean] sock
    by (simp add: getMsgCode_def getArguments_def request_end_def locks_groups_def locks_lists_def
        undefined_request_def Let_def demo_code)
  with handler_ends [OF demo_engine inv sp demo_names(9), of demo_ws 0] show ?thesis by simp
qed

section \<open>Requests from the packet to the replies\<close>

text \<open>The handler of a user who is online and has not been dropped.\<close>

lemma online_safe: "server_inv ok A s \<Longrightarrow> m_online (settled s) sock = Some u \<Longrightarrow> safe_text u"
  by (auto simp: server_with_def known_name_def split: if_splits)

lemma online_served:
  assumes "Parser_ctor (getMessage msg) = Ret p" and "m_online (settled s) (getSocket msg) = Some u"
  shows "message_handler q W now msg i s = replied W (getSocket msg) i
    (dispatch q W now (getMsgCode p) (getSocket msg) u (getArguments p) (settled s))"
  using online_handler [OF assms, of q W now i] by (simp flip: handler_settles)

text \<open>C8: The requests about items do what the protocol says, as long as the arguments in the place of a
  number, the code of the group and for an addition the quantity, are numbers (decimal digits, below \<open>2 ^ 63\<close>): the handler first logs out
  the clients that have been dropped, and then runs the operation of the user on the tables; when it succeeds,
  each member of the group gets the notice once, on the socket if online and stored otherwise; an exception, a wrong number of
  arguments among them, is reported to the sender only; and where the operation waits for a locked mutex or is undefined
  behaviour, so does and is the handler.  Nobody else
  comes online or goes, and the mutexes are as the operation leaves them.\<close>

theorem list_request_served:
  assumes "sql_query q A ok" and "server_inv ok A s" and "Parser_ctor (getMessage msg) = Ret p"
    and "spliceable (getMessage msg)" and "getMsgCode p \<in> {LST_ADD_ITEM, LST_REMOVE_ITEM, LST_SET_ITEM}"
    and "m_online (settled s) (getSocket msg) = Some u"
    and "spec_list_request u (getMsgCode p) (getArguments p) \<lparr>database = view (A (m_db s)), mtx = lists_mtx s\<rparr> = (r, g)"
  shows "request_done A W (settled s) (getSocket msg) (makeReceive_args (list_notice (getMsgCode p)) (getArguments p))
    (members_of (view (A (m_db s))) (code_val (getArguments p ! 0))) [] (r, database g) (groups_mtx s, mtx g)
    (message_handler q W now msg i s)"
  using sql_query.list_request [OF assms(1) server_settled [OF assms(2)] assms(5) spliceable_args [OF assms(4,3)]
      online_safe [OF assms(2,6)], of r g W "getSocket msg" i now] assms(7)
  by (simp add: online_served [OF assms(3,6)])

lemma done_keeps:
  assumes "request_done A W s sock m U names (Ret (), v) lk (r, t)"
  shows "r = Ret ()" and "items_tab (view (A (m_db t))) = items_tab v" and "members_tab (view (A (m_db t))) = members_tab v"
proof -
  obtain us where "r = Ret ()" and t: "m_abs A t = fold (deliver W (m_online_opposite s) m) names
      (fold (deliver W (m_online_opposite s) m) us (v, m_server s))"
    using assms by (auto simp: request_done_def announced_def)
  then show "r = Ret ()" by simp
  have "view (A (m_db t)) = fst (m_abs A t)" by (simp add: m_abs_def)
  then show "items_tab (view (A (m_db t))) = items_tab v" "members_tab (view (A (m_db t))) = members_tab v"
    by (simp_all only: t deliver_keeps fst_conv)
qed

theorem list_request_served_witness:
  "\<exists>t. message_handler demo_q demo_ws ''now'' (Message_ctor (makeReceive_args LST_ADD_ITEM [''1'', ''bread'', ''5'', ''fresh'']) 7)
      0 (demo_with ''amit'') = (Ret (), t) \<and> item_of (view (m_db t)) 1 ''bread'' = Some (5, ''fresh'')"
proof -
  let ?as = "[''1'', ''bread'', ''5'', ''fresh'']" and ?s = "demo_with ''amit''"
  let ?msg = "Message_ctor (makeReceive_args LST_ADD_ITEM ?as) 7"
  let ?p = "\<lparr>p_message = makeReceive_args LST_ADD_ITEM ?as, p_args = ?as, p_msgCode = LST_ADD_ITEM\<rparr>"
  have clean: "\<forall>a \<in> set ?as. clean_arg a" "LST_ADD_ITEM \<in> set ALL_MESSAGES_CODES"
    by (simp_all add: clean_arg_def ALL_MESSAGES_CODES_def)
  have sp: "spliceable (getMessage ?msg)"
    by (rule packet_spliceable [OF clean]) (simp_all add: numeric_args_def demo_code)
  have p: "getMsgCode ?p = LST_ADD_ITEM" "getArguments ?p = ?as" by (simp_all add: getMsgCode_def getArguments_def)
  have sock: "getSocket ?msg = 7" by (simp add: getSocket_def Message_ctor_def)
  have spec: "spec_list_request ''amit'' LST_ADD_ITEM ?as \<lparr>database = view demo, mtx = False\<rparr> =
      (Ret (), \<lparr>database = set_item 1 ''bread'' (5, ''fresh'') (view demo), mtx = False\<rparr>)"
    by (simp add: spec_list_request_def list_arity_def spec_addItem_def spec_writer_def locked_def Let_def demo_code)
  obtain r t where run: "message_handler demo_q demo_ws ''now'' ?msg 0 ?s = (r, t)" by fastforce
  have inv: "server_inv wf_store id_abs ?s" by (rule demo_with_inv) simp_all
  from list_request_served [OF demo_engine inv demo_packet [OF clean] sp, of "''amit''" "Ret ()"
      "\<lparr>database = set_item 1 ''bread'' (5, ''fresh'') (view demo), mtx = False\<rparr>" demo_ws "''now''" 0] spec
  have "\<exists>U. request_done id_abs demo_ws (settled ?s) 7 (makeReceive_args LST_SCC_ADD_ITEM ?as) U []
      (Ret (), set_item 1 ''bread'' (5, ''fresh'') (view demo)) (False, False) (r, t)"
    unfolding p sock run by (simp add: list_notice_def) blast
  then show ?thesis using run done_keeps by (fastforce simp: set_item_def)
qed

text \<open>C9: So do the requests about the members of a group, a change of a status, a removal and the
  closing of a group, as long as the code of the group is a number (decimal digits, below \<open>2 ^ 63\<close>); clients that have been dropped are logged out
  first.  The members that remain are told, after a closing those there were.  But a
  user who is removed is not told: the notice goes to whoever has the code of the group as a name.  An exception is reported to the sender only, and
  where the operation waits or is undefined behaviour, so does and is the handler.\<close>

theorem group_request_served:
  assumes "sql_query q A ok" and "server_inv ok A s" and "Parser_ctor (getMessage msg) = Ret p"
    and "spliceable (getMessage msg)" and "getMsgCode p \<in> {GR_SET_STATUS, GR_REMOVE_USER, GR_CLOSE_GROUP}"
    and "m_online (settled s) (getSocket msg) = Some u"
    and "spec_group_request u (getMsgCode p) (getArguments p) \<lparr>database = view (A (m_db s)), mtx = groups_mtx s\<rparr> = (r, g)"
  shows "request_done A W (settled s) (getSocket msg) (makeReceive_args (group_notice (getMsgCode p)) (getArguments p))
    (group_audience (getMsgCode p) (getArguments p) (view (A (m_db s)))) (group_also (getMsgCode p) (getArguments p))
    (r, database g) (mtx g, lists_mtx s) (message_handler q W now msg i s)"
  using sql_query.group_request [OF assms(1) server_settled [OF assms(2)] assms(5) spliceable_args [OF assms(4,3)]
      online_safe [OF assms(2,6)], of r g W "getSocket msg" i now] assms(7)
  by (simp add: online_served [OF assms(3,6)])

theorem group_request_served_witness:
  "\<exists>t. message_handler demo_q demo_ws ''now'' (Message_ctor (makeReceive_args GR_REMOVE_USER [''1'', ''noam'']) 7)
      0 (demo_with ''dana'') = (Ret (), t) \<and> status_of (view (m_db t)) 1 ''noam'' = None"
proof -
  let ?as = "[''1'', ''noam'']" and ?s = "demo_with ''dana''" and ?v = "set_count 1 2 (drop_member 1 ''noam'' (view demo))"
  let ?msg = "Message_ctor (makeReceive_args GR_REMOVE_USER ?as) 7"
  let ?p = "\<lparr>p_message = makeReceive_args GR_REMOVE_USER ?as, p_args = ?as, p_msgCode = GR_REMOVE_USER\<rparr>"
  have clean: "\<forall>a \<in> set ?as. clean_arg a" "GR_REMOVE_USER \<in> set ALL_MESSAGES_CODES"
    by (simp_all add: clean_arg_def ALL_MESSAGES_CODES_def)
  have sp: "spliceable (getMessage ?msg)"
    by (rule packet_spliceable [OF clean]) (simp_all add: numeric_args_def demo_code)
  have p: "getMsgCode ?p = GR_REMOVE_USER" "getArguments ?p = ?as" by (simp_all add: getMsgCode_def getArguments_def)
  have sock: "getSocket ?msg = 7" by (simp add: getSocket_def Message_ctor_def)
  have spec: "spec_group_request ''dana'' GR_REMOVE_USER ?as \<lparr>database = view demo, mtx = False\<rparr> =
      (Ret (), \<lparr>database = ?v, mtx = False\<rparr>)"
    by (simp add: spec_group_request_def group_arity_def spec_removeUser_def locked_def Let_def demo_code
        stoi_to_string fits_int_def INT_MIN_def INT_MAX_def)
  obtain r t where run: "message_handler demo_q demo_ws ''now'' ?msg 0 ?s = (r, t)" by fastforce
  have inv: "server_inv wf_store id_abs ?s" by (rule demo_with_inv) simp_all
  from group_request_served [OF demo_engine inv demo_packet [OF clean] sp, of "''dana''" "Ret ()"
      "\<lparr>database = ?v, mtx = False\<rparr>" demo_ws "''now''" 0] spec
  have "\<exists>U names. request_done id_abs demo_ws (settled ?s) 7 (makeReceive_args PGM_CTR_USER_LEAVE ?as) U names (Ret (), ?v) (False, False) (r, t)"
    unfolding p sock run by (simp add: group_notice_def) blast
  then show ?thesis using run done_keeps by (fastforce simp: set_count_def drop_member_def)
qed

text \<open>C10: An invitation does what the protocol says, as long as the code of the group is a number (decimal digits, below \<open>2 ^ 63\<close>): the clients
  that have been dropped are logged out, and the user is entered as \<open>addUser\<close> promises; then every
  member, the new one among them, gets the notice with the name of the group, and the new one gets a
  notice for each of the others and for each item, on the socket if online and stored otherwise; an
  unknown name, a wrong number of arguments or an exception is reported to the sender only; and where \<open>addUser\<close>
  waits for a locked mutex or is undefined behaviour, so does and is the handler.\<close>

theorem invitation_served:
  assumes "sql_query q A ok" and "server_inv ok A s" and "Parser_ctor (getMessage msg) = Ret p"
    and "spliceable (getMessage msg)" and "getMsgCode p = GR_INVITE_USER"
    and "m_online (settled s) (getSocket msg) = Some u"
    and "spec_invite u (getArguments p) \<lparr>database = view (A (m_db s)), mtx = groups_mtx s\<rparr> = (r, g)"
  shows "invite_done A W (settled s) (getSocket msg) (getArguments p) (r, database g) (mtx g, lists_mtx s) (message_handler q W now msg i s)"
  using sql_query.invite_request [OF assms(1) server_settled [OF assms(2)] spliceable_args [OF assms(4,3), unfolded assms(5)]
      online_safe [OF assms(2,6)], of r g W "getSocket msg" i now] assms(7)
  by (simp add: online_served [OF assms(3,6)] assms(5))

theorem invitation_served_witness:
  "\<exists>t. message_handler demo_q demo_ws ''now'' (Message_ctor (makeReceive_args GR_INVITE_USER [''1'', ''gili'', ''r'']) 7)
      0 (demo_with ''amit'') = (Ret (), t) \<and> status_of (view (m_db t)) 1 ''gili'' = Some ''r''"
proof -
  let ?as = "[''1'', ''gili'', ''r'']" and ?s = "demo_with ''amit''" and ?v = "set_count 1 4 (set_member 1 ''gili'' ''r'' (view demo))"
  let ?msg = "Message_ctor (makeReceive_args GR_INVITE_USER ?as) 7"
  let ?p = "\<lparr>p_message = makeReceive_args GR_INVITE_USER ?as, p_args = ?as, p_msgCode = GR_INVITE_USER\<rparr>"
  have clean: "\<forall>a \<in> set ?as. clean_arg a" "GR_INVITE_USER \<in> set ALL_MESSAGES_CODES"
    by (simp_all add: clean_arg_def ALL_MESSAGES_CODES_def)
  have sp: "spliceable (getMessage ?msg)"
    by (rule packet_spliceable [OF clean]) (simp_all add: numeric_args_def demo_code)
  have p: "getMsgCode ?p = GR_INVITE_USER" "getArguments ?p = ?as" by (simp_all add: getMsgCode_def getArguments_def)
  have sock: "getSocket ?msg = 7" by (simp add: getSocket_def Message_ctor_def)
  have spec: "spec_invite ''amit'' ?as \<lparr>database = view demo, mtx = False\<rparr> = (Ret (), \<lparr>database = ?v, mtx = False\<rparr>)"
    by (simp add: spec_invite_def spec_addUser_def locked_def Let_def demo_code
        stoi_to_string fits_int_def INT_MIN_def INT_MAX_def)
  obtain r t where run: "message_handler demo_q demo_ws ''now'' ?msg 0 ?s = (r, t)" by fastforce
  have inv: "server_inv wf_store id_abs ?s" by (rule demo_with_inv) simp_all
  from invitation_served [OF demo_engine inv demo_packet [OF clean] sp, of "''amit''" "Ret ()"
      "\<lparr>database = ?v, mtx = False\<rparr>" demo_ws "''now''" 0] spec
  have "invite_done id_abs demo_ws (settled ?s) 7 ?as (Ret (), ?v) (False, False) (r, t)"
    unfolding p sock run by simp
  then have "r = Ret ()" and "members_tab (fst (m_abs id_abs t)) = members_tab ?v"
    by (auto simp: invite_done_def dest!: welcomed_members)
  then show ?thesis using run by (simp add: m_abs_def id_abs_def set_count_def set_member_def)
qed

text \<open>C11: The requests for an account do what the protocol says, for a socket with or without a user, when no dropped client is
  pending: a
  registration enters the account or is refused, a login puts name and socket in both maps of the
  online users or is refused, and the answer goes to the socket that asked and to nobody else.\<close>

theorem account_request_served:
  assumes "sql_query q A ok" and "db_ok ok A (m_db s)" and "Parser_ctor (getMessage msg) = Ret p"
    and "spliceable (getMessage msg)" and "getMsgCode p \<in> {EN_REGISTER, EN_LOGIN}"
    and "disconnected_sockets (m_server s) = []"
    and "spec_account (getMsgCode p) (getSocket msg) (getArguments p) (users_abs A (named (getSocket msg) s)) = (r, c)"
  shows "account_done A W s (getSocket msg) (account_reply (getMsgCode p)) (r, c)
    (message_handler q W now msg i s)"
  by (rule sql_query.account_handler [OF assms(1,3,4,2,5-7)])

theorem account_request_served_witness:
  "\<exists>t. message_handler demo_q demo_ws ''now'' (Message_ctor (makeReceive_args EN_LOGIN [''gili'', ''secret4'']) 7)
      0 demo_manager = (Ret (), t) \<and> m_online t 7 = Some ''gili'' \<and> m_online_opposite t ''gili'' = Some 7"
proof -
  let ?as = "[''gili'', ''secret4'']" and ?s = "demo_manager"
  let ?msg = "Message_ctor (makeReceive_args EN_LOGIN ?as) 7"
  let ?p = "\<lparr>p_message = makeReceive_args EN_LOGIN ?as, p_args = ?as, p_msgCode = EN_LOGIN\<rparr>"
  let ?c = "put_online 7 ''gili'' (users_abs id_abs (named 7 ?s))"
  have clean: "\<forall>a \<in> set ?as. clean_arg a" "EN_LOGIN \<in> set ALL_MESSAGES_CODES"
    by (simp_all add: clean_arg_def ALL_MESSAGES_CODES_def)
  have sp: "spliceable (getMessage ?msg)" by (rule packet_spliceable [OF clean]) (simp_all add: numeric_args_def)
  have p: "getMsgCode ?p = EN_LOGIN" "getArguments ?p = ?as" by (simp_all add: getMsgCode_def getArguments_def)
  have sock: "getSocket ?msg = 7" by (simp add: getSocket_def Message_ctor_def)
  have ok: "db_ok wf_store id_abs (m_db ?s)" by (simp add: demo_ok)
  have spec: "spec_account EN_LOGIN 7 ?as (users_abs id_abs (named 7 ?s)) = (Ret (), ?c)"
    by (simp add: spec_account_def spec_Login_def valid_credentials_def users_abs_def u_abs_def)
  obtain r t where run: "message_handler demo_q demo_ws ''now'' ?msg 0 ?s = (r, t)" by fastforce
  from account_request_served [OF demo_engine ok demo_packet [OF clean] sp, of "Ret ()" ?c demo_ws "''now''" 0] spec
  have "account_done id_abs demo_ws demo_manager 7 (account_reply EN_LOGIN) (Ret (), ?c) (r, t)"
    unfolding p sock run by simp
  then have "r = Ret ()" "m_online t = online_users ?c" "m_online_opposite t = online_users_opposite ?c"
    by (simp_all add: account_done_def own_done_def m_rest_def online_of_def)
  then show ?thesis using run by (simp add: put_online_def)
qed

text \<open>C12: The creation of a group does what the protocol says, when no dropped client is pending: the group is entered with the next code and the
  user as its administrator, and its code goes to the user; or the creation is refused, an exception
  reported, and the tables are as they were.\<close>

theorem create_request_served:
  assumes "sql_query q A ok" and "server_inv ok A s" and "Parser_ctor (getMessage msg) = Ret p"
    and "spliceable (getMessage msg)" and "safe_text now" and "getMsgCode p = GR_CREATE_GROUP"
    and "m_online s (getSocket msg) = Some u" and "disconnected_sockets (m_server s) = []"
    and "spec_create now u (getArguments p) \<lparr>database = view (A (m_db s)), mtx = groups_mtx s\<rparr> = (r, g)"
  shows "own_done A W (m_server s) (getSocket msg) (makeReceive_str PGM_SCC_ACTE_CREATED) (r, database g) (online_of s, mtx g, lists_mtx s)
    (message_handler q W now msg i s)"
proof -
  have u: "safe_text u" and ok: "db_ok ok A (m_db s)" using assms(2,7) by (auto simp: server_with_def known_name_def db_inv_def)
  from sql_query.create_request [OF assms(1) ok spliceable_args(1) [OF assms(4,3)] assms(5) u assms(9)]
  show ?thesis unfolding online_handler [OF assms(3,7,8)] assms(6) .
qed

theorem create_request_served_witness:
  "\<exists>t. message_handler demo_q demo_ws ''now'' (Message_ctor (makeReceive_args GR_CREATE_GROUP [''party'']) 7)
      0 (demo_with ''amit'') = (Ret (), t) \<and> status_of (view (m_db t)) 2 ''amit'' = Some ''admin''"
proof -
  let ?as = "[''party'']" and ?s = "demo_with ''amit''"
  let ?msg = "Message_ctor (makeReceive_args GR_CREATE_GROUP ?as) 7"
  let ?p = "\<lparr>p_message = makeReceive_args GR_CREATE_GROUP ?as, p_args = ?as, p_msgCode = GR_CREATE_GROUP\<rparr>"
  let ?v = "set_member 2 ''amit'' ''admin'' (new_group 2 \<lparr>g_name = ''party'', g_admin = ''amit'', g_date = ''now'', g_users = 1\<rparr> (view demo))"
  have clean: "\<forall>a \<in> set ?as. clean_arg a" "GR_CREATE_GROUP \<in> set ALL_MESSAGES_CODES"
    by (simp_all add: clean_arg_def ALL_MESSAGES_CODES_def)
  have sp: "spliceable (getMessage ?msg)" by (rule packet_spliceable [OF clean]) (simp_all add: numeric_args_def)
  have p: "getMsgCode ?p = GR_CREATE_GROUP" "getArguments ?p = ?as" by (simp_all add: getMsgCode_def getArguments_def)
  have sock: "getSocket ?msg = 7" by (simp add: getSocket_def Message_ctor_def)
  have spec: "spec_create ''now'' ''amit'' ?as \<lparr>database = view demo, mtx = False\<rparr> = (Ret (to_string 2), \<lparr>database = ?v, mtx = False\<rparr>)"
    by (simp add: spec_create_def spec_createGroup_def locked_def Let_def)
  obtain r t where run: "message_handler demo_q demo_ws ''now'' ?msg 0 ?s = (r, t)" by fastforce
  have inv: "server_inv wf_store id_abs ?s" by (rule demo_with_inv) simp_all
  from create_request_served [OF demo_engine inv demo_packet [OF clean] sp, of "''now''" "''amit''" "Ret (to_string 2)"
      "\<lparr>database = ?v, mtx = False\<rparr>" demo_ws 0] spec
  have "own_done id_abs demo_ws demo_server 7 (makeReceive_str PGM_SCC_ACTE_CREATED) (Ret (to_string 2), ?v) (online_of ?s, False, False) (r, t)"
    unfolding p sock run by simp
  then show ?thesis using run by (simp add: own_done_def m_abs_def id_abs_def set_member_def)
qed

text \<open>C13: The requests without arguments do what the protocol says, when no dropped client is pending: a logout frees socket and name and tells
  nobody; the list of groups has each group of the user with the status of the user once; the restore
  message describes each of these groups; and with arguments they are refused.\<close>

theorem quiet_request_served:
  assumes "sql_query q A ok" and "server_inv ok A s" and "Parser_ctor (getMessage msg) = Ret p"
    and "getMsgCode p \<in> {EN_LOGOUT, GR_GROUP_LIST, RE_RESTORE}"
    and "m_online s (getSocket msg) = Some u" and "disconnected_sockets (m_server s) = []"
  shows "quiet_done A W s (getSocket msg) u (getMsgCode p) (getArguments p) (message_handler q W now msg i s)"
proof -
  have u: "safe_text u" using assms(2,5) by (auto simp: server_with_def known_name_def)
  show ?thesis unfolding online_handler [OF assms(3,5,6)]
    by (rule sql_query.quiet_request [OF assms(1,2) u assms(5,4)])
qed

theorem quiet_request_served_witness:
  "\<exists>t. message_handler demo_q demo_ws ''now'' (Message_ctor (makeReceive_args EN_LOGOUT []) 7)
      0 (demo_with ''amit'') = (Ret (), t) \<and> m_online t 7 = None \<and> m_online_opposite t ''amit'' = None"
proof -
  let ?s = "demo_with ''amit''" and ?msg = "Message_ctor (makeReceive_args EN_LOGOUT []) 7"
  let ?p = "\<lparr>p_message = makeReceive_args EN_LOGOUT [], p_args = [], p_msgCode = EN_LOGOUT\<rparr>"
  have clean: "\<forall>a \<in> set []. clean_arg a" "EN_LOGOUT \<in> set ALL_MESSAGES_CODES"
    by (simp_all add: ALL_MESSAGES_CODES_def)
  have p: "getMsgCode ?p = EN_LOGOUT" "getArguments ?p = []" by (simp_all add: getMsgCode_def getArguments_def)
  have sock: "getSocket ?msg = 7" by (simp add: getSocket_def Message_ctor_def)
  obtain r t where run: "message_handler demo_q demo_ws ''now'' ?msg 0 ?s = (r, t)" by fastforce
  have inv: "server_inv wf_store id_abs ?s" by (rule demo_with_inv) simp_all
  from quiet_request_served [OF demo_engine inv demo_packet [OF clean, of 7], of "''amit''" demo_ws "''now''" 0]
  have "quiet_done id_abs demo_ws ?s 7 ''amit'' EN_LOGOUT [] (r, t)"
    unfolding p sock run by simp
  then show ?thesis using run by (simp add: quiet_done_def Let_def m_rest_def online_of_def)
qed

text \<open>C6: Nothing is in the tables without a packet that put it there, as long as the arguments in the place of a
  number are numbers (decimal digits, below \<open>2 ^ 63\<close>) in every packet and there is room for the code of another group: whatever such packets arrive and however the
  threads take turns, an account, the status of a member or an item that is there at the end of a run
  was there at its start, or came from a registration with that name and password, from the creation
  of the group or an invitation or change by somebody who then was a member, with full control for
  a change, or from an addition or change of the item by somebody who then had the right to write.\<close>

theorem data_come_from_packets:
  assumes "sql_query q A ok" and "(system_step q W spurious A)\<^sup>*\<^sup>* (start_system d) s"
    and "server_inv ok A d" and "\<forall>m \<in> set (pushed (t_part s)). spliceable (getMessage m)"
  shows "let v = view (A (m_db d)); w = view (A (m_db (m_part s))); from = came_from q W spurious A (start_system d) s in
    (\<forall>u pwd. users_tab w u = Some pwd \<longrightarrow> users_tab v u = Some pwd \<or> from (gives_account u pwd)) \<and>
    (\<forall>k u st. status_of w k u = Some st \<longrightarrow> status_of v k u = Some st \<or> from (gives_status k u st)) \<and>
    (\<forall>k x y. item_of w k x = Some y \<longrightarrow> item_of v k x = Some y \<or> from (gives_item k x))"
proof -
  have "m_part (start_system d) = d" by (simp add: start_system_def)
  note traced = sql_query.data_traced [OF assms(1,2) start_system_inv [OF assms(3)] assms(4), unfolded this]
  show ?thesis unfolding Let_def by (intro conjI allI impI; subst disj_commute; rule disjCI; rule traced; assumption)
qed

text \<open>A server with a registration in its queue.\<close>

definition demo_new :: "(store, nat) manager" where
  "demo_new = demo_manager\<lparr>m_server := demo_server
     \<lparr>messages := [Message_ctor (makeReceive_args EN_REGISTER [''omer'', ''secret9'']) 7]\<rparr>\<rparr>"

lemma demo_new_registers:
  shows "users_tab (view (m_db (snd (dispatch_turn demo_q demo_ws (''2017-01-01'', Joined, []) demo_new)))) ''omer'' = Some ''secret9''"
  and "spliceable (getMessage (Message_ctor (makeReceive_args EN_REGISTER [''omer'', ''secret9'']) 7))"
proof -
  let ?as = "[''omer'', ''secret9'']" and ?t = "demo_manager\<lparr>threads := (threads demo_manager)[0 := True]\<rparr>"
  let ?msg = "Message_ctor (makeReceive_args EN_REGISTER ?as) 7"
  let ?p = "\<lparr>p_message = makeReceive_args EN_REGISTER ?as, p_args = ?as, p_msgCode = EN_REGISTER\<rparr>"
  have clean: "\<forall>a \<in> set ?as. clean_arg a" "EN_REGISTER \<in> set ALL_MESSAGES_CODES"
    by (simp_all add: clean_arg_def ALL_MESSAGES_CODES_def)
  show sp: "spliceable (getMessage ?msg)" by (rule packet_spliceable [OF clean]) (simp_all add: numeric_args_def)
  have p: "getMsgCode ?p = EN_REGISTER" "getArguments ?p = ?as" by (simp_all add: getMsgCode_def getArguments_def)
  have sock: "getSocket ?msg = 7" by (simp add: getSocket_def Message_ctor_def)
  obtain c where spec: "spec_account EN_REGISTER 7 ?as (users_abs id_abs (named 7 ?t)) = (Ret (), c)"
    "users_tab (users_database c) ''omer'' = Some ''secret9''"
    by (simp add: spec_account_def spec_Register_def valid_credentials_def users_abs_def u_abs_def)
  obtain r t where run: "message_handler demo_q demo_ws ''2017-01-01'' ?msg 0 ?t = (r, t)" by fastforce
  have "account_done id_abs demo_ws ?t 7 (account_reply EN_REGISTER) (Ret (), c) (r, t)"
    using sql_query.account_handler [OF demo_engine demo_packet [OF clean] sp, of ?t "Ret ()" c demo_ws "''2017-01-01''" 0] spec(1)
    unfolding p sock run by (simp add: demo_ok)
  then have t: "users_tab (view (m_db t)) ''omer'' = Some ''secret9''"
    using spec(2) by (simp add: account_done_def own_done_def m_abs_def id_abs_def)
  have server: "demo_new\<lparr>m_server := demo_server\<rparr> = demo_manager" "demo_server\<lparr>messages := []\<rparr> = demo_server"
    by (simp_all add: demo_new_def demo_manager_def new_manager_def demo_server_def Server_ctor_def)
  have "on_server take_packet demo_new = (Ret ?msg, demo_manager)"
    using server by (simp add: take_packet_def prog_simps zoom_def put_server_def) (simp add: demo_new_def prog_simps)
  moreover have "runs_free demo_manager = 0" by (simp add: runs_free_def THREADS_MAX_def numeral_eq_Suc)
  ultimately have "snd (dispatch_turn demo_q demo_ws (''2017-01-01'', Joined, []) demo_new) = t"
    using run by (simp add: dispatch_turn_def store_slot_def prog_simps thn_def bnd_def THREADS_MAX_def)
  with t show "users_tab (view (m_db (snd (dispatch_turn demo_q demo_ws (''2017-01-01'', Joined, []) demo_new)))) ''omer'' =
      Some ''secret9''" by simp
qed

lemma demo_new_inv: "server_inv wf_store id_abs demo_new"
  using demo_server_inv by (simp add: server_with_def demo_new_def)

lemma demo_new_run:
  obtains s where "(system_step demo_q demo_ws False id_abs)\<^sup>*\<^sup>* (start_system demo_new) s"
    and "m_part s = snd (dispatch_turn demo_q demo_ws (''2017-01-01'', Joined, []) demo_new)"
    and "\<forall>m \<in> set (pushed (t_part s)). spliceable (getMessage m)"
proof -
  have room: "room id_abs demo_new" by (simp add: room_def demo_new_def)
  have queue: "messages (m_server demo_new) = [Message_ctor (makeReceive_args EN_REGISTER [''omer'', ''secret9'']) 7]"
    by (simp add: demo_new_def)
  obtain s where s: "(system_step demo_q demo_ws False id_abs)\<^sup>*\<^sup>* (start_system demo_new) s"
    "m_part s = snd (dispatch_turn demo_q demo_ws (''2017-01-01'', Joined, []) demo_new)"
    "pushed (t_part s) = messages (m_server demo_new)"
    using one_packet_run [OF queue room demo_names(9)] queue by metis
  show thesis by (rule that [OF s(1,2)]) (use demo_new_registers(2) in \<open>simp add: s(3) queue\<close>)
qed

theorem data_come_from_packets_witness:
  "\<exists>s. (system_step demo_q demo_ws False id_abs)\<^sup>*\<^sup>* (start_system demo_new) s \<and>
     users_tab (view (m_db (m_part s))) ''omer'' = Some ''secret9'' \<and>
     came_from demo_q demo_ws False id_abs (start_system demo_new) s (gives_account ''omer'' ''secret9'')"
proof -
  obtain s where s: "(system_step demo_q demo_ws False id_abs)\<^sup>*\<^sup>* (start_system demo_new) s"
    "m_part s = snd (dispatch_turn demo_q demo_ws (''2017-01-01'', Joined, []) demo_new)"
    "\<forall>m \<in> set (pushed (t_part s)). spliceable (getMessage m)"
    by (rule demo_new_run)
  have "users_tab (view (id_abs (m_db demo_new))) ''omer'' = None" by (simp add: demo_new_def)
  moreover have new: "users_tab (view (id_abs (m_db (m_part s)))) ''omer'' = Some ''secret9''"
    using demo_new_registers(1) s(2) by (simp add: id_abs_def)
  moreover note data_come_from_packets [OF demo_engine s(1) demo_new_inv s(3), unfolded Let_def, THEN conjunct1, rule_format, OF new]
  ultimately have "came_from demo_q demo_ws False id_abs (start_system demo_new) s (gives_account ''omer'' ''secret9'')" by simp
  with s(1) new show ?thesis by (auto simp: id_abs_def)
qed



end
