(* ===== verification/SqliteLifecycle.thy ===== *)
theory SqliteLifecycle
  imports Database "HOL-Library.AList"
begin

text \<open>
  The life cycles that \<open>sqlite3.h\<close> documents: of the library (initialised or not), of a
  connection (open, zombie, closed), of a prepared statement (fresh, at a row, finished,
  failed), of a mutex and of a shared-memory lock.  The library itself is not in the
  repository; these are the rules its header gives to a caller.

  They are used to check the caller: \<open>monitored S\<close> adds to an engine the bookkeeping of a
  connection, and \<open>DataBase::query\<close> on it is shown to follow the rules, to leave no statement
  behind, and so to let \<open>DataBase::close\<close> succeed.
\<close>

section \<open>The library\<close>

record library =
  initialized :: bool
  n_inits :: nat
  n_ends :: nat

text \<open>
  Only a call that is the first one, or the first one after a shutdown, is effective; the other
  calls are no-ops.  \<open>rc\<close> is what the effective initialisation comes to.
\<close>

definition sqlite3_initialize :: "int \<Rightarrow> library \<Rightarrow> int \<times> library" where
  "sqlite3_initialize rc lib =
    (if initialized lib then (SQLITE_OK, lib)
     else if rc = SQLITE_OK then (SQLITE_OK, lib\<lparr>initialized := True, n_inits := n_inits lib + 1\<rparr>)
     else (rc, lib))"

definition sqlite3_shutdown :: "library \<Rightarrow> library" where
  "sqlite3_shutdown lib =
    (if initialized lib then lib\<lparr>initialized := False, n_ends := n_ends lib + 1\<rparr> else lib)"

text \<open>\<open>rc\<close> is what setting the option comes to.\<close>

definition sqlite3_config :: "int \<Rightarrow> int \<Rightarrow> library \<Rightarrow> int" where
  "sqlite3_config op rc lib =
    (if initialized lib then SQLITE_MISUSE
     else if op \<in> set config_options then rc else SQLITE_ERROR)"

definition library_inv :: "library \<Rightarrow> bool" where
  "library_inv lib \<longleftrightarrow> n_inits lib = n_ends lib + (if initialized lib then 1 else 0)"

lemma library_inv_steps:
  "library_inv lib \<Longrightarrow> library_inv (snd (sqlite3_initialize rc lib))"
  "library_inv lib \<Longrightarrow> library_inv (sqlite3_shutdown lib)"
  by (auto simp: library_inv_def sqlite3_initialize_def sqlite3_shutdown_def split: if_splits)

lemma initialize_idempotent:
  "fst (sqlite3_initialize rc lib) = SQLITE_OK \<Longrightarrow>
   sqlite3_initialize rc' (snd (sqlite3_initialize rc lib)) = (SQLITE_OK, snd (sqlite3_initialize rc lib))"
  by (auto simp: sqlite3_initialize_def split: if_splits)

lemma config_after_initialize:
  "fst (sqlite3_initialize rc lib) = SQLITE_OK \<Longrightarrow>
   sqlite3_config op rc' (snd (sqlite3_initialize rc lib)) = SQLITE_MISUSE"
  by (auto simp: sqlite3_initialize_def sqlite3_config_def split: if_splits)

section \<open>Statements\<close>

datatype stmt_state = Fresh | At_row | Finished | Failed int

text \<open>\<open>SQLITE_BUSY\<close> leaves the statement to be tried again.\<close>

definition after_step :: "int \<Rightarrow> stmt_state \<Rightarrow> stmt_state" where
  "after_step rc s =
    (if rc = SQLITE_ROW then At_row else if rc = SQLITE_DONE then Finished
     else if rc = SQLITE_BUSY then s else Failed rc)"

fun may_step :: "stmt_state \<Rightarrow> bool" where
  "may_step Fresh = True"
| "may_step At_row = True"
| "may_step Finished = False"
| "may_step (Failed rc) = False"

fun sqlite3_reset :: "stmt_state \<Rightarrow> int \<times> stmt_state" where
  "sqlite3_reset (Failed rc) = (rc, Fresh)"
| "sqlite3_reset s = (SQLITE_OK, Fresh)"

fun finalize_code :: "stmt_state \<Rightarrow> int" where
  "finalize_code (Failed rc) = rc"
| "finalize_code s = SQLITE_OK"

definition columns_defined :: "stmt_state \<Rightarrow> bool" where
  "columns_defined s \<longleftrightarrow> s = At_row"

definition sqlite3_data_count :: "nat \<Rightarrow> stmt_state \<Rightarrow> nat" where
  "sqlite3_data_count n s = (if s = At_row then n else 0)"

section \<open>Connections\<close>

datatype conn_status = Opened | Zombie | Closed

record connection =
  status :: conn_status
  stmts :: "(nat \<times> stmt_state) list"
  misused :: bool

definition new_connection :: connection where
  "new_connection = \<lparr>status = Opened, stmts = [], misused = False\<rparr>"

text \<open>\<open>sqlite3_close\<close> refuses while there are statements; \<open>sqlite3_close_v2\<close> leaves a zombie, which the
  last \<open>sqlite3_finalize\<close> deallocates.\<close>

definition sqlite3_close :: "connection \<Rightarrow> int \<times> connection" where
  "sqlite3_close c =
    (if stmts c = [] then (SQLITE_OK, c\<lparr>status := Closed\<rparr>) else (SQLITE_BUSY, c))"

definition sqlite3_close_v2 :: "connection \<Rightarrow> int \<times> connection" where
  "sqlite3_close_v2 c = (SQLITE_OK, c\<lparr>status := (if stmts c = [] then Closed else Zombie)\<rparr>)"

definition new_stmt :: "connection \<Rightarrow> nat" where
  "new_stmt c = Suc (Max (insert 0 (fst ` set (stmts c))))"

definition conn_prepare :: "connection \<Rightarrow> connection" where
  "conn_prepare c = c\<lparr>stmts := (new_stmt c, Fresh) # stmts c, misused := misused c \<or> status c \<noteq> Opened\<rparr>"

definition conn_step :: "nat \<Rightarrow> int \<Rightarrow> connection \<Rightarrow> connection" where
  "conn_step i rc c =
    (case map_of (stmts c) i of
       None \<Rightarrow> c\<lparr>misused := True\<rparr>
     | Some s \<Rightarrow> c\<lparr>stmts := AList.update i (after_step rc s) (stmts c), misused := misused c \<or> \<not> may_step s\<rparr>)"

definition conn_finalize :: "nat \<Rightarrow> connection \<Rightarrow> connection" where
  "conn_finalize i c =
    (let rest = AList.delete i (stmts c) in
     c\<lparr>stmts := rest, status := (if status c = Zombie \<and> rest = [] then Closed else status c),
       misused := misused c \<or> i \<notin> fst ` set (stmts c)\<rparr>)"

definition conn_inv :: "connection \<Rightarrow> bool" where
  "conn_inv c \<longleftrightarrow> distinct (map fst (stmts c)) \<and> (status c = Closed \<longrightarrow> stmts c = []) \<and>
     (status c = Zombie \<longrightarrow> stmts c \<noteq> [])"

lemma new_stmt_fresh: "new_stmt c \<notin> fst ` set (stmts c)"
proof
  assume "new_stmt c \<in> fst ` set (stmts c)"
  then have "new_stmt c \<le> Max (insert 0 (fst ` set (stmts c)))" by (intro Max_ge) auto
  then show False by (simp add: new_stmt_def)
qed

lemma conn_inv_steps:
  "conn_inv c \<Longrightarrow> status c = Opened \<Longrightarrow> conn_inv (conn_prepare c)"
  "conn_inv c \<Longrightarrow> conn_inv (conn_step i rc c)"
  "conn_inv c \<Longrightarrow> conn_inv (conn_finalize i c)"
  "conn_inv c \<Longrightarrow> status c = Opened \<Longrightarrow> conn_inv (snd (sqlite3_close c))"
  "conn_inv c \<Longrightarrow> status c = Opened \<Longrightarrow> conn_inv (snd (sqlite3_close_v2 c))"
  using new_stmt_fresh [of c]
  by (auto simp: conn_inv_def conn_prepare_def conn_step_def conn_finalize_def sqlite3_close_def
      sqlite3_close_v2_def Let_def distinct_update distinct_delete AList.update_keys
      split: option.splits dest: map_of_SomeD)

section \<open>An engine with a monitor\<close>

definition monitored :: "('db, 'st) sqlite \<Rightarrow> ('db \<times> connection, 'st \<times> nat) sqlite" where
  "monitored S =
     \<lparr>sqlite3_open = (\<lambda>filename. case sqlite3_open S filename of (rc, db) \<Rightarrow> (rc, (db, new_connection))),
      sqlite3_prepare_v2 = (\<lambda>(db, c) sql. case sqlite3_prepare_v2 S db sql of (rc, st, db1) \<Rightarrow>
        if rc = SQLITE_OK then (rc, (st, new_stmt c), (db1, conn_prepare c)) else (rc, (st, 0), (db1, c))),
      sqlite3_column_count = (\<lambda>(st, i). sqlite3_column_count S st),
      sqlite3_step = (\<lambda>(db, c) (st, i). case sqlite3_step S db st of (rc, db', st') \<Rightarrow>
        (rc, (db', conn_step i rc c), (st', i))),
      sqlite3_column_text = (\<lambda>(st, i). sqlite3_column_text S st),
      sqlite3_finalize = (\<lambda>(db, c) (st, i). (sqlite3_finalize S db st, conn_finalize i c))\<rparr>"

lemma monitored_simps [simp]:
  "sqlite3_step (monitored S) (db, c) (st, i) =
     (case sqlite3_step S db st of (rc, db', st') \<Rightarrow> (rc, (db', conn_step i rc c), (st', i)))"
  "sqlite3_column_count (monitored S) (st, i) = sqlite3_column_count S st"
  "sqlite3_finalize (monitored S) (db, c) (st, i) = (sqlite3_finalize S db st, conn_finalize i c)"
  "sqlite3_prepare_v2 (monitored S) (db, c) sql =
     (case sqlite3_prepare_v2 S db sql of (rc, st, db1) \<Rightarrow>
        if rc = SQLITE_OK then (rc, (st, new_stmt c), (db1, conn_prepare c)) else (rc, (st, 0), (db1, c)))"
  "column_string (monitored S) (st, i) = column_string S st"
  by (simp_all add: monitored_def column_string_def fun_eq_iff)

text \<open>The state of the connection while the loop of \<open>query\<close> runs: one statement on top.\<close>

definition running :: "connection \<Rightarrow> stmt_state \<Rightarrow> connection" where
  "running c s = c\<lparr>stmts := (new_stmt c, s) # stmts c\<rparr>"

lemma step_running:
  "may_step s \<Longrightarrow> conn_step (new_stmt c) rc (running c s) = running c (after_step rc s)"
  by (simp add: conn_step_def running_def)

lemma finalize_running:
  assumes "status c = Opened"
  shows "conn_finalize (new_stmt c) (running c s) = c"
proof -
  have "AList.delete (new_stmt c) (stmts c) = stmts c"
    using new_stmt_fresh [of c] by (simp add: delete_idem)
  with assms show ?thesis by (simp add: conn_finalize_def running_def Let_def)
qed

lemma fetch_monitored:
  fixes S :: "('db, 'st) sqlite"
  assumes run: "fetch S cols db st results = Some x"
  shows "\<forall>s. may_step s \<longrightarrow> (\<exists>s'. fetch (monitored S) cols (db, running c s) (st, new_stmt c) results =
     Some (fst x, (fst (snd x), running c s'), (snd (snd x), new_stmt c)))"
proof (rule fetch.raw_induct [where P = "\<lambda>(S :: ('db, 'st) sqlite) cols db st results x. \<forall>s. may_step s \<longrightarrow>
    (\<exists>s'. fetch (monitored S) cols (db, running c s) (st, new_stmt c) results =
       Some (fst x, (fst (snd x), running c s'), (snd (snd x), new_stmt c)))", OF _ run])
  fix fetch' S cols db st results x
  assume 1: "\<And>S cols db st results y. fetch' S cols db st results = Some y \<Longrightarrow> \<forall>s. may_step s \<longrightarrow>
      (\<exists>s'. fetch (monitored S) cols (db, running c s) (st, new_stmt c) results =
         Some (fst y, (fst (snd y), running c s'), (snd (snd y), new_stmt c)))"
    "(case sqlite3_step S db st of (result, db', st') \<Rightarrow>
        if result = SQLITE_ROW then fetch' S cols db' st' (results @ [map (column_string S st') [0..<cols]])
        else Some (results, db', st')) = Some x"
  obtain rc db1 st1 where step: "sqlite3_step S db st = (rc, db1, st1)" by (metis prod_cases3)
  show "\<forall>s. may_step s \<longrightarrow> (\<exists>s'. fetch (monitored S) cols (db, running c s) (st, new_stmt c) results =
      Some (fst x, (fst (snd x), running c s'), (snd (snd x), new_stmt c)))"
  proof (intro allI impI)
    fix s
    assume s: "may_step s"
    show "\<exists>s'. fetch (monitored S) cols (db, running c s) (st, new_stmt c) results =
        Some (fst x, (fst (snd x), running c s'), (snd (snd x), new_stmt c))"
    proof (cases "rc = SQLITE_ROW")
      case False
      with 1(2) step s show ?thesis by (subst fetch.simps) (auto simp: step_running)
    next
      case True
      then have "may_step (after_step rc s)" by (simp add: after_step_def)
      moreover have "fetch' S cols db1 st1 (results @ [map (column_string S st1) [0..<cols]]) = Some x"
        using 1(2) step True by simp
      ultimately show ?thesis
        using 1(1) step s True by (subst fetch.simps) (simp add: step_running)
    qed
  qed
qed

text \<open>A call of \<open>query\<close> follows the rules and leaves the connection as it found it.\<close>

lemma query_monitored:
  assumes "query S sql db = Some (rs, db')" and "status c = Opened"
  shows "query (monitored S) sql (db, c) = Some (rs, (db', c))"
proof -
  obtain rc st db1 where prep: "sqlite3_prepare_v2 S db (c_str sql) = (rc, st, db1)" by (metis prod_cases3)
  show ?thesis
  proof (cases "rc = SQLITE_OK")
    case False
    with assms prep show ?thesis by (simp add: query_def)
  next
    case True
    have c: "conn_prepare c = running c Fresh" using assms(2) by (simp add: conn_prepare_def running_def)
    obtain db2 st2 where f: "fetch S (sqlite3_column_count S st) db1 st [] = Some (rs, db2, st2)"
      and fin: "sqlite3_finalize S db2 st2 = db'"
      using assms(1) prep True by (auto simp: query_def split: option.splits)
    obtain s' where "fetch (monitored S) (sqlite3_column_count S st) (db1, running c Fresh) (st, new_stmt c) [] =
        Some (rs, (db2, running c s'), (st2, new_stmt c))"
      using fetch_monitored [OF f, of c, THEN spec, of Fresh] by auto
    then show ?thesis
      using prep True fin finalize_running [OF assms(2)] by (simp add: query_def c)
  qed
qed

section \<open>The one-step interface\<close>

text \<open>
  \<open>exec_statement\<close> on one statement: the callback gets each row and may stop the loop with a
  non-zero value, which makes the result \<open>SQLITE_ABORT\<close>.
\<close>

partial_function (option) exec_steps ::
  "('db, 'st) sqlite \<Rightarrow> ('a \<Rightarrow> string option list \<Rightarrow> int \<times> 'a) \<Rightarrow> nat \<Rightarrow> 'db \<Rightarrow> 'st \<Rightarrow> 'a \<Rightarrow> (int \<times> 'a \<times> 'db \<times> 'st) option" where
  "exec_steps S callback cols db st arg =
    (case sqlite3_step S db st of (rc, db', st') \<Rightarrow>
       if rc = SQLITE_ROW then
         (case callback arg (map (sqlite3_column_text S st') [0..<cols]) of (stop, arg') \<Rightarrow>
            if stop \<noteq> 0 then Some (SQLITE_ABORT, arg', db', st')
            else exec_steps S callback cols db' st' arg')
       else Some (if rc = SQLITE_DONE then SQLITE_OK else rc, arg, db', st'))"

definition exec_statement ::
  "('db, 'st) sqlite \<Rightarrow> string \<Rightarrow> ('a \<Rightarrow> string option list \<Rightarrow> int \<times> 'a) \<Rightarrow> 'a \<Rightarrow> 'db \<Rightarrow> (int \<times> 'a \<times> 'db) option" where
  "exec_statement S sql callback arg db =
    (case sqlite3_prepare_v2 S db (c_str sql) of (rc, st, db1) \<Rightarrow>
       if rc = SQLITE_OK then
         map_option (\<lambda>(rc', arg', db', st'). (rc', arg', sqlite3_finalize S db' st'))
           (exec_steps S callback (sqlite3_column_count S st) db1 st arg)
       else Some (rc, arg, db1))"

text \<open>The callback \<open>DataBase::query\<close> amounts to: keep the row, never stop.\<close>

definition keep_row :: "string list list \<Rightarrow> string option list \<Rightarrow> int \<times> string list list" where
  "keep_row results vs = (0, results @ [map (case_option '''' c_str) vs])"

lemma keep_row_columns:
  "keep_row results (map (sqlite3_column_text S st) [0..<cols]) = (0, results @ [map (column_string S st) [0..<cols]])"
  by (simp add: keep_row_def column_string_def)

lemma fetch_exec:
  fixes S :: "('db, 'st) sqlite"
  assumes run: "fetch S cols db st results = Some x"
  shows "\<exists>rc. exec_steps S keep_row cols db st results = Some (rc, x)"
proof (rule fetch.raw_induct [where P = "\<lambda>(S :: ('db, 'st) sqlite) cols db st results x.
    \<exists>rc. exec_steps S keep_row cols db st results = Some (rc, x)", OF _ run])
qed (subst exec_steps.simps, auto simp: keep_row_columns split: prod.splits if_splits)

lemma exec_fetch:
  fixes S :: "('db, 'st) sqlite"
  assumes run: "exec_steps S callback cols db st results = Some y"
  shows "callback = keep_row \<longrightarrow> fetch S cols db st results = Some (snd y)"
proof (rule exec_steps.raw_induct [where P = "\<lambda>(S :: ('db, 'st) sqlite) callback cols db st results y.
    callback = keep_row \<longrightarrow> fetch S cols db st results = Some (snd y)", OF _ run])
qed (subst fetch.simps, auto simp: keep_row_columns split: prod.splits if_splits)

lemma query_exec: "query S sql db = map_option snd (exec_statement S sql keep_row [] db)"
proof -
  obtain rc st db1 where prep: "sqlite3_prepare_v2 S db (c_str sql) = (rc, st, db1)" by (metis prod_cases3)
  show ?thesis
  proof (cases "rc = SQLITE_OK \<and> fetch S (sqlite3_column_count S st) db1 st [] \<noteq> None")
    case True
    then obtain x where f: "fetch S (sqlite3_column_count S st) db1 st [] = Some x" by blast
    with fetch_exec [OF f] prep True show ?thesis
      by (auto simp: query_def exec_statement_def split: prod.splits)
  next
    case False
    then show ?thesis
      using prep exec_fetch [of S keep_row "sqlite3_column_count S st" db1 st "[]"]
      by (cases "exec_steps S keep_row (sqlite3_column_count S st) db1 st []")
         (auto simp: query_def exec_statement_def split: prod.splits option.splits)
  qed
qed

section \<open>Mutexes\<close>

record mutex =
  mx_type :: int
  mx_owner :: "nat option"
  mx_depth :: nat

text \<open>
  A thread that enters waits while another thread is inside (\<open>Hang\<close>); entering twice is defined
  for a recursive mutex only, leaving only for the thread inside.  A null pointer makes all three
  routines no-ops.
\<close>

definition mutex_enter :: "nat \<Rightarrow> (unit, mutex option, unit) prog" where
  "mutex_enter t = bnd (gets (\<lambda>m. m)) (\<lambda>m. case m of
     None \<Rightarrow> ret ()
   | Some m \<Rightarrow>
       (if mx_owner m = None then modify (\<lambda>_. Some (m\<lparr>mx_owner := Some t, mx_depth := 1\<rparr>))
        else if mx_owner m \<noteq> Some t then hang
        else if mx_type m = SQLITE_MUTEX_RECURSIVE then modify (\<lambda>_. Some (m\<lparr>mx_depth := mx_depth m + 1\<rparr>))
        else undef))"

definition mutex_try :: "nat \<Rightarrow> (unit, mutex option, int) prog" where
  "mutex_try t = bnd (gets (\<lambda>m. m)) (\<lambda>m. case m of
     None \<Rightarrow> ret SQLITE_OK
   | Some m \<Rightarrow>
       (if mx_owner m \<noteq> None \<and> mx_owner m \<noteq> Some t then ret SQLITE_BUSY
        else thn (mutex_enter t) (ret SQLITE_OK)))"

definition mutex_leave :: "nat \<Rightarrow> (unit, mutex option, unit) prog" where
  "mutex_leave t = bnd (gets (\<lambda>m. m)) (\<lambda>m. case m of
     None \<Rightarrow> ret ()
   | Some m \<Rightarrow>
       (if mx_owner m = Some t then
          modify (\<lambda>_. Some (if mx_depth m \<le> 1 then m\<lparr>mx_owner := None, mx_depth := 0\<rparr>
            else m\<lparr>mx_depth := mx_depth m - 1\<rparr>))
        else undef))"

definition mutex_inv :: "mutex \<Rightarrow> bool" where
  "mutex_inv m \<longleftrightarrow> (mx_owner m = None \<longleftrightarrow> mx_depth m = 0) \<and>
     (mx_type m \<noteq> SQLITE_MUTEX_RECURSIVE \<longrightarrow> mx_depth m \<le> 1)"

lemma mutex_inv_steps:
  assumes "pred_option mutex_inv m"
  shows "pred_option mutex_inv (snd (mutex_enter t m))" and "pred_option mutex_inv (snd (mutex_try t m))"
    and "pred_option mutex_inv (snd (mutex_leave t m))"
  using assms
  by (auto simp: mutex_enter_def mutex_try_def mutex_leave_def mutex_inv_def prog_simps thn_def bnd_def
      split: option.splits)

text \<open>A recursive mutex entered \<open>n\<close> times by a thread is free again after as many exits.\<close>

fun times :: "nat \<Rightarrow> ('e, 's, unit) prog \<Rightarrow> ('e, 's, unit) prog" where
  "times 0 p = ret ()"
| "times (Suc n) p = thn p (times n p)"

lemma enter_times:
  "mx_type m = SQLITE_MUTEX_RECURSIVE \<Longrightarrow> mx_owner m = Some t \<Longrightarrow>
   times n (mutex_enter t) (Some m) = (Ret (), Some (m\<lparr>mx_depth := mx_depth m + n\<rparr>))"
  by (induction n arbitrary: m) (simp_all add: mutex_enter_def prog_simps)

lemma leave_times:
  "mx_owner m = Some t \<Longrightarrow> mx_depth m = Suc n \<Longrightarrow>
   times (Suc n) (mutex_leave t) (Some m) = (Ret (), Some (m\<lparr>mx_owner := None, mx_depth := 0\<rparr>))"
  by (induction n arbitrary: m) (simp_all add: mutex_leave_def prog_simps)

section \<open>Shared-memory locks\<close>

datatype shm_state = Shm_unlocked | Shm_shared | Shm_exclusive

unbundle bit_operations_syntax

text \<open>The only legal combinations of flags, and the transitions they stand for.\<close>

definition shm_legal :: "32 word list" where
  "shm_legal =
     [SQLITE_SHM_LOCK OR SQLITE_SHM_SHARED, SQLITE_SHM_LOCK OR SQLITE_SHM_EXCLUSIVE,
      SQLITE_SHM_UNLOCK OR SQLITE_SHM_SHARED, SQLITE_SHM_UNLOCK OR SQLITE_SHM_EXCLUSIVE]"

definition shm_next :: "32 word \<Rightarrow> shm_state \<Rightarrow> shm_state option" where
  "shm_next flags st =
    (if flags = SQLITE_SHM_LOCK OR SQLITE_SHM_SHARED \<and> st = Shm_unlocked then Some Shm_shared
     else if flags = SQLITE_SHM_LOCK OR SQLITE_SHM_EXCLUSIVE \<and> st = Shm_unlocked then Some Shm_exclusive
     else if flags = SQLITE_SHM_UNLOCK OR SQLITE_SHM_SHARED \<and> st = Shm_shared then Some Shm_unlocked
     else if flags = SQLITE_SHM_UNLOCK OR SQLITE_SHM_EXCLUSIVE \<and> st = Shm_exclusive then Some Shm_unlocked
     else None)"


lemma shm_next_legal: "shm_next flags st = Some st' \<Longrightarrow> flags \<in> set shm_legal"
  by (auto simp: shm_next_def shm_legal_def split: if_splits)

lemma shm_no_upgrade:
  "shm_next flags Shm_shared \<noteq> Some Shm_exclusive" "shm_next flags Shm_exclusive \<noteq> Some Shm_shared"
  by (simp_all add: shm_next_def code_defs)

end
