(* ===== verification/SqliteFormats.thy ===== *)
theory SqliteFormats
  imports SqliteLifecycle PacketParser
begin

text \<open>
  Further interfaces \<open>sqlite3.h\<close> documents with enough detail to compute with: the version
  number, the quoting formats for SQL text, result tables, limits, bound parameters, blobs,
  blocks of memory, busy handlers, the page cache and the online backup.  The program uses
  none of the quoting formats and none of the bound parameters; the first section shows what
  they would have given it.
\<close>

section \<open>Quoting\<close>

text \<open>\<open>%q\<close> doubles the apostrophes of its argument, \<open>%Q\<close> also puts it between apostrophes (and
  a null pointer becomes \<open>NULL\<close>), \<open>%w\<close> doubles double quotes.\<close>

definition doubled :: "char \<Rightarrow> string \<Rightarrow> string" where
  "doubled d s = concat (map (\<lambda>c. if c = d then [d, d] else [c]) s)"

definition format_q :: "string \<Rightarrow> string" where
  "format_q s = doubled quote (c_str s)"

definition format_Q :: "string option \<Rightarrow> string" where
  "format_Q p = (case p of None \<Rightarrow> ''NULL'' | Some s \<Rightarrow> [quote] @ format_q s @ [quote])"

definition format_w :: "string \<Rightarrow> string" where
  "format_w s = doubled (CHR 0x22) (c_str s)"

text \<open>Reading the rest of a literal: a delimiter ends it, a doubled delimiter stands for one.\<close>

fun read_quoted :: "char \<Rightarrow> string \<Rightarrow> (string \<times> string) option" where
  "read_quoted d [] = None"
| "read_quoted d (c # s) =
    (if c \<noteq> d then map_option (apfst (Cons c)) (read_quoted d s)
     else
       (case s of
          [] \<Rightarrow> Some ([], [])
        | e # r \<Rightarrow> if e = d then map_option (apfst (Cons d)) (read_quoted d r) else Some ([], s)))"

lemma read_doubled:
  "take 1 r \<noteq> [d] \<Longrightarrow> read_quoted d (doubled d s @ d # r) = Some (s, r)"
  by (induction s) (auto simp: doubled_def split: list.splits)

lemma doubled_id: "d \<notin> set s \<Longrightarrow> doubled d s = s"
  by (induction s) (auto simp: doubled_def)

lemma format_Q_reads:
  assumes "take 1 r \<noteq> [quote]"
  shows "\<exists>t. format_Q (Some s) @ r = quote # t \<and> read_quoted quote t = Some (c_str s, r)"
  using read_doubled [OF assms, of "c_str s"] by (simp add: format_Q_def format_q_def)

text \<open>The texts the parser lets through need no quoting: between apostrophes they are safe.\<close>

lemma clean_format_q: "clean_arg a \<Longrightarrow> CHR 0x00 \<notin> set a \<Longrightarrow> format_q a = a"
  by (simp add: clean_arg_def format_q_def c_str_id doubled_id)

section \<open>Version\<close>

definition version_text :: "nat \<Rightarrow> nat \<Rightarrow> nat \<Rightarrow> string" where
  "version_text x y z = to_string (int x) @ ''.'' @ to_string (int y) @ ''.'' @ to_string (int z)"

lemma version_consistent:
  "SQLITE_VERSION = version_text 3 8 10" "SQLITE_VERSION_NUMBER = version_number 3 8 10"
  by code_simp+

section \<open>Result tables\<close>

definition result_table :: "'a list \<Rightarrow> 'a list list \<Rightarrow> 'a list" where
  "result_table names rs = names @ concat rs"

lemma length_result_table:
  "\<forall>r \<in> set rs. length r = length names \<Longrightarrow>
   length (result_table names rs) = (length rs + 1) * length names"
  by (induction rs) (auto simp: result_table_def)

lemma nth_concat_rows:
  "\<forall>r \<in> set rs. length r = m \<Longrightarrow> i < length rs \<Longrightarrow> j < m \<Longrightarrow> concat rs ! (i * m + j) = rs ! i ! j"
proof (induction rs arbitrary: i)
  case (Cons r rs)
  then show ?case by (cases i) (auto simp: nth_append)
qed simp

lemma result_table_entry:
  assumes "\<forall>r \<in> set rs. length r = length names" and "i < length rs" and "j < length names"
  shows "result_table names rs ! ((i + 1) * length names + j) = rs ! i ! j"
  using nth_concat_rows [OF assms] by (simp add: result_table_def nth_append)

section \<open>Limits\<close>

text \<open>\<open>hard\<close> is the upper bound of each category fixed at compile time.\<close>

definition sqlite3_limit :: "(int \<Rightarrow> int) \<Rightarrow> int \<Rightarrow> int \<Rightarrow> (int \<Rightarrow> int) \<Rightarrow> int \<times> (int \<Rightarrow> int)" where
  "sqlite3_limit hard cat newVal lim =
    (lim cat, if newVal < 0 then lim else lim(cat := min newVal (hard cat)))"

lemma limit_bounded:
  "\<forall>c. lim c \<le> hard c \<Longrightarrow> snd (sqlite3_limit hard cat newVal lim) c \<le> hard c"
  by (simp add: sqlite3_limit_def)

lemma limit_query: "sqlite3_limit hard cat (-1) lim = (lim cat, lim)"
  by (simp add: sqlite3_limit_def)

definition sqlite3_soft_heap_limit64 :: "int \<Rightarrow> int \<Rightarrow> int \<times> int" where
  "sqlite3_soft_heap_limit64 n cur = (cur, if n < 0 then cur else n)"

definition soft_limit_enabled :: "int \<Rightarrow> bool" where
  "soft_limit_enabled cur \<longleftrightarrow> cur \<noteq> 0"

text \<open>A switch of a connection: 0 turns it off, a positive number on, a negative one only reads it.\<close>

definition dbconfig_switch :: "int \<Rightarrow> bool \<Rightarrow> int \<times> bool" where
  "dbconfig_switch n cur =
    (let new = (if n = 0 then False else if n > 0 then True else cur) in (if new then 1 else 0, new))"

section \<open>Bound parameters\<close>

text \<open>Parameters count from 1; a statement that was stepped must be reset first.\<close>

definition sqlite3_bind :: "nat \<Rightarrow> 'v \<Rightarrow> stmt_state \<Rightarrow> 'v option list \<Rightarrow> int \<times> 'v option list" where
  "sqlite3_bind i v st params =
    (if st \<noteq> Fresh then (SQLITE_MISUSE, params)
     else if i = 0 \<or> length params < i then (SQLITE_RANGE, params)
     else (SQLITE_OK, params[i - 1 := Some v]))"

definition sqlite3_clear_bindings :: "'v option list \<Rightarrow> 'v option list" where
  "sqlite3_clear_bindings params = map (\<lambda>_. None) params"

lemma bind_code:
  "fst (sqlite3_bind i v st params) = SQLITE_OK \<longleftrightarrow> st = Fresh \<and> 1 \<le> i \<and> i \<le> length params"
  by (auto simp: sqlite3_bind_def SQLITE_OK_def SQLITE_MISUSE_def SQLITE_RANGE_def)

section \<open>Blobs\<close>

record blob =
  b_content :: string
  b_writable :: bool
  b_expired :: bool

definition blob_range :: "blob \<Rightarrow> int \<Rightarrow> int \<Rightarrow> bool" where
  "blob_range b n off \<longleftrightarrow> 0 \<le> n \<and> 0 \<le> off \<and> off + n \<le> int (length (b_content b))"

text \<open>The header does not say which code wins where several errors apply.\<close>

definition sqlite3_blob_read :: "int \<Rightarrow> int \<Rightarrow> blob \<Rightarrow> int \<times> string" where
  "sqlite3_blob_read n off b =
    (if \<not> blob_range b n off then (SQLITE_ERROR, [])
     else if b_expired b then (SQLITE_ABORT, [])
     else (SQLITE_OK, take (nat n) (drop (nat off) (b_content b))))"

definition sqlite3_blob_write :: "string \<Rightarrow> int \<Rightarrow> blob \<Rightarrow> int \<times> blob" where
  "sqlite3_blob_write z off b =
    (if \<not> b_writable b then (SQLITE_READONLY, b)
     else if \<not> blob_range b (int (length z)) off then (SQLITE_ERROR, b)
     else if b_expired b then (SQLITE_ABORT, b)
     else (SQLITE_OK, b\<lparr>b_content := take (nat off) (b_content b) @ z @
       drop (nat off + length z) (b_content b)\<rparr>))"

lemma blob_write_length: "length (b_content (snd (sqlite3_blob_write z off b))) = length (b_content b)"
  by (auto simp: sqlite3_blob_write_def blob_range_def)

lemma blob_write_read:
  "fst (sqlite3_blob_write z off b) = SQLITE_OK \<Longrightarrow>
   sqlite3_blob_read (int (length z)) off (snd (sqlite3_blob_write z off b)) = (SQLITE_OK, z)"
  by (auto simp: sqlite3_blob_write_def sqlite3_blob_read_def blob_range_def code_defs split: if_splits)

section \<open>Blocks of memory\<close>

text \<open>\<open>alloc\<close> is the free address the allocator finds, if any, and \<open>fill\<close> what a new byte holds;
  \<open>None\<close> is the null pointer.\<close>

type_synonym blocks = "nat \<Rightarrow> string option"

definition sqlite3_malloc :: "(blocks \<Rightarrow> nat \<Rightarrow> nat option) \<Rightarrow> char \<Rightarrow> int \<Rightarrow> blocks \<Rightarrow> nat option \<times> blocks" where
  "sqlite3_malloc alloc fill n m =
    (if n \<le> 0 then (None, m)
     else (case alloc m (nat n) of
         None \<Rightarrow> (None, m)
       | Some p \<Rightarrow> (Some p, m(p \<mapsto> replicate (nat n) fill))))"

text \<open>Undefined for an address that is not the start of a block.\<close>

definition sqlite3_free :: "nat option \<Rightarrow> blocks \<Rightarrow> blocks option" where
  "sqlite3_free x m = (case x of None \<Rightarrow> Some m | Some p \<Rightarrow> if m p = None then None else Some (m(p := None)))"

definition sqlite3_realloc ::
  "(blocks \<Rightarrow> nat \<Rightarrow> nat option) \<Rightarrow> char \<Rightarrow> nat option \<Rightarrow> int \<Rightarrow> blocks \<Rightarrow> (nat option \<times> blocks) option" where
  "sqlite3_realloc alloc fill x n m =
    (case x of
       None \<Rightarrow> Some (sqlite3_malloc alloc fill n m)
     | Some p \<Rightarrow>
         if n \<le> 0 then map_option (Pair None) (sqlite3_free x m)
         else (case m p of
             None \<Rightarrow> None
           | Some old \<Rightarrow>
               (case sqlite3_malloc alloc fill n m of
                  (None, m') \<Rightarrow> Some (None, m)
                | (Some p', m') \<Rightarrow>
                    Some (Some p', (m'(p := None))(p' \<mapsto> take (nat n) old @ replicate (nat n - length old) fill)))))"

definition sqlite3_msize :: "nat option \<Rightarrow> blocks \<Rightarrow> nat option" where
  "sqlite3_msize x m = (case x of None \<Rightarrow> Some 0 | Some p \<Rightarrow> map_option length (m p))"

lemma realloc_keeps:
  assumes "sqlite3_realloc alloc fill (Some p) n m = Some (Some p', m')" and "m p = Some old" and "0 < n"
  shows "\<exists>new. m' p' = Some new \<and> length new = nat n \<and>
    take (min (nat n) (length old)) new = take (min (nat n) (length old)) old"
  using assms
  by (auto simp: sqlite3_realloc_def sqlite3_malloc_def split: if_splits option.splits)

lemma realloc_failure_keeps:
  "sqlite3_realloc alloc fill (Some p) n m = Some (None, m') \<Longrightarrow> 0 < n \<Longrightarrow> m' = m"
  by (auto simp: sqlite3_realloc_def split: if_splits option.splits prod.splits)

section \<open>Busy handlers\<close>

text \<open>
  \<open>locked\<close> is the number of attempts that still find the table locked, \<open>n\<close> how often the
  handler was invoked for this lock.
\<close>

fun busy_access :: "(nat \<Rightarrow> int) option \<Rightarrow> nat \<Rightarrow> nat \<Rightarrow> int" where
  "busy_access handler n 0 = SQLITE_OK"
| "busy_access handler n (Suc locked) =
    (case handler of
       None \<Rightarrow> SQLITE_BUSY
     | Some h \<Rightarrow> if h n = 0 then SQLITE_BUSY else busy_access handler (n + 1) locked)"

text \<open>The handler of \<open>sqlite3_busy_timeout\<close>: \<open>pause k\<close> is the length of its \<open>k\<close>-th sleep.\<close>

definition timeout_handler :: "(nat \<Rightarrow> nat) \<Rightarrow> int \<Rightarrow> (nat \<Rightarrow> int) option" where
  "timeout_handler pause ms =
    (if ms \<le> 0 then None else Some (\<lambda>k. if int (sum pause {..<k}) \<ge> ms then 0 else 1))"

lemma busy_access_ok:
  "busy_access handler n locked = SQLITE_OK \<longleftrightarrow>
     locked = 0 \<or> (\<exists>h. handler = Some h \<and> (\<forall>k < locked. h (n + k) \<noteq> 0))"
proof (induction locked arbitrary: n)
  case (Suc locked)
  have "SQLITE_BUSY \<noteq> SQLITE_OK" by (simp add: code_defs)
  then show ?case
    using Suc by (auto simp: All_less_Suc2 split: option.splits)
qed simp

section \<open>The page cache\<close>

record page =
  pinned :: bool
  content :: string

type_synonym cache = "nat \<Rightarrow> page option"

text \<open>\<open>room\<close>: is it possible to allocate?  \<open>easy\<close>: is it convenient?\<close>

definition xFetch :: "bool \<Rightarrow> bool \<Rightarrow> string \<Rightarrow> nat \<Rightarrow> int \<Rightarrow> cache \<Rightarrow> page option \<times> cache" where
  "xFetch easy room blank key createFlag c =
    (case c key of
       Some p \<Rightarrow> (Some (p\<lparr>pinned := True\<rparr>), c(key \<mapsto> p\<lparr>pinned := True\<rparr>))
     | None \<Rightarrow>
         if createFlag = 1 \<and> easy \<or> createFlag = 2 \<and> room
         then (Some \<lparr>pinned = True, content = blank\<rparr>, c(key \<mapsto> \<lparr>pinned = True, content = blank\<rparr>))
         else (None, c))"

text \<open>The page is unpinned whatever number of fetches pinned it; with \<open>discard\<close> it is evicted,
  otherwise the cache may keep it.\<close>

definition xUnpin :: "bool \<Rightarrow> nat \<Rightarrow> bool \<Rightarrow> cache \<Rightarrow> cache" where
  "xUnpin evict key discard c =
    (case c key of
       None \<Rightarrow> c
     | Some p \<Rightarrow> if discard \<or> evict then c(key := None) else c(key \<mapsto> p\<lparr>pinned := False\<rparr>))"

definition xRekey :: "nat \<Rightarrow> nat \<Rightarrow> cache \<Rightarrow> cache" where
  "xRekey oldKey newKey c = (c(oldKey := None))(newKey := c oldKey)"

definition xTruncate :: "nat \<Rightarrow> cache \<Rightarrow> cache" where
  "xTruncate iLimit c = (\<lambda>k. if k \<ge> iLimit then None else c k)"

lemma xFetch_unpin_fetch:
  assumes "c key = Some p"
  shows "fst (xFetch easy room blank key flag (xUnpin False key False (snd (xFetch easy room blank key flag' c)))) =
    Some (p\<lparr>pinned := True\<rparr>)"
  using assms by (simp add: xFetch_def xUnpin_def)

section \<open>Online backup\<close>

record backup =
  bk_source :: "string list"
  bk_copied :: nat

definition backup_step :: "int \<Rightarrow> backup \<Rightarrow> int \<times> backup" where
  "backup_step n b =
    (let left = length (bk_source b) - bk_copied b;
         k = (if n < 0 then left else min (nat n) left);
         b' = b\<lparr>bk_copied := bk_copied b + k\<rparr>
     in (if bk_copied b' < length (bk_source b) then SQLITE_OK else SQLITE_DONE, b'))"

fun backup_run :: "nat \<Rightarrow> int \<Rightarrow> backup \<Rightarrow> int \<times> backup" where
  "backup_run 0 n b = backup_step n b"
| "backup_run (Suc k) n b =
    (case backup_step n b of (rc, b') \<Rightarrow> if rc = SQLITE_OK then backup_run k n b' else (rc, b'))"

text \<open>Steps of a positive number of pages end after as many calls as there are pages.\<close>

lemma backup_run_done:
  "0 < n \<Longrightarrow> bk_copied b \<le> length (bk_source b) \<Longrightarrow> length (bk_source b) - bk_copied b \<le> k \<Longrightarrow>
   \<exists>b'. backup_run k n b = (SQLITE_DONE, b') \<and> bk_copied b' = length (bk_source b)"
proof (induction k arbitrary: b)
  case 0
  then show ?case by (simp add: backup_step_def Let_def)
next
  case (Suc k)
  obtain rc b' where st: "backup_step n b = (rc, b')" by (metis surj_pair)
  show ?case
  proof (cases "rc = SQLITE_OK")
    case True
    then have b': "bk_source b' = bk_source b" "bk_copied b' = bk_copied b + nat n"
      "bk_copied b' < length (bk_source b)"
      using st by (auto simp: backup_step_def Let_def code_defs split: if_splits)
    with Suc.prems have "length (bk_source b') - bk_copied b' \<le> k" by simp
    with Suc.IH [of b'] Suc.prems(1) b' st True show ?thesis by simp
  next
    case False
    with st Suc.prems show ?thesis by (auto simp: backup_step_def Let_def split: if_splits)
  qed
qed

end
