(* ===== verification/SqliteRoutines.thy ===== *)
theory SqliteRoutines
  imports SqliteLifecycle
begin

text \<open>
  Further routines that \<open>sqlite3.h\<close> documents, next to the ones the program calls: the conversion
  of a column to the requested type, the test for a complete statement, the counters of changed
  rows, transactions with their hooks, the notification of an unlock, the status counters, the
  automatic checkpoint and the list of automatic extensions.  What the header leaves to SQL or to
  the C library (casts, the rendering of a float) is a parameter.
\<close>

section \<open>Values of a column\<close>

datatype 'f column_value = C_NULL | C_INTEGER int | C_FLOAT 'f | C_TEXT string | C_BLOB string

definition sqlite3_column_type :: "'f column_value \<Rightarrow> int" where
  "sqlite3_column_type v = (case v of C_NULL \<Rightarrow> SQLITE_NULL | C_INTEGER _ \<Rightarrow> SQLITE_INTEGER
     | C_FLOAT _ \<Rightarrow> SQLITE_FLOAT | C_TEXT _ \<Rightarrow> SQLITE_TEXT | C_BLOB _ \<Rightarrow> SQLITE_BLOB)"

text \<open>The table of conversions; \<open>None\<close> is the null pointer.\<close>

definition to_text :: "('f \<Rightarrow> string) \<Rightarrow> 'f column_value \<Rightarrow> string option" where
  "to_text render v = (case v of C_NULL \<Rightarrow> None | C_INTEGER n \<Rightarrow> Some (to_string n)
     | C_FLOAT x \<Rightarrow> Some (render x) | C_TEXT t \<Rightarrow> Some t | C_BLOB b \<Rightarrow> Some b)"

definition to_integer :: "('f \<Rightarrow> int) \<Rightarrow> (string \<Rightarrow> int) \<Rightarrow> 'f column_value \<Rightarrow> int" where
  "to_integer of_float cast v = (case v of C_NULL \<Rightarrow> 0 | C_INTEGER n \<Rightarrow> n
     | C_FLOAT x \<Rightarrow> of_float x | C_TEXT t \<Rightarrow> cast t | C_BLOB b \<Rightarrow> cast b)"

definition to_blob :: "('f \<Rightarrow> string) \<Rightarrow> 'f column_value \<Rightarrow> string option" where
  "to_blob cast v = (case v of C_NULL \<Rightarrow> None | C_INTEGER n \<Rightarrow> Some (to_string n)
     | C_FLOAT x \<Rightarrow> Some (cast x) | C_TEXT t \<Rightarrow> Some t | C_BLOB b \<Rightarrow> if b = [] then None else Some b)"

definition sqlite3_column_bytes :: "('f \<Rightarrow> string) \<Rightarrow> 'f column_value \<Rightarrow> nat" where
  "sqlite3_column_bytes render v = (case v of C_NULL \<Rightarrow> 0 | C_INTEGER n \<Rightarrow> length (to_string n)
     | C_FLOAT x \<Rightarrow> length (render x) | C_TEXT t \<Rightarrow> length t | C_BLOB b \<Rightarrow> length b)"

lemma column_bytes_text:
  "sqlite3_column_bytes render v = (case to_text render v of None \<Rightarrow> 0 | Some t \<Rightarrow> length t)"
  by (cases v) (simp_all add: sqlite3_column_bytes_def to_text_def)

text \<open>The values the program stores are read back as the model of the tables shows them.\<close>

fun stored :: "sql_value \<Rightarrow> 'f column_value" where
  "stored (VInt n) = C_INTEGER n"
| "stored (VText t) = C_TEXT t"

lemma stored_text: "to_text render (stored v) = Some (show_value v)"
  by (cases v) (simp_all add: to_text_def)

section \<open>Complete statements\<close>

text \<open>
  Semicolons in literals, quoted names and comments do not count; white space and comments after
  the last one are ignored.  Only \<open>CREATE TRIGGER\<close>, which the program does not use, is left out.
\<close>

fun closing :: "char \<Rightarrow> char option" where
  "closing c = (if c = CHR 0x27 \<or> c = CHR 0x22 \<or> c = CHR 0x60 then Some c
     else if c = CHR ''['' then Some (CHR '']'') else None)"

definition after_first :: "char \<Rightarrow> string \<Rightarrow> string option" where
  "after_first d s = (if d \<in> set s then Some (drop 1 (dropWhile (\<lambda>c. c \<noteq> d) s)) else None)"

fun after_comment :: "string \<Rightarrow> string option" where
  "after_comment (a # b # s) = (if a = CHR ''*'' \<and> b = CHR ''/'' then Some s else after_comment (b # s))"
| "after_comment _ = None"

lemma after_first_shorter: "after_first d s = Some r \<Longrightarrow> length r < length s"
proof -
  assume a: "after_first d s = Some r"
  then have "dropWhile (\<lambda>c. c \<noteq> d) s \<noteq> []" by (auto simp: after_first_def split: if_splits)
  moreover have "length (dropWhile (\<lambda>c. c \<noteq> d) s) \<le> length s" by (rule length_dropWhile_le)
  ultimately show ?thesis using a
    by (cases "dropWhile (\<lambda>c. c \<noteq> d) s") (auto simp: after_first_def split: if_splits)
qed

lemma after_comment_shorter: "after_comment s = Some r \<Longrightarrow> length r < length s"
  by (induction s rule: after_comment.induct) (auto split: if_splits)

text \<open>\<open>semi\<close>: was the last token a semicolon?\<close>

function complete_from :: "bool \<Rightarrow> string \<Rightarrow> bool" where
  "complete_from semi [] = semi"
| "complete_from semi (c # s) =
    (if c = CHR '';'' then complete_from True s
     else if sql_space c then complete_from semi s
     else if c = CHR ''-'' \<and> take 1 s = ''-'' then
       (case after_first (CHR 0x0A) s of None \<Rightarrow> semi | Some r \<Rightarrow> complete_from semi r)
     else if c = CHR ''/'' \<and> take 1 s = ''*'' then
       (case after_comment (drop 1 s) of None \<Rightarrow> False | Some r \<Rightarrow> complete_from semi r)
     else
       (case closing c of
          None \<Rightarrow> complete_from False s
        | Some d \<Rightarrow> (case after_first d s of None \<Rightarrow> False | Some r \<Rightarrow> complete_from False r)))"
  by pat_completeness auto
termination
  by (relation "measure (\<lambda>(semi, s). length s)")
     (auto dest: after_first_shorter after_comment_shorter)

definition sqlite3_complete :: "string \<Rightarrow> int" where
  "sqlite3_complete sql = (if complete_from False (c_str sql) then 1 else 0)"

lemma complete_literal:
  assumes "quote \<notin> set u"
  shows "complete_from semi (quote # u @ quote # s) = complete_from False s"
proof -
  have "after_first quote (u @ quote # s) = Some s" using assms by (simp add: after_first_def)
  then show ?thesis by (simp add: sql_space_def)
qed

section \<open>Counters of a connection\<close>

text \<open>An insertion gives the key of its row, if it succeeds; \<open>replace\<close> never fails.\<close>

datatype dml = Inserted int | Insert_failed | Changed nat | Other_stmt

record counters =
  n_changes :: nat
  n_total :: nat
  insert_rowid :: int

definition new_counters :: counters where
  "new_counters = \<lparr>n_changes = 0, n_total = 0, insert_rowid = 0\<rparr>"

fun count_stmt :: "dml \<Rightarrow> counters \<Rightarrow> counters" where
  "count_stmt (Inserted k) c = c\<lparr>n_changes := 1, n_total := n_total c + 1, insert_rowid := k\<rparr>"
| "count_stmt Insert_failed c = c"
| "count_stmt (Changed n) c = c\<lparr>n_changes := n, n_total := n_total c + n\<rparr>"
| "count_stmt Other_stmt c = c"

lemma failed_insert_keeps_rowid: "insert_rowid (count_stmt Insert_failed c) = insert_rowid c"
  by simp

lemma total_changes_sum:
  "n_total (fold count_stmt ds c) =
     n_total c + sum_list (map (\<lambda>d. case d of Inserted _ \<Rightarrow> 1 | Changed n \<Rightarrow> n | _ \<Rightarrow> 0) ds)"
proof (induction ds arbitrary: c)
  case (Cons d ds)
  then show ?case by (cases d) simp_all
qed simp

section \<open>Transactions\<close>

datatype 'd tcommand = Begin | Write "'d \<Rightarrow> 'd" | Commit | Rollback

record 'd transaction =
  autocommit :: bool
  saved :: 'd
  working :: 'd

text \<open>\<open>hook\<close> is the result of the commit hook; the result says whether the rollback hook is invoked.\<close>

definition commit_with :: "('d \<Rightarrow> int) \<Rightarrow> 'd transaction \<Rightarrow> 'd transaction \<times> bool" where
  "commit_with hook t =
    (if hook (working t) \<noteq> 0 then (t\<lparr>autocommit := True, working := saved t\<rparr>, True)
     else (t\<lparr>autocommit := True, saved := working t\<rparr>, False))"

fun transact :: "('d \<Rightarrow> int) \<Rightarrow> 'd tcommand \<Rightarrow> 'd transaction \<Rightarrow> 'd transaction \<times> bool" where
  "transact hook Begin t = (t\<lparr>autocommit := False\<rparr>, False)"
| "transact hook (Write f) t =
    (let t' = t\<lparr>working := f (working t)\<rparr> in if autocommit t then commit_with hook t' else (t', False))"
| "transact hook Commit t = commit_with hook t"
| "transact hook Rollback t = (t\<lparr>autocommit := True, working := saved t\<rparr>, True)"

definition transaction_inv :: "'d transaction \<Rightarrow> bool" where
  "transaction_inv t \<longleftrightarrow> (autocommit t \<longrightarrow> working t = saved t)"

lemma transaction_inv_step: "transaction_inv t \<Longrightarrow> transaction_inv (fst (transact hook cmd t))"
  by (cases cmd) (auto simp: transaction_inv_def commit_with_def Let_def)

text \<open>The program sends no \<open>BEGIN\<close>: each of its statements is committed by itself, so of several
  statements of one operation the first ones stay when a later one fails.\<close>

lemma autocommit_writes:
  "autocommit t \<Longrightarrow> hook (f (working t)) = 0 \<Longrightarrow>
   fst (transact hook (Write f) t) = t\<lparr>autocommit := True, working := f (working t), saved := f (working t)\<rparr>"
  by (simp add: commit_with_def Let_def)

section \<open>Unlock notification\<close>

text \<open>\<open>(b, c)\<close>: the blocked connection \<open>b\<close> is registered for the end of the transaction of \<open>c\<close>.\<close>

type_synonym waits = "(nat \<times> nat) list"

definition deadlocks :: "nat \<Rightarrow> nat \<Rightarrow> waits \<Rightarrow> bool" where
  "deadlocks b c ws \<longleftrightarrow> (c, b) \<in> (set ws)\<^sup>*"

text \<open>\<open>concluded\<close>: the transaction of the blocking connection has ended already; the callback is then
  invoked at once.  A new registration replaces the old one of the same connection.\<close>

definition sqlite3_unlock_notify :: "bool \<Rightarrow> nat \<Rightarrow> nat \<Rightarrow> waits \<Rightarrow> int \<times> waits" where
  "sqlite3_unlock_notify concluded b c ws =
    (let others = filter (\<lambda>w. fst w \<noteq> b) ws in
     if concluded then (SQLITE_OK, others)
     else if deadlocks b c others then (SQLITE_LOCKED, ws)
     else (SQLITE_OK, (b, c) # others))"

definition cancel_notify :: "nat \<Rightarrow> waits \<Rightarrow> waits" where
  "cancel_notify b ws = filter (\<lambda>w. fst w \<noteq> b) ws"

definition conclude :: "nat \<Rightarrow> waits \<Rightarrow> nat list \<times> waits" where
  "conclude c ws = (map fst (filter (\<lambda>w. snd w = c) ws), filter (\<lambda>w. snd w \<noteq> c) ws)"

lemma filter_acyclic: "acyclic (set ws) \<Longrightarrow> acyclic (set (filter P ws))"
  by (rule acyclic_subset) auto

lemma unlock_notify_acyclic:
  assumes "acyclic (set ws)"
  shows "acyclic (set (snd (sqlite3_unlock_notify concluded b c ws)))"
    and "acyclic (set (cancel_notify b ws))" and "acyclic (set (snd (conclude c ws)))"
  using assms
  by (auto simp: sqlite3_unlock_notify_def cancel_notify_def conclude_def deadlocks_def Let_def filter_acyclic
      simp del: set_filter)

section \<open>Status, checkpoints, extensions\<close>

definition sqlite3_status :: "bool \<Rightarrow> nat \<times> nat \<Rightarrow> (nat \<times> nat) \<times> (nat \<times> nat)" where
  "sqlite3_status resetFlag s = (s, (fst s, if resetFlag then fst s else snd s))"

definition record_value :: "nat \<Rightarrow> nat \<times> nat \<Rightarrow> nat \<times> nat" where
  "record_value n s = (n, max n (snd s))"

lemma highwater_inv:
  "fst s \<le> snd s \<Longrightarrow> fst (snd (sqlite3_status r s)) \<le> snd (snd (sqlite3_status r s))"
  "fst (record_value n s) \<le> snd (record_value n s)"
  by (simp_all add: sqlite3_status_def record_value_def)

text \<open>\<open>n\<close> is the number of frames in the log when a transaction has committed.\<close>

definition autocheckpoint_due :: "int \<Rightarrow> int \<Rightarrow> bool" where
  "autocheckpoint_due nFrame n \<longleftrightarrow> 0 < nFrame \<and> nFrame \<le> n"

definition sqlite3_auto_extension :: "'x \<Rightarrow> 'x list \<Rightarrow> 'x list" where
  "sqlite3_auto_extension x xs = (if x \<in> set xs then xs else xs @ [x])"

definition sqlite3_cancel_auto_extension :: "'x \<Rightarrow> 'x list \<Rightarrow> int \<times> 'x list" where
  "sqlite3_cancel_auto_extension x xs = (if x \<in> set xs then (1, remove1 x xs) else (0, xs))"

definition sqlite3_reset_auto_extension :: "'x list \<Rightarrow> 'x list" where
  "sqlite3_reset_auto_extension xs = []"

lemma extensions_distinct:
  "distinct xs \<Longrightarrow> distinct (sqlite3_auto_extension x xs)"
  "distinct xs \<Longrightarrow> distinct (snd (sqlite3_cancel_auto_extension x xs))"
  by (auto simp: sqlite3_auto_extension_def sqlite3_cancel_auto_extension_def)

lemma extension_cancelled:
  "distinct xs \<Longrightarrow> x \<notin> set (snd (sqlite3_cancel_auto_extension x (sqlite3_auto_extension x xs)))"
  by (simp add: sqlite3_auto_extension_def sqlite3_cancel_auto_extension_def)

text \<open>Zero exactly for texts that differ in the case of letters only.\<close>

definition sqlite3_stricmp_equal :: "string \<Rightarrow> string \<Rightarrow> bool" where
  "sqlite3_stricmp_equal a b \<longleftrightarrow> map to_lower (c_str a) = map to_lower (c_str b)"

end
