(* ===== verification/SqliteUri.thy ===== *)
theory SqliteUri
  imports SqliteRoutines
begin

unbundle bit_operations_syntax

text \<open>
  Opening a connection as \<open>sqlite3.h\<close> documents it: the flags that say how the file may be used,
  the special names, and the names that are URIs with their query parameters.  What the operating
  system offers (the names of its VFS objects, which files exist) is a parameter.
\<close>

section \<open>Access\<close>

text \<open>From the most restrictive to the least.\<close>

datatype access = Read_only | Read_write | Read_write_create

fun access_rank :: "access \<Rightarrow> nat" where
  "access_rank Read_only = 0"
| "access_rank Read_write = 1"
| "access_rank Read_write_create = 2"

lemma access_rank_eq [simp]: "access_rank a = access_rank b \<longleftrightarrow> a = b"
  by (cases a; cases b) simp_all

instantiation access :: linorder
begin

definition less_eq_access :: "access \<Rightarrow> access \<Rightarrow> bool" where
  "less_eq_access a b \<longleftrightarrow> access_rank a \<le> access_rank b"

definition less_access :: "access \<Rightarrow> access \<Rightarrow> bool" where
  "less_access a b \<longleftrightarrow> access_rank a < access_rank b"

instance
  by standard (auto simp: less_eq_access_def less_access_def)

end

text \<open>Any other combination is undefined behaviour.\<close>

definition access_of_flags :: "32 word \<Rightarrow> access option" where
  "access_of_flags flags =
    (let bits = flags AND (SQLITE_OPEN_READONLY OR SQLITE_OPEN_READWRITE OR SQLITE_OPEN_CREATE) in
     if bits = SQLITE_OPEN_READONLY then Some Read_only
     else if bits = SQLITE_OPEN_READWRITE then Some Read_write
     else if bits = SQLITE_OPEN_READWRITE OR SQLITE_OPEN_CREATE then Some Read_write_create
     else None)"

section \<open>URI filenames\<close>

definition hex_digit :: "char \<Rightarrow> nat option" where
  "hex_digit c = (let n = (of_char c :: nat) in
     if 48 \<le> n \<and> n \<le> 57 then Some (n - 48)
     else if 65 \<le> n \<and> n \<le> 70 then Some (n - 55)
     else if 97 \<le> n \<and> n \<le> 102 then Some (n - 87)
     else None)"

text \<open>A percent sign that two hexadecimal digits do not follow is no escape sequence.\<close>

fun unescape :: "string \<Rightarrow> string" where
  "unescape (c # a # b # s) =
    (if c = CHR ''%'' then
       (case (hex_digit a, hex_digit b) of
          (Some h, Some l) \<Rightarrow> char_of (16 * h + l) # unescape s
        | _ \<Rightarrow> c # unescape (a # b # s))
     else c # unescape (a # b # s))"
| "unescape s = s"

definition before :: "char \<Rightarrow> string \<Rightarrow> string" where
  "before c s = takeWhile (\<lambda>d. d \<noteq> c) s"

definition behind :: "char \<Rightarrow> string \<Rightarrow> string" where
  "behind c s = drop 1 (dropWhile (\<lambda>d. d \<noteq> c) s)"

record uri =
  authority :: "string option"
  uri_path :: string
  uri_query :: "(string \<times> string) list"

text \<open>The parts of a URI are separated first, then the escape sequences in them are replaced.\<close>

lemma behind_shorter: "s \<noteq> [] \<Longrightarrow> length (behind c s) < length s"
  using length_dropWhile_le [of "\<lambda>d. d \<noteq> c" s] by (cases s) (auto simp: behind_def)

function split_all :: "char \<Rightarrow> string \<Rightarrow> string list" where
  "split_all c s = (if s = [] then [] else before c s # split_all c (behind c s))"
  by pat_completeness auto

termination split_all
  by (relation "measure (\<lambda>(c, s). length s)") (simp_all add: behind_shorter)

declare split_all.simps [simp del]

definition query_pair :: "string \<Rightarrow> string \<times> string" where
  "query_pair s = (unescape (before (CHR ''='') s), unescape (behind (CHR ''='') s))"

definition parse_uri :: "string \<Rightarrow> uri option" where
  "parse_uri name =
    (if take 5 name \<noteq> ''file:'' then None
     else
       let body = before (CHR ''#'') (drop 5 name);
           hier = before (CHR ''?'') body;
           (auth, path) = (if take 2 hier = ''//''
             then (Some (before (CHR ''/'') (drop 2 hier)), dropWhile (\<lambda>d. d \<noteq> CHR ''/'') (drop 2 hier))
             else (None, hier))
       in Some \<lparr>authority = auth, uri_path = unescape path,
            uri_query = map query_pair (split_all (CHR ''&'') (behind (CHR ''?'') body))\<rparr>)"

text \<open>\<open>None\<close> is the null pointer, and a parameter without a value has the empty one.\<close>

definition sqlite3_uri_parameter :: "uri option \<Rightarrow> string \<Rightarrow> string option" where
  "sqlite3_uri_parameter F P = (case F of None \<Rightarrow> None | Some u \<Rightarrow> map_of (uri_query u) P)"

definition sqlite3_uri_boolean :: "uri option \<Rightarrow> string \<Rightarrow> bool \<Rightarrow> bool" where
  "sqlite3_uri_boolean F P B =
    (case sqlite3_uri_parameter F P of
       None \<Rightarrow> B
     | Some v \<Rightarrow>
         let w = map to_lower v; ds = takeWhile is_digit v in
         if w \<in> {''yes'', ''true'', ''on''} then True
         else if w \<in> {''no'', ''false'', ''off''} then False
         else if ds \<noteq> [] then dec_val ds \<noteq> 0
         else B)"

section \<open>Opening\<close>

datatype place = Memory | Temporary | Disk string
datatype cache = Shared | Private

record opened =
  place :: place
  access :: access
  vfs :: "string option"
  cache :: "cache option"
  no_locks :: bool

datatype open_error = Bad_authority | Bad_mode | Mode_not_allowed | Unknown_vfs | No_such_file

text \<open>The place a plain filename names.\<close>

definition place_of :: "string \<Rightarrow> place" where
  "place_of name = (if name = '':memory:'' then Memory else if name = [] then Temporary else Disk name)"

definition cache_of_flags :: "32 word \<Rightarrow> cache option" where
  "cache_of_flags flags =
    (if flags AND SQLITE_OPEN_SHAREDCACHE \<noteq> 0 then Some Shared
     else if flags AND SQLITE_OPEN_PRIVATECACHE \<noteq> 0 then Some Private else None)"

definition mode_access :: "string \<Rightarrow> access option" where
  "mode_access = map_of [(''ro'', Read_only), (''rw'', Read_write), (''rwc'', Read_write_create)]"

text \<open>The \<open>mode\<close> parameter: \<open>memory\<close>, or an access no wider than that of the flags.\<close>

definition uri_mode :: "uri \<Rightarrow> opened \<Rightarrow> (open_error, opened) outcome" where
  "uri_mode u q =
    (case sqlite3_uri_parameter (Some u) ''mode'' of
       None \<Rightarrow> Ret q
     | Some m \<Rightarrow>
         if m = ''memory'' then Ret (q\<lparr>place := Memory\<rparr>)
         else (case mode_access m of
             None \<Rightarrow> Throw Bad_mode
           | Some a \<Rightarrow> if access q < a then Throw Mode_not_allowed else Ret (q\<lparr>access := a\<rparr>)))"

text \<open>Only the two values of \<open>cache\<close> are specified.\<close>

definition uri_cache :: "uri \<Rightarrow> opened \<Rightarrow> (open_error, opened) outcome" where
  "uri_cache u q =
    (case sqlite3_uri_parameter (Some u) ''cache'' of
       None \<Rightarrow> Ret q
     | Some c \<Rightarrow>
         if c = ''shared'' then Ret (q\<lparr>cache := Some Shared\<rparr>)
         else if c = ''private'' then Ret (q\<lparr>cache := Some Private\<rparr>)
         else Undef)"

definition uri_vfs :: "uri \<Rightarrow> opened \<Rightarrow> opened" where
  "uri_vfs u q =
    (case sqlite3_uri_parameter (Some u) ''vfs'' of
       None \<Rightarrow> q
     | Some v \<Rightarrow> q\<lparr>vfs := (if v = [] then None else Some v)\<rparr>)"

definition uri_switches :: "uri \<Rightarrow> opened \<Rightarrow> opened" where
  "uri_switches u q =
    (if sqlite3_uri_boolean (Some u) ''immutable'' False then q\<lparr>access := Read_only, no_locks := True\<rparr>
     else if sqlite3_uri_boolean (Some u) ''nolock'' False then q\<lparr>no_locks := True\<rparr>
     else q)"

fun and_then :: "('e, 'a) outcome \<Rightarrow> ('a \<Rightarrow> ('e, 'b) outcome) \<Rightarrow> ('e, 'b) outcome" where
  "and_then (Ret a) f = f a"
| "and_then (Throw e) f = Throw e"
| "and_then Undef f = Undef"
| "and_then Hang f = Hang"

definition open_uri :: "uri \<Rightarrow> opened \<Rightarrow> (open_error, opened) outcome" where
  "open_uri u q =
    (if authority u \<notin> {None, Some '''', Some ''localhost''} then Throw Bad_authority
     else and_then (uri_mode u (q\<lparr>place := place_of (uri_path u)\<rparr>)) (\<lambda>q1.
       and_then (uri_cache u q1) (\<lambda>q2. Ret (uri_switches u (uri_vfs u q2)))))"

text \<open>
  \<open>global\<close> is the setting of \<open>SQLITE_CONFIG_URI\<close>, \<open>known\<close> tells the names of the VFS objects; of
  the parameters the header lists, \<open>psow\<close> does not change what is opened.
\<close>

definition sqlite3_open_v2 ::
  "bool \<Rightarrow> (string \<Rightarrow> bool) \<Rightarrow> string \<Rightarrow> 32 word \<Rightarrow> string option \<Rightarrow> (open_error, opened) outcome" where
  "sqlite3_open_v2 global known filename flags zVfs =
    (case access_of_flags flags of
       None \<Rightarrow> Undef
     | Some a \<Rightarrow>
         let q = \<lparr>place = place_of filename, access = a, vfs = zVfs, cache = cache_of_flags flags,
                   no_locks = False\<rparr>;
             result = (if global \<or> flags AND SQLITE_OPEN_URI \<noteq> 0
               then (case parse_uri filename of None \<Rightarrow> Ret q | Some u \<Rightarrow> open_uri u q) else Ret q)
         in and_then result (\<lambda>q'.
              case vfs q' of None \<Rightarrow> Ret q' | Some v \<Rightarrow> if known v then Ret q' else Throw Unknown_vfs))"

definition open_default :: "bool \<Rightarrow> (string \<Rightarrow> bool) \<Rightarrow> string \<Rightarrow> (open_error, opened) outcome" where
  "open_default global known filename =
     sqlite3_open_v2 global known filename (SQLITE_OPEN_READWRITE OR SQLITE_OPEN_CREATE) None"

text \<open>With the files that exist: a file is made only where the access says so.\<close>

definition open_file :: "string list \<Rightarrow> opened \<Rightarrow> (open_error, string list) outcome" where
  "open_file files q =
    (case place q of
       Disk name \<Rightarrow>
         if name \<in> set files then Ret files
         else if access q = Read_write_create then Ret (name # files)
         else Throw No_such_file
     | _ \<Rightarrow> Ret files)"

section \<open>What opening guarantees\<close>

named_theorems uri_defs "how a URI is taken apart"

declare parse_uri_def [uri_defs] before_def [uri_defs] behind_def [uri_defs] query_pair_def [uri_defs]
  sqlite3_uri_parameter_def [uri_defs] split_all.simps [uri_defs]

text \<open>Escape sequences: a text without a percent sign stands for itself, and every text can be
  written with escape sequences only.\<close>

definition hex_char :: "nat \<Rightarrow> char" where
  "hex_char n = (if n < 10 then char_of (n + 48) else char_of (n + 55))"

definition escape :: "string \<Rightarrow> string" where
  "escape s = concat (map (\<lambda>c. let n = of_char c :: nat in [CHR ''%'', hex_char (n div 16), hex_char (n mod 16)]) s)"

lemma hex_digit_char [simp]: "n < 16 \<Longrightarrow> hex_digit (hex_char n) = Some n"
  by (auto simp: hex_digit_def hex_char_def Let_def take_bit_eq_mod)

lemma unescape_plain: "CHR ''%'' \<notin> set s \<Longrightarrow> unescape s = s"
  by (induction s rule: unescape.induct) auto

lemma div_less_of_char: "of_char c div 16 < (16 :: nat)"
  by (rule less_mult_imp_div_less) simp

lemma unescape_escape: "unescape (escape s) = s"
proof (induction s)
  case (Cons c s)
  have "of_char c div 16 < (16 :: nat)" by (rule div_less_of_char)
  with Cons show ?case by (simp add: escape_def Let_def char_of_char)
qed (simp add: escape_def)

lemma and_then_Ret: "and_then r f = Ret b \<longleftrightarrow> (\<exists>a. r = Ret a \<and> f a = Ret b)"
  by (cases r) auto

text \<open>Nothing in the filename can widen what the flags allow.\<close>

lemma Read_only_least [simp]: "Read_only \<le> a"
  by (simp add: less_eq_access_def)

lemma uri_mode_access: "uri_mode u q = Ret q' \<Longrightarrow> access q' \<le> access q"
  by (auto simp: uri_mode_def split: if_splits option.splits)

lemma uri_cache_access: "uri_cache u q = Ret q' \<Longrightarrow> access q' = access q"
  by (auto simp: uri_cache_def split: if_splits option.splits)

lemma uri_vfs_access [simp]: "access (uri_vfs u q) = access q"
  by (simp add: uri_vfs_def split: option.split)

lemma uri_switches_access: "access (uri_switches u q) \<le> access q"
  by (simp add: uri_switches_def)

lemma open_uri_access:
  assumes "open_uri u q = Ret q'"
  shows "access q' \<le> access q"
proof -
  obtain q1 q2 where "uri_mode u (q\<lparr>place := place_of (uri_path u)\<rparr>) = Ret q1" "uri_cache u q1 = Ret q2"
    "q' = uri_switches u (uri_vfs u q2)"
    using assms by (auto simp: open_uri_def and_then_Ret split: if_splits)
  then show ?thesis
    using uri_mode_access uri_cache_access uri_switches_access [of u "uri_vfs u q2"] by fastforce
qed

lemma open_v2_access:
  assumes "sqlite3_open_v2 global known filename flags zVfs = Ret q" and "access_of_flags flags = Some a"
  shows "access q \<le> a"
proof -
  let ?q = "\<lparr>place = place_of filename, access = a, vfs = zVfs, cache = cache_of_flags flags, no_locks = False\<rparr>"
  from assms have "q = ?q \<or> (\<exists>u. open_uri u ?q = Ret q)"
    by (auto simp: sqlite3_open_v2_def and_then_Ret Let_def split: if_splits option.splits)
  then show ?thesis using open_uri_access by fastforce
qed

text \<open>Without the right to create, no file comes into being.\<close>

lemma open_file_creates:
  assumes "open_file files q = Ret files'" and "access q < Read_write_create"
  shows "files' = files"
  using assms by (auto simp: open_file_def split: place.splits if_splits)

text \<open>The way the program opens its database: the file of that name, made when it is missing.\<close>

lemma access_of_default: "access_of_flags (SQLITE_OPEN_READWRITE OR SQLITE_OPEN_CREATE) = Some Read_write_create"
  by (simp add: access_of_flags_def code_defs)

lemma open_no_uri:
  assumes "take 5 name \<noteq> ''file:''"
  shows "open_default global known name = Ret \<lparr>place = place_of name, access = Read_write_create, vfs = None,
    cache = None, no_locks = False\<rparr>"
proof -
  have "cache_of_flags (SQLITE_OPEN_READWRITE OR SQLITE_OPEN_CREATE) = None"
    by (simp add: cache_of_flags_def code_defs)
  then show ?thesis
    using assms by (simp add: open_default_def sqlite3_open_v2_def access_of_default parse_uri_def Let_def)
qed

lemma open_plain:
  assumes "take 5 name \<noteq> ''file:''" and "name \<noteq> '':memory:''" and "name \<noteq> []"
  shows "and_then (open_default global known name) (open_file files) =
    Ret (if name \<in> set files then files else name # files)"
  using assms by (simp add: open_no_uri place_of_def open_file_def)

text \<open>The examples of the header.\<close>

lemma uri_examples:
  "parse_uri ''file:data.db'' = Some \<lparr>authority = None, uri_path = ''data.db'', uri_query = []\<rparr>"
  "parse_uri ''file:///home/data.db'' = Some \<lparr>authority = Some [], uri_path = ''/home/data.db'', uri_query = []\<rparr>"
  "parse_uri ''file:///C:/My%20Files'' = Some \<lparr>authority = Some [], uri_path = ''/C:/My Files'', uri_query = []\<rparr>"
  by (simp_all add: uri_defs hex_digit_def, simp_all add: char_of_def bit_Suc_0_iff)

end
