(* ===== verification/SqliteFunctions.thy ===== *)
theory SqliteFunctions
  imports SqliteRoutines
begin

text \<open>
  What \<open>sqlite3.h\<close> documents of the parts of a connection an application can extend: parameters
  of a statement, SQL functions with their overloads, the memory of aggregates and the metadata of
  arguments, the authorizer, the progress handler, the seeding of the random numbers, the metadata
  of columns and the list of VFS objects.
\<close>

section \<open>Parameters of a statement\<close>

text \<open>
  \<open>?\<close>, \<open>?NNN\<close>, and the three forms with a name, which is kept with its first character.  A table
  gives each index the name of its parameter.  Not modelled: a statement in which \<open>?\<close> and \<open>?NNN\<close>
  have the same index.
\<close>

datatype param = Anonymous | Numbered nat | Named string

type_synonym params = "(nat \<times> string option) list"

definition sqlite3_bind_parameter_count :: "params \<Rightarrow> nat" where
  "sqlite3_bind_parameter_count t = foldr max (map fst t) 0"

fun place_param :: "param \<Rightarrow> params \<Rightarrow> params" where
  "place_param Anonymous t = (Suc (sqlite3_bind_parameter_count t), None) # t"
| "place_param (Numbered n) t = (if n \<in> fst ` set t then t else (n, Some (CHR ''?'' # to_string (int n))) # t)"
| "place_param (Named s) t = (if Some s \<in> snd ` set t then t
     else (Suc (sqlite3_bind_parameter_count t), Some s) # t)"

definition parameters :: "param list \<Rightarrow> params" where
  "parameters ps = fold place_param ps []"

definition sqlite3_bind_parameter_name :: "params \<Rightarrow> nat \<Rightarrow> string option" where
  "sqlite3_bind_parameter_name t n = (case map_of t n of None \<Rightarrow> None | Some name \<Rightarrow> name)"

text \<open>Zero when no parameter has the name.\<close>

definition sqlite3_bind_parameter_index :: "params \<Rightarrow> string \<Rightarrow> nat" where
  "sqlite3_bind_parameter_index t s = (case find (\<lambda>e. snd e = Some s) t of None \<Rightarrow> 0 | Some e \<Rightarrow> fst e)"

lemma parameter_count_bound: "n \<in> fst ` set t \<Longrightarrow> n \<le> sqlite3_bind_parameter_count t"
  by (induction t) (auto simp: sqlite3_bind_parameter_count_def le_max_iff_disj)

lemma next_parameter_fresh [simp]: "Suc (sqlite3_bind_parameter_count t) \<notin> fst ` set t"
  using parameter_count_bound [of "Suc (sqlite3_bind_parameter_count t)" t] by auto

lemma place_param_distinct: "distinct (map fst t) \<Longrightarrow> distinct (map fst (place_param p t))"
  using next_parameter_fresh [of t] by (cases p) auto

lemma parameters_distinct: "distinct (map fst (parameters ps))"
proof -
  have "distinct (map fst t) \<Longrightarrow> distinct (map fst (fold place_param ps t))" for t
    by (induction ps arbitrary: t) (simp_all add: place_param_distinct)
  then show ?thesis by (simp add: parameters_def)
qed

text \<open>The name of the index of a name is that name.\<close>

lemma parameter_name_index:
  assumes "Some s \<in> snd ` set (parameters ps)"
  shows "sqlite3_bind_parameter_name (parameters ps) (sqlite3_bind_parameter_index (parameters ps) s) = Some s"
proof -
  obtain e where e: "find (\<lambda>e. snd e = Some s) (parameters ps) = Some e"
    using assms by (cases "find (\<lambda>e. snd e = Some s) (parameters ps)") (auto simp: find_None_iff)
  then have "e \<in> set (parameters ps)" "snd e = Some s" by (auto simp: find_Some_iff)
  then have "map_of (parameters ps) (fst e) = Some (Some s)"
    by (metis map_of_is_SomeI parameters_distinct prod.collapse)
  with e show ?thesis
    by (simp add: sqlite3_bind_parameter_name_def sqlite3_bind_parameter_index_def)
qed

text \<open>Without \<open>?NNN\<close> the largest index is the number of parameters.\<close>

lemma parameter_count_unique:
  assumes "\<forall>p \<in> set ps. \<forall>n. p \<noteq> Numbered n"
  shows "sqlite3_bind_parameter_count (parameters ps) = length (parameters ps)"
proof -
  let ?ok = "\<lambda>t. sqlite3_bind_parameter_count t = length t"
  have step: "?ok (place_param p t)" if "?ok t" "\<forall>n. p \<noteq> Numbered n" for p t
    using that by (cases p) (simp_all add: sqlite3_bind_parameter_count_def)
  have "?ok t \<Longrightarrow> ?ok (fold place_param ps t)" for t
    using assms by (induction ps arbitrary: t) (simp_all add: step)
  then show ?thesis by (simp add: parameters_def sqlite3_bind_parameter_count_def)
qed

section \<open>SQL functions\<close>

datatype encoding = Utf8 | Utf16le | Utf16be

record 'f sql_fun =
  fun_name :: string
  fun_args :: int
  fun_enc :: encoding
  fun_impl :: 'f

definition same_fun :: "string \<Rightarrow> int \<Rightarrow> encoding \<Rightarrow> 'f sql_fun \<Rightarrow> bool" where
  "same_fun name n enc f \<longleftrightarrow> sqlite3_stricmp_equal (fun_name f) name \<and> fun_args f = n \<and> fun_enc f = enc"

text \<open>
  The result is the code, the functions of the connection, and the implementations whose
  destructor is invoked: those overloaded or deleted, and the new one when the call fails.
  \<open>None\<close> stands for three null pointers.
\<close>

definition sqlite3_create_function ::
  "string \<Rightarrow> int \<Rightarrow> encoding \<Rightarrow> 'f option \<Rightarrow> (unit, 'f sql_fun list, int \<times> 'f list) prog" where
  "sqlite3_create_function name n enc impl = (\<lambda>fs.
     if n < -1 \<or> n > 127 then (Undef, fs)
     else if length (c_str name) > 255 then (Ret (SQLITE_MISUSE, case impl of None \<Rightarrow> [] | Some f \<Rightarrow> [f]), fs)
     else
       let old = filter (same_fun name n enc) fs; rest = filter (\<lambda>f. \<not> same_fun name n enc f) fs in
       (Ret (SQLITE_OK, map fun_impl old),
        case impl of None \<Rightarrow> rest
        | Some f \<Rightarrow> \<lparr>fun_name = name, fun_args = n, fun_enc = enc, fun_impl = f\<rparr> # rest))"

definition callable :: "string \<Rightarrow> int \<Rightarrow> 'f sql_fun \<Rightarrow> bool" where
  "callable name n f \<longleftrightarrow> sqlite3_stricmp_equal (fun_name f) name \<and> (fun_args f = n \<or> fun_args f < 0)"

text \<open>How near an encoding is to that of the database.\<close>

definition enc_match :: "encoding \<Rightarrow> encoding \<Rightarrow> nat" where
  "enc_match db e = (if e = db then 2 else if e \<noteq> Utf8 \<and> db \<noteq> Utf8 then 1 else 0)"

definition args_match :: "'f sql_fun \<Rightarrow> nat" where
  "args_match f = (if fun_args f \<ge> 0 then 1 else 0)"

text \<open>The header does not say which of the two criteria comes first, so \<open>f\<close> is better than \<open>g\<close>
  when it is in one and not worse in the other.\<close>

definition better :: "encoding \<Rightarrow> 'f sql_fun \<Rightarrow> 'f sql_fun \<Rightarrow> bool" where
  "better db f g \<longleftrightarrow> args_match g \<le> args_match f \<and> enc_match db (fun_enc g) \<le> enc_match db (fun_enc f) \<and>
     (args_match g < args_match f \<or> enc_match db (fun_enc g) < enc_match db (fun_enc f))"

definition best_matches :: "encoding \<Rightarrow> string \<Rightarrow> int \<Rightarrow> 'f sql_fun list \<Rightarrow> 'f sql_fun list" where
  "best_matches db name n fs = (let cs = filter (callable name n) fs in
     filter (\<lambda>f. \<forall>g \<in> set cs. \<not> better db g f) cs)"

lemma best_match_exists:
  assumes "f \<in> set fs" and "callable name n f"
  shows "best_matches db name n fs \<noteq> []"
proof -
  let ?cs = "filter (callable name n) fs" and ?m = "\<lambda>f. args_match f + enc_match db (fun_enc f)"
  have "?m ` set ?cs \<noteq> {}" using assms by auto
  then have "Max (?m ` set ?cs) \<in> ?m ` set ?cs" by (intro Max_in) simp_all
  then obtain g where "g \<in> set ?cs" "?m g = Max (?m ` set ?cs)" by fastforce
  then have g: "g \<in> set ?cs" "\<forall>h \<in> set ?cs. ?m h \<le> ?m g" by simp_all
  then have "\<not> better db h g" if "h \<in> set ?cs" for h
    using that by (fastforce simp: better_def)
  with g(1) show ?thesis by (auto simp: best_matches_def filter_empty_conv)
qed

text \<open>At most one function has a given name, number of arguments and encoding.\<close>

definition funs_inv :: "'f sql_fun list \<Rightarrow> bool" where
  "funs_inv fs \<longleftrightarrow> distinct (map (\<lambda>f. (map to_lower (c_str (fun_name f)), fun_args f, fun_enc f)) fs)"

lemma funs_inv_create:
  assumes "funs_inv fs" and "sqlite3_create_function name n enc impl fs = (r, fs')"
  shows "funs_inv fs'"
proof -
  let ?key = "\<lambda>f. (map to_lower (c_str (fun_name f)), fun_args f, fun_enc f)"
  have 1: "distinct (map ?key (filter P fs))" for P
    using assms(1) by (simp add: funs_inv_def distinct_map_filter)
  have 2: "(map to_lower (c_str name), n, enc) \<notin> ?key ` set (filter (\<lambda>f. \<not> same_fun name n enc f) fs)"
    by (auto simp: same_fun_def sqlite3_stricmp_equal_def)
  show ?thesis
    using assms 1 2 by (auto simp: sqlite3_create_function_def funs_inv_def Let_def split: if_splits option.splits)
qed

text \<open>Every implementation is either still registered or has been destroyed, once.\<close>

lemma create_function_destroys:
  assumes "sqlite3_create_function name n enc impl fs = (Ret (code, gone), fs')"
  shows "mset (map fun_impl fs') + mset gone = mset (map fun_impl fs) + (case impl of None \<Rightarrow> {#} | Some f \<Rightarrow> {#f#})"
proof -
  have "mset (map fun_impl (filter (same_fun name n enc) fs)) +
      mset (map fun_impl (filter (\<lambda>f. \<not> same_fun name n enc f) fs)) = mset (map fun_impl fs)"
    by (induction fs) auto
  with assms show ?thesis
    by (auto simp: sqlite3_create_function_def Let_def ac_simps split: if_splits option.splits)
qed

section \<open>Memory of an aggregate, metadata of an argument\<close>

text \<open>
  \<open>None\<close> is a null pointer; \<open>alloc\<close> tells whether memory can be had.  The first call that succeeds
  fixes the size.
\<close>

definition sqlite3_aggregate_context :: "bool \<Rightarrow> int \<Rightarrow> (unit, string option, string option) prog" where
  "sqlite3_aggregate_context alloc N = (\<lambda>c. case c of
     Some b \<Rightarrow> (Ret (Some b), c)
   | None \<Rightarrow> if N \<le> 0 \<or> \<not> alloc then (Ret None, None)
       else let b = replicate (nat N) (CHR 0x00) in (Ret (Some b), Some b))"

lemma aggregate_context_kept:
  assumes "sqlite3_aggregate_context alloc N c = (Ret (Some b), c')"
  shows "sqlite3_aggregate_context alloc' N' c' = (Ret (Some b), c')"
  using assms by (auto simp: sqlite3_aggregate_context_def Let_def split: option.splits if_splits)

text \<open>Metadata by argument; the destructors that were invoked are kept in order.\<close>

record 'p auxdata =
  aux_live :: "(nat \<times> 'p) list"
  aux_destroyed :: "'p list"

definition sqlite3_get_auxdata :: "nat \<Rightarrow> 'p auxdata \<Rightarrow> 'p option" where
  "sqlite3_get_auxdata N a = map_of (aux_live a) N"

definition discard_auxdata :: "nat \<Rightarrow> 'p auxdata \<Rightarrow> 'p auxdata" where
  "discard_auxdata N a = a\<lparr>aux_live := filter (\<lambda>e. fst e \<noteq> N) (aux_live a),
     aux_destroyed := aux_destroyed a @ map snd (filter (\<lambda>e. fst e = N) (aux_live a))\<rparr>"

definition sqlite3_set_auxdata :: "bool \<Rightarrow> nat \<Rightarrow> 'p \<Rightarrow> 'p auxdata \<Rightarrow> 'p auxdata" where
  "sqlite3_set_auxdata alloc N P a =
    (let a' = discard_auxdata N a in
     if alloc then a'\<lparr>aux_live := (N, P) # aux_live a'\<rparr>
     else a'\<lparr>aux_destroyed := aux_destroyed a' @ [P]\<rparr>)"

text \<open>\<open>sqlite3_reset\<close> and \<open>sqlite3_finalize\<close> discard everything.\<close>

definition discard_all :: "'p auxdata \<Rightarrow> 'p auxdata" where
  "discard_all a = a\<lparr>aux_live := [], aux_destroyed := aux_destroyed a @ map snd (aux_live a)\<rparr>"

lemma map_of_without: "map_of (filter (\<lambda>e. fst e \<noteq> N) l) M = (if M = N then None else map_of l M)"
  by (induction l) auto

lemma get_set_auxdata:
  "sqlite3_get_auxdata M (sqlite3_set_auxdata alloc N P a) =
    (if M = N then if alloc then Some P else None else sqlite3_get_auxdata M a)"
  by (auto simp: sqlite3_get_auxdata_def sqlite3_set_auxdata_def discard_auxdata_def Let_def map_of_without)

definition aux_all :: "'p auxdata \<Rightarrow> 'p multiset" where
  "aux_all a = mset (map snd (aux_live a)) + mset (aux_destroyed a)"

lemma discard_auxdata_all [simp]: "aux_all (discard_auxdata N a) = aux_all a"
proof -
  have "mset (map snd (filter (\<lambda>e. fst e \<noteq> N) l)) + mset (map snd (filter (\<lambda>e. fst e = N) l)) = mset (map snd l)"
    for l :: "(nat \<times> 'p) list" by (induction l) auto
  from this [of "aux_live a"] show ?thesis by (simp add: aux_all_def discard_auxdata_def ac_simps)
qed

text \<open>The destructor of each pointer is invoked exactly once.\<close>

lemma set_auxdata_all: "aux_all (sqlite3_set_auxdata alloc N P a) = add_mset P (aux_all a)"
  using discard_auxdata_all [of N a] by (simp add: sqlite3_set_auxdata_def aux_all_def Let_def)

lemma discard_all_destroys: "mset (aux_destroyed (discard_all a)) = aux_all a"
  by (simp add: discard_all_def aux_all_def)

section \<open>The authorizer\<close>

text \<open>A statement is compiled action by action; \<open>arg\<close> stands for the strings the callback gets.\<close>

datatype 'a compiled = Do int 'a | Null_column 'a | Row_by_row 'a

definition compile_action :: "(int \<Rightarrow> 'a \<Rightarrow> int) \<Rightarrow> int \<Rightarrow> 'a \<Rightarrow> 'a compiled list option" where
  "compile_action auth action arg =
    (let verdict = auth action arg in
     if verdict = SQLITE_OK then Some [Do action arg]
     else if verdict = SQLITE_IGNORE then
       Some (if action = SQLITE_READ then [Null_column arg]
             else if action = SQLITE_DELETE then [Row_by_row arg] else [])
     else None)"

fun compile_actions :: "(int \<Rightarrow> 'a \<Rightarrow> int) \<Rightarrow> (int \<times> 'a) list \<Rightarrow> 'a compiled list option" where
  "compile_actions auth [] = Some []"
| "compile_actions auth ((action, arg) # as) =
    (case compile_action auth action arg of
       None \<Rightarrow> None
     | Some cs \<Rightarrow> map_option (\<lambda>r. cs @ r) (compile_actions auth as))"

text \<open>One authorizer at a time, none at first; without one, everything is allowed.\<close>

definition sqlite3_set_authorizer ::
  "(int \<Rightarrow> 'a \<Rightarrow> int) option \<Rightarrow> (int \<Rightarrow> 'a \<Rightarrow> int) option \<Rightarrow> (int \<Rightarrow> 'a \<Rightarrow> int) option" where
  "sqlite3_set_authorizer xAuth old = xAuth"

definition authorizer :: "(int \<Rightarrow> 'a \<Rightarrow> int) option \<Rightarrow> int \<Rightarrow> 'a \<Rightarrow> int" where
  "authorizer a = (case a of None \<Rightarrow> (\<lambda>_ _. SQLITE_OK) | Some f \<Rightarrow> f)"

lemma compiled_is_authorized:
  "compile_actions auth as = Some cs \<Longrightarrow> Do action arg \<in> set cs \<Longrightarrow> auth action arg = SQLITE_OK"
  by (induction as arbitrary: cs) (auto simp: compile_action_def Let_def split: option.splits if_splits)

lemma denied_is_rejected:
  assumes "(action, arg) \<in> set as" and "auth action arg \<notin> {SQLITE_OK, SQLITE_IGNORE}"
  shows "compile_actions auth as = None"
  using assms by (induction as) (auto simp: compile_action_def Let_def split: option.splits)

lemma no_authorizer: "compile_actions (authorizer None) as = Some (map (\<lambda>(action, arg). Do action arg) as)"
  by (induction as) (auto simp: compile_action_def authorizer_def)

section \<open>Progress, random numbers, columns, VFS objects\<close>

definition sqlite3_progress_handler :: "int \<Rightarrow> 'x option \<Rightarrow> (int \<times> 'x) option" where
  "sqlite3_progress_handler N X = (case X of None \<Rightarrow> None | Some x \<Rightarrow> if N < 1 then None else Some (N, x))"

text \<open>Does a call seed the generator?  The argument is the previous call: its \<open>N\<close>, and whether it
  had a buffer.\<close>

fun randomness_seeds :: "(int \<times> bool) option \<Rightarrow> bool" where
  "randomness_seeds None \<longleftrightarrow> True"
| "randomness_seeds (Some (N, buffer)) \<longleftrightarrow> N < 1 \<or> \<not> buffer"

record column_metadata =
  data_type :: string
  collation :: string
  not_null :: bool
  primary_key :: bool
  auto_increment :: bool

definition rowid_metadata :: column_metadata where
  "rowid_metadata = \<lparr>data_type = ''INTEGER'', collation = ''BINARY'', not_null = False, primary_key = True,
     auto_increment = False\<rparr>"

record table_schema =
  has_rowid :: bool
  integer_primary_key :: "string option"
  columns :: "(string \<times> column_metadata) list"

text \<open>\<open>tables\<close> finds a table by its name; without a column only its existence is checked.\<close>

definition sqlite3_table_column_metadata ::
  "(string \<Rightarrow> table_schema option) \<Rightarrow> string \<Rightarrow> string option \<Rightarrow> int \<times> column_metadata option" where
  "sqlite3_table_column_metadata tables T C =
    (case tables T of
       None \<Rightarrow> (SQLITE_ERROR, None)
     | Some t \<Rightarrow>
         (case C of
            None \<Rightarrow> (SQLITE_OK, None)
          | Some c \<Rightarrow>
              if c \<in> {''rowid'', ''oid'', ''_rowid_''} \<and> has_rowid t \<and> map_of (columns t) c = None then
                (case integer_primary_key t of
                   None \<Rightarrow> (SQLITE_OK, Some rowid_metadata)
                 | Some k \<Rightarrow> (SQLITE_OK, map_of (columns t) k))
              else (case map_of (columns t) c of
                   None \<Rightarrow> (SQLITE_ERROR, None) | Some m \<Rightarrow> (SQLITE_OK, Some m))))"

text \<open>The default VFS is the first.  After the default is unregistered the choice is arbitrary:
  \<open>pick\<close>.\<close>

definition sqlite3_vfs_find :: "string option \<Rightarrow> string list \<Rightarrow> string option" where
  "sqlite3_vfs_find name vs = (case name of
     None \<Rightarrow> (case vs of [] \<Rightarrow> None | v # _ \<Rightarrow> Some v)
   | Some n \<Rightarrow> if n \<in> set vs then Some n else None)"

definition sqlite3_vfs_register :: "string \<Rightarrow> bool \<Rightarrow> (unit, string list, int) prog" where
  "sqlite3_vfs_register v makeDflt = (\<lambda>vs.
     if v = [] then (Undef, vs)
     else let rest = removeAll v vs in
       (Ret SQLITE_OK, if makeDflt then v # rest
         else case vs of [] \<Rightarrow> [v] | d # _ \<Rightarrow> if d = v then vs else d # v # removeAll d rest))"

definition sqlite3_vfs_unregister :: "(string list \<Rightarrow> string list) \<Rightarrow> string \<Rightarrow> string list \<Rightarrow> string list" where
  "sqlite3_vfs_unregister pick v vs = (case vs of [] \<Rightarrow> [] | d # rest \<Rightarrow> if d = v then pick rest else d # removeAll v rest)"

lemma register_finds:
  assumes "sqlite3_vfs_register v makeDflt vs = (Ret c, vs')"
  shows "sqlite3_vfs_find (Some v) vs' = Some v"
    and "makeDflt \<Longrightarrow> sqlite3_vfs_find None vs' = Some v"
    and "\<not> makeDflt \<Longrightarrow> vs \<noteq> [] \<Longrightarrow> sqlite3_vfs_find None vs' = sqlite3_vfs_find None vs"
  using assms
  by (auto simp: sqlite3_vfs_register_def sqlite3_vfs_find_def Let_def split: if_splits list.splits)

lemma register_distinct:
  "distinct vs \<Longrightarrow> sqlite3_vfs_register v makeDflt vs = (r, vs') \<Longrightarrow> distinct vs'"
  by (auto simp: sqlite3_vfs_register_def Let_def distinct_removeAll split: if_splits list.splits)

end
