(* ===== verification/Console.thy ===== *)
theory Console
  imports SqliteLifecycle
begin

text \<open>
  The rest of \<open>Database.cpp\<close>: closing the database, the text of today's date, and the five
  functions that print a table.  A function that prints returns the text it writes to the
  console.  The date of the clock is a parameter.
\<close>

section \<open>Closing\<close>

text \<open>The result code is dropped.\<close>

definition DataBase_close :: "connection \<Rightarrow> connection" where
  "DataBase_close c = snd (sqlite3_close c)"

definition DataBase_dtor :: "connection \<Rightarrow> connection" where
  "DataBase_dtor c = DataBase_close c"

section \<open>The date\<close>

record tm =
  tm_mday :: nat
  tm_mon :: nat
  tm_year :: int

text \<open>\<open>strftime\<close> with \<open>%d/%m/%Y\<close>; the month counts from 0, the year from 1900.\<close>

definition two_digits :: "nat \<Rightarrow> string" where
  "two_digits n = [digit_char (n div 10), digit_char (n mod 10)]"

definition get_current_time :: "tm \<Rightarrow> string" where
  "get_current_time t =
     two_digits (tm_mday t) @ ''/'' @ two_digits (tm_mon t + 1) @ ''/'' @ to_string (tm_year t + 1900)"

definition valid_tm :: "tm \<Rightarrow> bool" where
  "valid_tm t \<longleftrightarrow> 1 \<le> tm_mday t \<and> tm_mday t \<le> 31 \<and> tm_mon t \<le> 11"

section \<open>The tables\<close>

text \<open>\<open>%ns\<close> of \<open>printf\<close>: at least \<open>n\<close> characters, to the right.\<close>

definition padded :: "nat \<Rightarrow> string \<Rightarrow> string" where
  "padded n s = (let t = c_str s in replicate (n - length t) (CHR '' '') @ t)"

text \<open>One call of \<open>printf\<close>: fields with a tab between them and a new line at the end.\<close>

fun printf_line :: "nat list \<Rightarrow> string list \<Rightarrow> string" where
  "printf_line (n # m # ns) (s # ss) = padded n s @ [CHR 0x09] @ printf_line (m # ns) ss"
| "printf_line [n] (s # ss) = padded n s @ [CHR 0x0A]"
| "printf_line _ _ = []"

text \<open>The first \<open>k\<close> fields of a row, each read with an unchecked subscript.\<close>

fun fields :: "nat \<Rightarrow> string list \<Rightarrow> ('e, 's, string list) prog" where
  "fields 0 row = ret []"
| "fields (Suc k) row =
    (case row of [] \<Rightarrow> undef | x # xs \<Rightarrow> bnd (fields k xs) (\<lambda>ys. ret (x # ys)))"

fun print_rows :: "(nat \<Rightarrow> string list \<Rightarrow> string) \<Rightarrow> nat \<Rightarrow> nat \<Rightarrow> string list list \<Rightarrow> ('e, 's, string) prog" where
  "print_rows line k col [] = ret []"
| "print_rows line k col (row # data) =
     bnd (fields k row) (\<lambda>xs. bnd (print_rows line k (col + 1) data) (\<lambda>rest. ret (line col xs @ rest)))"

definition rule_line :: "nat \<Rightarrow> string" where
  "rule_line n = replicate n (CHR ''_'') @ [CHR 0x0A]"

definition print_table ::
  "(string \<Rightarrow> 'db \<Rightarrow> (string list list \<times> 'db) option) \<Rightarrow> string \<Rightarrow> nat list \<Rightarrow> string list \<Rightarrow> nat \<Rightarrow>
   (nat \<Rightarrow> string list \<Rightarrow> string) \<Rightarrow> nat \<Rightarrow> (cxx_exn, 'db, string) prog" where
  "print_table q sql ws heads dashes line k =
     bnd (db_query q sql) (\<lambda>data.
     bnd (print_rows line k 0 data) (\<lambda>text. ret (printf_line ws heads @ rule_line dashes @ text)))"

definition printUsersTable where
  "printUsersTable q = print_table q ''SELECT * FROM Users;'' [3, 10, 10]
     [''[No.]'', ''Username'', ''Password''] 36
     (\<lambda>col xs. printf_line [3, 10, 10] (to_string (int col) # xs)) 2"

definition printPublicGroupsTable where
  "printPublicGroupsTable q = print_table q ''SELECT * FROM PublicGroups;'' [4, 10, 10, 13, 15]
     [''code'', ''name'', ''admin'', ''creation date'', ''number of users''] 71
     (\<lambda>col. printf_line [4, 10, 10, 13, 15]) 5"

definition printUsersInGroups where
  "printUsersInGroups q = print_table q ''SELECT * FROM Users_In_Groups;'' [10, 10, 10]
     [''group_code'', ''username'', ''status''] 39
     (\<lambda>col. printf_line [10, 10, 10]) 3"

definition printLists where
  "printLists q = print_table q ''SELECT * FROM Lists;'' [10, 10, 10, 10]
     [''group_code'', ''item'', ''quantity'', ''remarks''] 59
     (\<lambda>col. printf_line [10, 10, 10, 10]) 4"

definition printUsersPackets where
  "printUsersPackets q = print_table q ''SELECT * FROM UsersPackets;'' [4, 10, 10]
     [''Code'', ''Username'', ''Message''] 36
     (\<lambda>col. printf_line [3, 10, 10]) 3"

section \<open>Facts\<close>

lemma length_two_digits [simp]: "length (two_digits n) = 2"
  by (simp add: two_digits_def)

lemma length_padded: "length (padded n s) = max n (length (c_str s))"
  by (simp add: padded_def Let_def)

lemma printf_line_length:
  "length ns = length ss \<Longrightarrow> ns \<noteq> [] \<Longrightarrow> \<forall>(n, s) \<in> set (zip ns ss). length (c_str s) \<le> n \<Longrightarrow>
   length (printf_line ns ss) = sum_list ns + length ns"
  by (induction ns ss rule: printf_line.induct) (auto simp: length_padded)

lemma fields_run: "fields k row s = (if k \<le> length row then (Ret (take k row), s) else (Undef, s))"
  by (induction k row arbitrary: s rule: fields.induct) (auto simp: prog_simps split: list.split)

lemma print_rows_run:
  "\<forall>r \<in> set data. k \<le> length r \<Longrightarrow>
   print_rows line k col data s =
     (Ret (concat (map (\<lambda>(i, r). line i (take k r)) (enumerate col data))), s)"
  by (induction data arbitrary: col) (simp_all add: prog_simps fields_run)

end
