(* ===== verification/DatabaseProperties.thy ===== *)
theory DatabaseProperties
  imports SqliteFormats SqliteRoutines SqliteUri SqliteFunctions Console Demo
begin

text \<open>
  The properties of \<open>DataBase\<close>: what a query returns, that it follows the rules of SQLite, which file
  the constructor opens and what it leaves there, and the printed tables.
\<close>

section \<open>Queries\<close>

lemma query_rows_of_api:
  assumes "sqlite_api S A ok" and "ok db" and "parse_sql (c_str sql) = Some s"
    and "exec s (A db) = Some (rs, st')"
  shows "\<exists>rs' db'. query S sql db = Some (rs', db') \<and> mset rs' = mset (map show_row rs) \<and> A db' = st' \<and> ok db'"
proof -
  obtain stm db1 rs' db' where prep: "sqlite3_prepare_v2 S db (c_str sql) = (SQLITE_OK, stm, db1)"
    and rows: "yields S (sqlite3_column_count S stm) db1 stm rs' db'"
    and post: "mset rs' = mset (map show_row rs)" "A db' = st'" "ok db'"
    using sqlite_api.step_rows [OF assms] by blast
  from fetch_yields [OF rows, of "[]"] have "query S sql db = Some (rs', db')"
    by (auto simp: query_def prep)
  with post show ?thesis by blast
qed

text \<open>C24: On an engine that behaves as documented, \<open>DataBase::query\<close> ends for every text of the SQL
  fragment, returns the rows the statement selects, each as often as it occurs, and leaves the
  tables as the statement says.\<close>

theorem query_correct:
  assumes "sqlite_api S A ok" and "ok db" and "parse_sql (c_str sql) = Some s"
    and "exec s (A db) = Some (rs, st')"
  shows "\<exists>rs' db'. query S sql db = Some (rs', db') \<and> mset rs' = mset (map show_row rs) \<and> A db' = st' \<and> ok db'"
  by (rule query_rows_of_api [OF assms])

theorem query_correct_witness:
  "\<exists>db'. query ref_sqlite ''SELECT * FROM Lists;'' demo = Some ([[''1'', ''milk'', ''2'', ''fresh'']], db')"
proof -
  have "reads ''SELECT * FROM Lists;'' (Select None Lists always)" by (simp add: read_simps always_def)
  then have p: "parse_sql (c_str ''SELECT * FROM Lists;'') = Some (Select None Lists always)"
    by (simp add: reads_c_str reads_parse)
  have e: "exec (Select None Lists always) (id_abs demo) = Some ([[VInt 1, VText ''milk'', VInt 2, VText ''fresh'']], demo)"
    by (simp add: exec_Select_all demo_ready always_def cond_ok_def holds_def project_def)
  have "sqlite_api ref_sqlite id_abs wf_store" unfolding id_abs_def by (rule ref_engine.sqlite_api_axioms)
  from query_correct [OF this demo_wf p e] show ?thesis
    by (auto simp: show_row_def mset_single_list)
qed

section \<open>Statements\<close>

text \<open>C38: \<open>DataBase::query\<close> keeps to the life cycle SQLite prescribes: it steps a statement only where
  that is allowed, finalizes each statement it has prepared, and so \<open>DataBase::close\<close> after any
  number of queries really closes the connection.\<close>

theorem query_leaves_no_statement:
  assumes "query S sql db = Some (rs, db')" and "status c = Opened" and "stmts c = []"
  shows "query (monitored S) sql (db, c) = Some (rs, (db', c)) \<and> status (DataBase_close c) = Closed"
  using query_monitored [OF assms(1,2)] assms(3) by (simp add: DataBase_close_def sqlite3_close_def)

theorem query_leaves_no_statement_witness:
  "\<exists>rs db'. query (monitored ref_sqlite) ''SELECT * FROM Users;'' (demo, new_connection) = Some (rs, (db', new_connection))"
proof -
  have "reads ''SELECT * FROM Users;'' (Select None Users always)" by (simp add: read_simps always_def)
  then have "parse_sql (c_str ''SELECT * FROM Users;'') = Some (Select None Users always)" by (simp add: reads_c_str reads_parse)
  then have "\<exists>rs db'. query ref_sqlite ''SELECT * FROM Users;'' demo = Some (rs, db')"
    using ref_engine.stmt.query_rows [OF demo_wf] by (fastforce simp: exec_Select_all demo_ready always_def cond_ok_def)
  then show ?thesis using query_leaves_no_statement [of ref_sqlite] by (fastforce simp: new_connection_def)
qed

section \<open>The constructor\<close>

text \<open>C40: The constructor of \<open>DataBase\<close> opens the file \<open>DB_NAME\<close>, and whatever \<open>sqlite3_open\<close> returns for that
  name, which the program does not look at: if the connection is one that works, the constructor ends without an exception, all five tables
  exist, those that were in the file keep their rows, and the new ones are empty.\<close>

theorem DataBase_ctor_creates:
  assumes "sqlite_api S A ok" and "sqlite3_open S DB_NAME = (rc, db)" and "ok db"
  shows "\<exists>db'. DataBase_ctor S = (Ret (), db') \<and> ok db' \<and> ready (A db') \<and>
    (\<forall>t. rows (A db') t = (if created (A db) t then rows (A db) t else []))"
proof -
  have q: "sql_query (query S) A ok"
    using assms(1) query_rows_of_api sqlite_api.tables_wf by (auto simp: sql_query_def)
  obtain db' where run: "create_tables (query S) db = (Ret (), db')" "A db' = create_all (A db)" "ok db'"
    using sql_query.create_tables_effect [OF q assms(3)] by blast
  have "rows (create_all st) t = (if created st t then rows st t else [])" for st t
    by (cases t) (simp_all add: create_all_def create_effect_def set_rows_def)
  with run show ?thesis
    using assms(2) by (auto simp: DataBase_ctor_def DataBase_open_def ready_create_all)
qed

theorem DataBase_ctor_creates_witness:
  "\<exists>db'. DataBase_ctor ref_sqlite = (Ret (), db') \<and> ready db'"
proof -
  have api: "sqlite_api ref_sqlite id_abs wf_store" unfolding id_abs_def by (rule ref_engine.sqlite_api_axioms)
  have "wf_store empty_store" by (simp add: wf_store_def wf_table_def empty_store_def)
  from DataBase_ctor_creates [OF api ref_sqlite_simps(5) this] show ?thesis by (auto simp: id_abs_def)
qed

section \<open>Codes and quoting\<close>

unbundle bit_operations_syntax

text \<open>The program opens the file of its own name and no other: as \<open>sqlite3.h\<close> describes opening,
  \<open>sqlite3_open\<close> with that name gives the file with the right to write, whether or not filenames
  are read as URIs and whichever VFS objects there are, and makes it exactly when it is missing.\<close>

theorem database_file_opened:
  "\<exists>o'. open_default global known DB_NAME = Ret o' \<and> place o' = Disk DB_NAME \<and> access o' = Read_write_create \<and>
     open_file files o' = Ret (if DB_NAME \<in> set files then files else DB_NAME # files)"
proof -
  have "take 5 DB_NAME \<noteq> ''file:''" and "DB_NAME \<notin> {'':memory:'', ''''}" by (simp_all add: DB_NAME_def)
  then show ?thesis by (simp add: open_no_uri place_of_def open_file_def)
qed

text \<open>Any set of the flags of \<open>sqlite3_open_v2\<close>, joined into one word, can be told apart again:
  a flag is in the word exactly when it is in the set.\<close>

theorem open_flags_decode:
  assumes "set fs \<subseteq> set open_flags" and "f \<in> set open_flags"
  shows "or_flags fs AND f \<noteq> 0 \<longleftrightarrow> f \<in> set fs"
  using assms flags_single(1) by (intro or_flags_and) auto

theorem open_flags_decode_witness:
  "or_flags [SQLITE_OPEN_READWRITE, SQLITE_OPEN_CREATE] AND SQLITE_OPEN_READONLY = 0"
  using open_flags_decode [of "[SQLITE_OPEN_READWRITE, SQLITE_OPEN_CREATE]" SQLITE_OPEN_READONLY]
  by (simp add: code_defs)

text \<open>\<open>%Q\<close> of \<open>sqlite3_mprintf\<close>, which the program does not use, would make every text safe: the
  literal it writes is read back as the text, whatever it holds, up to its first zero byte.\<close>

theorem format_Q_roundtrip:
  assumes "take 1 rest \<noteq> [quote]"
  shows "read_quoted quote (tl (format_Q (Some s) @ rest)) = Some (c_str s, rest)"
  using format_Q_reads [OF assms, of s] by auto

theorem format_Q_roundtrip_witness:
  "read_quoted quote (tl (format_Q (Some [quote, quote, CHR ''a'']) @ '';'')) = Some ([quote, quote, CHR ''a''], '';'')"
  using format_Q_roundtrip [of "'';''" "[quote, quote, CHR ''a'']"] by (simp add: c_str_def)

end
