(* ===== verification/Spec2Isabelle.thy ===== *)
theory Spec2Isabelle
  imports GroupProperties ListProperties ClientProperties ServerProperties ManagerProperties RequestProperties
    DatabaseProperties
begin

text \<open>
  Verification of the IList server (\<open>src/ServerIList\<close>), a C++ program that keeps shared shopping
  lists.  Clients connect over TCP and send packets such as \<open>@20|1|milk|2|fresh||\<close>; the server
  keeps accounts, groups, members, items and undelivered messages in a SQLite database.

  \<^bold>\<open>How the program works.\<close>  \<open>Server\<close> accepts connections in one thread and reads packets in another;
  the packets go through a queue.  \<open>Manager\<close> takes them from the queue one by one, starts a thread for
  each and waits for it.  That handler lets \<open>Parser\<close> take the packet apart, looks up the sender in
  \<open>Users\<close>, and calls \<open>PublicGroup\<close>, \<open>PublicLists\<close>, \<open>UsersPackets\<close> or \<open>Restore\<close>.  These build SQL
  texts and give them to \<open>DataBase\<close>, a wrapper around the C interface of SQLite.  The answers go to
  the members of the group who are online, and are stored for the others.  \<open>Program\<close> owns the
  \<open>Manager\<close> and reads commands from the console.

  \<^bold>\<open>How it is modelled.\<close>  A member function is a program of type
  \<open>'s \<Rightarrow> ('e, 'a) outcome \<times> 's\<close> (theory \<open>Prelude\<close>): it returns, throws, is undefined, or never
  returns, and keeps the state it has reached in every case.  The state of a component is the record
  of its member variables; \<open>Manager\<close> holds all of them over one database, and an operation of a
  component runs on its part of that state (\<open>zoom\<close>).  C++ is modelled with what makes it hard:
  \<open>std::map::operator[]\<close> inserts, \<open>stoi\<close> throws, an index out of range and a signed overflow are
  undefined, locking a locked mutex hangs and unlocking a free one is undefined.  The project file is one
  of Visual C++ (toolset v120), which does not check the exception specifications \<open>throw()\<close> in
  \<open>PublicGroup.h\<close> and \<open>Users.h\<close>: an exception that leaves one of these functions reaches the
  handler, as everything else in the program takes for granted.  By ISO C++ it would end the program there.

  \<^bold>\<open>Numbers.\<close>  The program splices the code of a group and the quantity of an addition into its SQL texts
  without quotes and without a check.  Where a property says that the arguments in the place of a
  number are numbers, it means \<open>is_code\<close> (decimal digits, below \<open>2 ^ 63\<close>), for packets \<open>spliceable\<close>, which
  also says that the text of the packet has no zero byte; all other arguments stand in quotes, which \<open>Parser\<close>
  keeps out of packets (\<open>safe_text\<close>: without apostrophe and zero byte).  What other texts can do is shown in
  \<open>ListProperties\<close>.  A turn of the dispatcher in \<open>System\<close> needs room for the code of another group
  (\<open>room\<close>: the last code is below \<open>2 ^ 63 - 1\<close>).

  \<^item> \<open>CxxStrings\<close>: \<open>stoi\<close>, \<open>to_string\<close>, \<open>find\<close>, \<open>getline\<close>.  \<open>Exceptions\<close>: \<open>Exception.h\<close>.
    \<open>Config\<close>: the codes of \<open>Config.h\<close> and the binary search over them.
  \<^item> \<open>PacketParser\<close> (\<open>Parser.cpp\<close>) and \<open>Replies\<close> (the three \<open>makeReceiveMessgae\<close> of \<open>Manager.cpp\<close>).
  \<^item> \<open>Sql\<close>, \<open>SqlFacts\<close>: the fragment of SQL the program speaks, from the characters of a statement to
    its effect on tables of rows.  \<open>Database\<close>, \<open>Schema\<close>, \<open>Console\<close>: \<open>Database.cpp\<close> (the call sequence of
    \<open>query\<close>, the schema texts and the constructor, closing, printing).  \<open>Permissions\<close>: its last class.
  \<^item> \<open>Tables\<close>, \<open>Contracts\<close>, \<open>Guarded\<close>: the tables as finite maps, what each kind of statement does to
    the maps, and the state \<open>PublicGroup\<close> and \<open>PublicLists\<close> have in common.
  \<^item> \<open>GroupOps\<close>, \<open>GroupFacts\<close>, \<open>GroupInvariant\<close>: \<open>PublicGroup.cpp\<close>, an abstract program over maps for
    each operation, the refinement, and the invariant of the groups.  \<open>ListOps\<close>, \<open>ListFacts\<close>:
    \<open>PublicLists.cpp\<close> in the same way.  \<open>Listings\<close>: the queries with any number of rows.
  \<^item> \<open>Accounts\<close> (\<open>Users.cpp\<close>), \<open>Packets\<close> (\<open>UsersPackets.cpp\<close>), \<open>Loops\<close> and \<open>RestoreMsg\<close> (\<open>Restore.cpp\<close>).
  \<^item> \<open>ServerIO\<close> (\<open>Message.cpp\<close>, \<open>Server.cpp\<close>, one turn of each loop) and \<open>Threads\<close>, a step relation that
    interleaves the threads of \<open>Server\<close>.
  \<^item> \<open>ManagerOps\<close>, \<open>Dispatcher\<close> (\<open>Manager.cpp\<close>), \<open>Shell\<close> (\<open>Program.cpp\<close>).
  \<^item> \<open>Invariants\<close>, \<open>SafeTexts\<close>: every call a handler makes is simulated by a step on the maps
    (\<open>acts_simulated\<close>), on which the invariants of the database are proved.  \<open>Triples\<close>: a small Hoare
    logic; \<open>Components\<close>, \<open>ServerInvariant\<close>, \<open>PacketInvariant\<close>: the invariant of the server, with a
    property of the tables to be kept beside it, under every handler and every packet; \<open>Isolation\<close>:
    that property for the data of one group; \<open>Logins\<close>: who can come online.
  \<^item> \<open>System\<close>: the threads of \<open>Server\<close> with the handlers of \<open>Manager\<close>, and the invariant in every
    interleaving.  \<open>Lifetimes\<close>: the constructor, the file from one start to the next, and a server that is
    stopped in the middle of an operation.  \<open>Requests\<close>, \<open>Invitations\<close>, \<open>Personal\<close>: what a request
    does to the tables and the network, from the packet to the notices of the members and the answer to the sender,
    one code of \<open>Config.h\<close> after the other.  \<open>Effects\<close>: an abstract machine
    (\<open>machine\<close>) whose state is the tables without the stored messages, who is online and the two mutexes,
    with one function for every packet and one for a client that goes, and the refinement of it by the
    handlers and by the runs of \<open>System\<close>; \<open>Traces\<close>: which packet an entry comes from; \<open>Endings\<close>: how a
    handler ends.
  \<^item> \<open>SqliteCodes\<close>, \<open>SqliteLifecycle\<close>, \<open>SqliteFormats\<close>, \<open>SqliteRoutines\<close>, \<open>SqliteUri\<close>, \<open>SqliteFunctions\<close>:
    \<open>sqlite3.h\<close>, its constants and what it documents of the routines the program calls or could have
    called (quoting, for example, would have kept out the injection shown below).

  \<^bold>\<open>Parameters.\<close>  The code of SQLite and of Winsock is not part of the repository.  SQLite is the
  record \<open>sqlite\<close> of functions, opening a file by its name among them; the locale \<open>sqlite_api\<close> states how prepare, step, column and finalize
  behave on the fragment of SQL, and \<open>sql_query\<close> what one query does; the first gives the second
  (\<open>sublocale\<close>), and both are interpreted on the engine \<open>ref_sqlite\<close>, which runs the fragment.
  The order of the rows of a result is left open.  Winsock is the record \<open>winsock\<close>, on a state of the
  network of any type.  The clock, memory that is not initialised, the races between the dispatcher
  and its handler and the packets that arrive are arguments.  The locale \<open>typed_table\<close> is the contract
  between the rows of a table and its map, interpreted for the five tables; \<open>cursor\<close> is that of the loops
  with an index variable in \<open>Restore\<close>; \<open>component\<close> and \<open>quiet_component\<close> (theory \<open>Components\<close>) are the
  interface between \<open>Manager\<close> and the parts of its state, interpreted for the five components.

  \<^bold>\<open>What is shown.\<close>
  \<^item> \<open>ManagerProperties\<close>: the invariant of the server in every interleaving of its threads and from start
    to start, but not across a stop inside \<open>createGroup\<close>; no packet of a user who is not a member changes
    a group, none of a member without the right to write changes an item; only a login with the right
    password brings a name online; messages stored for later are never handed over; nobody who is not
    logged in reaches a component; no exception leaves a handler, each is answered; the slots of the handler threads
    leak in one order of events, and when all ten have leaked the server stops; a refused registration logs its
    socket in; the program cannot end.
  \<^item> \<open>RequestProperties\<close>: the whole server implements the abstract machine, packet by packet in the order of
    the queue; exactly which requests wait for ever and which are undefined behaviour, all others return;
    every request of the protocol, in every case, does what the operations promise: those
    about items and members tell each member once (a removed one not at all), those about the sender alone
    answer the socket that asked; and at the end of any run an account, a status or an item is one of the start, or
    came from a packet whose sender then was a member (for an invitation), had full control (for a change
    of a status) or the right to write (for an item).
  \<^item> \<open>GroupProperties\<close>, \<open>ListProperties\<close>: each operation refines its abstract program, for every engine
    that meets the contract; the invariant of the groups (the counter is the number of members, at
    most four, the creator stays an administrator, members and items belong to groups that exist)
    holds in every outcome; any member can erase a group; an injected group code erases all of them;
    a quantity that \<open>stoi\<close> rejects leaves the mutex locked.
  \<^item> \<open>ClientProperties\<close>: the parser accepts exactly the legal packets and inverts the encoder; accounts; the
    restore message has each group, member and item once.
  \<^item> \<open>ServerProperties\<close>: the queue is in order and guarded in every interleaving; the waiting receiver
    stops the dispatcher; a wakeup can be lost; residues in the receive buffer.
  \<^item> \<open>DatabaseProperties\<close>: \<open>query\<close> terminates, returns the rows, and follows the life cycle SQLite
    prescribes; the file and the tables after the constructor; the codes of the header.

  \<^bold>\<open>Loops.\<close>  \<open>fetch\<close>, the loop of \<open>query\<close> over the rows, is a \<open>partial_function (option)\<close>; that it ends is
  proved from the contract of the engine.  The \<open>while\<close> loops of \<open>Restore\<close> and of the handler are
  \<open>while_do\<close>, where a loop that does not end hangs, and are shown to end.  The binary search is a
  \<open>function\<close> whose measure is the distance of its bounds, and never leaves the table.  The loops that are meant
  to run for ever, \<open>threads_handler\<close>, \<open>acceptFunction\<close> and \<open>shell\<close>, are \<open>forever\<close>: a turn goes on with the next value of the loop
  variables or breaks out with a result, and \<open>forever_no_break\<close> shows that a loop without a break does not return.  What
  a turn finds outside (packets, the clock, the words typed) is a function of its number; a turn of the dispatcher
  that finds no packet waits.  In \<open>Threads\<close> and \<open>System\<close>, where they are interleaved, a turn of a loop is a step of a
  relation.

  \<^bold>\<open>Not modelled.\<close>  \<open>main.cpp\<close> only waits for a key, the lines that would start the program are commented
  out; \<open>AES\<close> is an empty class.  What is written to the console, other than the tables, has no effect
  on the state.  The vector of clients is used by two threads without a mutex, which is a data race; a step
  of the relation in \<open>Threads\<close> is as long as one turn of a loop, so the model does not show what such a
  race does.  Texts are sequences of bytes; UTF-16 routines are left out.  Of \<open>sqlite3.h\<close> the prototypes the
  program does not call are modelled only where their documentation determines a result; virtual
  tables, custom memory and mutex implementations and test controls are not.  Statements that are
  damaged by an argument without the documented form are modelled only as far as the fragment of SQL
  goes: outside it the engine may do anything.
\<close>

end
